theory Spec2Isabelle
  imports Main "HOL-Library.Word" "HOL-Library.Sublist"
begin

unbundle bit_operations_syntax

section \<open>AST-to-CFG lowering: \<^verbatim>\<open>cfg/builder/builder_walk.cc\<close>\<close>

text \<open>
  A shallow embedding of the CFG builder's walker. Pointers to basic blocks become
  indices into the CFG's block vector, null pointers become \<open>None\<close>, the objects the
  walker mutates through references (the CFG, the alias maps, the temporary counter, the
  error queue) become one explicit state record that every operation takes and returns,
  and every \<^verbatim>\<open>Exception::raise\<close> and failing \<^verbatim>\<open>ENFORCE\<close> is a result value.
\<close>

subsection \<open>Core values\<close>

text \<open>\<^verbatim>\<open>core::Loc\<close>: a source range, or \<^verbatim>\<open>Loc::none()\<close>.\<close>

datatype loc = Loc_none | Loc nat nat

text \<open>
  Modelled from the spec: \<^verbatim>\<open>Loc::copyWithZeroLength\<close> (core/Loc.h is not part of the
  sources at hand); the spec calls the result a zero-length location, so the range is
  collapsed onto its begin position.
\<close>

fun copyWithZeroLength :: "loc \<Rightarrow> loc" where
  "copyWithZeroLength Loc_none = Loc_none"
| "copyWithZeroLength (Loc b e) = Loc b b"

text \<open>
  \<^verbatim>\<open>core::NameRef\<close>: the well-known names \<^verbatim>\<open>core::Names::x()\<close> that the walker
  mentions, and every other interned name.
\<close>

datatype name_ref =
    Names_noName
  | Names_whileTemp | Names_statTemp | Names_returnTemp | Names_ifTemp | Names_keepForIde
  | Names_blockPreCallTemp | Names_selfRestore | Names_blkArg | Names_blockReturnTemp
  | Names_nextTemp | Names_blockBreakAssign | Names_rescueStartTemp | Names_rescueEndTemp
  | Names_exceptionClassTemp | Names_isaCheckTemp | Names_gotoDeadTemp
  | Names_throwAwayTemp | Names_hashTemp | Names_arrayTemp | Names_castTemp | Names_magic
  | Names_absurd | Names_squareBrackets | Names_is_a_p | Names_buildHash | Names_buildArray
  | Names_let | Names_selfLocal | Names_blockCall
  | Name string

text \<open>\<^verbatim>\<open>core::SymbolRef\<close>: the well-known symbols \<^verbatim>\<open>core::Symbols::X()\<close> and the rest.\<close>

datatype symbol_ref =
    Symbols_noSymbol | Symbols_StubModule | Symbols_untyped | Symbols_T
  | Symbols_StandardError | Symbols_Magic
  | Symbol nat

definition symbol_exists :: "symbol_ref \<Rightarrow> bool" where
  "symbol_exists what = (what \<noteq> Symbols_noSymbol)"

text \<open>
  \<^verbatim>\<open>core::LocalVariable\<close>: an interned name and a \<^verbatim>\<open>u4\<close> suffix. The three
  distinguished values are modelled from the spec (core/LocalVariable.h is not part of the
  sources at hand): \<open>noVariable\<close> is the absent condition of an unconditional
  terminator, \<open>selfVariable\<close> and \<open>blockCall\<close> are the two reserved locals.
\<close>

datatype local_variable = LocalVariable (var_name: name_ref) (unique: "32 word")

definition noVariable :: local_variable where
  "noVariable = LocalVariable Names_noName 0"

definition selfVariable :: local_variable where
  "selfVariable = LocalVariable Names_selfLocal 0"

definition blockCall :: local_variable where
  "blockCall = LocalVariable Names_blockCall 0"

definition local_exists :: "local_variable \<Rightarrow> bool" where
  "local_exists v = (var_name v \<noteq> Names_noName)"

text \<open>\<^verbatim>\<open>core::TypePtr\<close>, as far as the walker builds or copies types.\<close>

datatype type_ptr =
    Types_nilClass
  | LiteralType_int int
  | LiteralType_bool bool
  | Type_other nat

subsection \<open>Instructions, basic blocks\<close>

record arg_flags =
  isKeyword :: bool
  isRepeated :: bool
  isDefault :: bool
  isShadow :: bool

text \<open>
  \<^verbatim>\<open>core::SendAndBlockLink\<close>. The walker shares one link by pointer; each link it
  makes carries a ruby block id that no other link of the CFG has, so equal values
  are the same link.
\<close>

record send_and_block_link =
  link_fun :: name_ref
  argFlags :: "arg_flags list"
  link_rubyBlockId :: int

datatype instruction =
    Ident local_variable
  | Alias symbol_ref
  | Literal type_ptr
  | Send local_variable name_ref loc "local_variable list" "loc list" bool
      "send_and_block_link option"
  | SolveConstraint send_and_block_link local_variable
  | LoadSelf send_and_block_link local_variable
  | LoadYieldParams send_and_block_link
  | BlockReturn "send_and_block_link option" local_variable
  | Return local_variable
  | Cast local_variable type_ptr name_ref
  | TAbsurd local_variable
  | Unanalyzable

text \<open>
  \<^verbatim>\<open>cfg::Binding\<close>: destination, location, instruction. The instruction's
  \<^verbatim>\<open>isSynthetic\<close> flag is kept beside it. Modelled from the spec: the flag's initial
  value (cfg/Instructions.h is not part of the sources at hand) is unset; the spec has it
  set only for instructions that do not correspond to user source, which is what
  \<^verbatim>\<open>synthesizeExpr\<close> does after the insertion.
\<close>

record binding =
  bind_var :: local_variable
  bind_loc :: loc
  bind_value :: instruction
  isSynthetic :: bool

text \<open>
  \<^verbatim>\<open>cfg::BlockExit\<close>. Modelled from the spec: a terminator is either unset (no
  condition, no successors, as the block is allocated) or set once; \<open>cond = None\<close>
  is the unset condition, so \<^verbatim>\<open>isCondSet()\<close> is \<open>cond \<noteq> None\<close>.
\<close>

record block_exit =
  cond :: "local_variable option"
  thenb :: "nat option"
  elseb :: "nat option"
  exit_loc :: loc

definition isCondSet :: "block_exit \<Rightarrow> bool" where
  "isCondSet x = (cond x \<noteq> None)"

definition unsetExit :: block_exit where
  "unsetExit = \<lparr>cond = None, thenb = None, elseb = None, exit_loc = Loc_none\<rparr>"

text \<open>
  \<^verbatim>\<open>cfg::BasicBlock\<close>. Modelled from the spec: the id, the loop depth and the
  iterator-block id of a block, like \<^verbatim>\<open>CFG::maxRubyBlockId\<close>, \<^verbatim>\<open>CFG::minLoops\<close> and the
  loop depth and iterator-block id of the context, are declared in cfg/CFG.h and
  cfg/builder/builder.h, which are not under src/. The spec has them as integers and
  gives no width, and so they are integers here; the walker copies them and adds one
  to them, and does nothing else with them.
\<close>

record basic_block =
  bb_id :: int
  outerLoops :: int
  bb_rubyBlockId :: int
  exprs :: "binding list"
  backEdges :: "nat list"
  bexit :: block_exit
  flags :: "32 word"

subsection \<open>The state the walker mutates\<close>

datatype error_code = UndeclaredVariable | MalformedTAbsurd | NoNextScope | InternalError

text \<open>
  Everything a \<^verbatim>\<open>CFGContext\<close> reaches by reference: the fields of \<^verbatim>\<open>CFG &inWhat\<close>
  (the block vector, the dead block, \<^verbatim>\<open>maxRubyBlockId\<close>, \<^verbatim>\<open>minLoops\<close>), the maps
  \<^verbatim>\<open>aliases\<close> and \<^verbatim>\<open>discoveredUndeclaredFields\<close>, the \<^verbatim>\<open>u4 &temporaryCounter\<close>,
  and the error queue of the global state. A \<^verbatim>\<open>BasicBlock *\<close> is the block's index in
  \<open>basicBlocks\<close>.
\<close>

record builder_state =
  basicBlocks :: "basic_block list"
  deadBlock :: nat
  maxRubyBlockId :: int
  minLoops :: "local_variable \<rightharpoonup> int"
  aliases :: "symbol_ref \<rightharpoonup> local_variable"
  discoveredUndeclaredFields :: "name_ref \<rightharpoonup> local_variable"
  temporaryCounter :: "32 word"
  errorQueue :: "(loc \<times> error_code) list"

text \<open>
  What a call leaves behind: a value and the state, a C++ exception together with the
  state at the throw, or nothing at all when the call does not return.
\<close>

datatype failure = SorbetException string | NullDereference

datatype 'a outcome =
    Returned 'a builder_state
  | Threw failure builder_state
  | Diverged

definition andThen ::
  "'a outcome \<Rightarrow> ('a \<Rightarrow> builder_state \<Rightarrow> 'b outcome) \<Rightarrow> 'b outcome" where
  "andThen m f = (case m of
      Returned a s \<Rightarrow> f a s
    | Threw e s \<Rightarrow> Threw e s
    | Diverged \<Rightarrow> Diverged)"

subsection \<open>The resolved AST\<close>

datatype ident_kind = Kind_Local | Kind_Instance | Kind_Class | Kind_Global

text \<open>
  \<^verbatim>\<open>ast::Expression\<close> and its subclasses, one constructor for each class that
  \<^verbatim>\<open>walk\<close>'s typecase names, and \<open>ast_Other\<close> (with its \<^verbatim>\<open>nodeName()\<close>) for
  every other class. Children the walker never reads are left out. In
  \<open>ast_ConstantLit\<close> the last field is \<^verbatim>\<open>original->scope\<close>, \<open>None\<close> when
  \<^verbatim>\<open>original\<close> is null. \<^verbatim>\<open>ast::Hash\<close> keeps its keys and values in two vectors
  of one length that are only read at the same index; they are one list of pairs here.
  The last field of \<open>ast_Send\<close> is \<^verbatim>\<open>isPrivateOk()\<close>.
\<close>

datatype expr =
    ast_While loc expr expr
  | ast_Return loc expr
  | ast_If loc expr expr expr
  | ast_Literal loc type_ptr
  | ast_UnresolvedIdent loc ident_kind name_ref
  | ast_UnresolvedConstantLit loc
  | ast_Field loc symbol_ref
  | ast_ConstantLit loc symbol_ref "expr option"
  | ast_Local loc local_variable
  | ast_Assign loc expr expr
  | ast_InsSeq loc "expr list" expr
  | ast_Send loc expr name_ref "expr list" "block option" bool
  | ast_Block block
  | ast_Next loc expr
  | ast_Break loc expr
  | ast_Retry loc
  | ast_Rescue loc expr "rescue_case list" expr expr
  | ast_Hash loc "(expr \<times> expr) list"
  | ast_Array loc "expr list"
  | ast_Cast loc type_ptr expr name_ref
  | ast_EmptyTree
  | ast_ClassDef loc
  | ast_MethodDef loc
  | ast_Other loc string
and block = BlockNode loc "expr list" expr
and rescue_case = RescueCaseNode loc "expr list" expr expr

fun block_loc :: "block \<Rightarrow> loc" where
  "block_loc (BlockNode l args body) = l"

fun expr_loc :: "expr \<Rightarrow> loc" where
  "expr_loc (ast_While l c b) = l"
| "expr_loc (ast_Return l e) = l"
| "expr_loc (ast_If l c t e) = l"
| "expr_loc (ast_Literal l v) = l"
| "expr_loc (ast_UnresolvedIdent l k n) = l"
| "expr_loc (ast_UnresolvedConstantLit l) = l"
| "expr_loc (ast_Field l f) = l"
| "expr_loc (ast_ConstantLit l c orig) = l"
| "expr_loc (ast_Local l v) = l"
| "expr_loc (ast_Assign l a b) = l"
| "expr_loc (ast_InsSeq l stats e) = l"
| "expr_loc (ast_Send l r f args blk p) = l"
| "expr_loc (ast_Block blk) = block_loc blk"
| "expr_loc (ast_Next l e) = l"
| "expr_loc (ast_Break l e) = l"
| "expr_loc (ast_Retry l) = l"
| "expr_loc (ast_Rescue l b cases e f) = l"
| "expr_loc (ast_Hash l kvs) = l"
| "expr_loc (ast_Array l elems) = l"
| "expr_loc (ast_Cast l t e c) = l"
| "expr_loc ast_EmptyTree = Loc_none"
| "expr_loc (ast_ClassDef l) = l"
| "expr_loc (ast_MethodDef l) = l"
| "expr_loc (ast_Other l n) = l"

text \<open>\<^verbatim>\<open>ast::isa_tree<ast::ConstantLit>\<close>, \<^verbatim>\<open>ast::isa_tree<ast::Send>\<close>.\<close>

fun isa_ConstantLit :: "expr \<Rightarrow> bool" where
  "isa_ConstantLit (ast_ConstantLit l c orig) = True"
| "isa_ConstantLit e = False"

fun isa_Send :: "expr \<Rightarrow> bool" where
  "isa_Send (ast_Send l r f args blk p) = True"
| "isa_Send e = False"

text \<open>
  Modelled from the spec: \<^verbatim>\<open>ast::MK::Constant\<close> (ast/Helpers.h is not under src/), the
  constant literal of a resolved symbol, with no original.
\<close>

definition MK_Constant :: "loc \<Rightarrow> symbol_ref \<Rightarrow> expr" where
  "MK_Constant l what = ast_ConstantLit l what None"

text \<open>\<^verbatim>\<open>ast::ParsedArg\<close>, the fields the walker reads.\<close>

record parsed_arg =
  arg_loc :: loc
  arg_local :: local_variable
  keyword :: bool
  repeated :: bool
  arg_default :: "expr option"
  shadow :: bool

subsection \<open>The context\<close>

text \<open>
  The symbol table is not under src/; what the walker reads of a symbol's data is a
  parameter: a \<^verbatim>\<open>core::Context\<close> is the table and the owner.
\<close>

record symbol_data =
  sym_name :: name_ref
  sym_owner :: symbol_ref
  isMethod :: bool
  isClassOrModule :: bool
  enclosingClass :: symbol_ref
  attachedClass :: symbol_ref
  findMemberTransitive :: "name_ref \<Rightarrow> symbol_ref"

record core_Context =
  symbolData :: "symbol_ref \<Rightarrow> symbol_data"
  owner :: symbol_ref

text \<open>The by-value fields of \<^verbatim>\<open>CFGContext\<close>.\<close>

record CFGContext =
  ctx :: core_Context
  target :: local_variable
  loops :: int
  isInsideRubyBlock :: bool
  nextScope :: "nat option"
  breakScope :: "nat option"
  rescueScope :: "nat option"
  link :: "send_and_block_link option"
  rubyBlockId :: int
  blockBreakTarget :: local_variable

text \<open>
  Modelled from the spec: the builders of \<^verbatim>\<open>CFGContext\<close> (cfg/builder/builder.h and
  their definitions are not under src/). Each returns a modified copy; the loop depth
  increments entering a loop or an iterator-block body.
\<close>

definition withTarget :: "CFGContext \<Rightarrow> local_variable \<Rightarrow> CFGContext" where
  "withTarget cctx t = cctx\<lparr>target := t\<rparr>"

definition withBlockBreakTarget :: "CFGContext \<Rightarrow> local_variable \<Rightarrow> CFGContext" where
  "withBlockBreakTarget cctx t = cctx\<lparr>blockBreakTarget := t\<rparr>"

definition withLoopScope :: "CFGContext \<Rightarrow> nat \<Rightarrow> nat \<Rightarrow> bool \<Rightarrow> CFGContext" where
  "withLoopScope cctx nxt brk insideRubyBlock =
     cctx\<lparr>nextScope := Some nxt, breakScope := Some brk,
          isInsideRubyBlock := insideRubyBlock, loops := loops cctx + 1\<rparr>"

definition withSendAndBlockLink :: "CFGContext \<Rightarrow> send_and_block_link \<Rightarrow> CFGContext" where
  "withSendAndBlockLink cctx l = cctx\<lparr>link := Some l\<rparr>"

definition withRubyBlockId :: "CFGContext \<Rightarrow> int \<Rightarrow> CFGContext" where
  "withRubyBlockId cctx i = cctx\<lparr>rubyBlockId := i\<rparr>"

text \<open>
  What the file uses and src/ does not hold, as parameters: the compile-time constant
  \<^verbatim>\<open>debug_mode\<close> that switches every \<^verbatim>\<open>ENFORCE\<close> on, the constants
  \<^verbatim>\<open>CFG::WAS_JUMP_DESTINATION\<close> and \<^verbatim>\<open>CFG::MIN_LOOP_LET\<close>, and
  \<^verbatim>\<open>ast::ArgParsing::parseArgs\<close>.
\<close>

record externals =
  debug_mode :: bool
  WAS_JUMP_DESTINATION :: "32 word"
  MIN_LOOP_LET :: int
  parseArgs :: "core_Context \<Rightarrow> expr list \<Rightarrow> parsed_arg list"

subsection \<open>Helpers of the walker\<close>

text \<open>
  \<^verbatim>\<open>ENFORCE(x, msg)\<close>: with \<^verbatim>\<open>debug_mode\<close> a failing check raises a
  \<^verbatim>\<open>SorbetException\<close>; without it the check is compiled out.
\<close>

definition ENFORCE :: "externals \<Rightarrow> bool \<Rightarrow> string \<Rightarrow> builder_state \<Rightarrow> unit outcome" where
  "ENFORCE E x msg s =
     (if debug_mode E \<and> \<not> x then Threw (SorbetException msg) s else Returned () s)"

text \<open>
  Modelled from the spec: \<^verbatim>\<open>GlobalState::beginError\<close> (core/GlobalState.h is not under
  src/). The walker only enqueues: an error is its location and its code, in the order
  of insertion. The header text set on the builder is not kept.
\<close>

definition beginError :: "loc \<Rightarrow> error_code \<Rightarrow> builder_state \<Rightarrow> builder_state" where
  "beginError l code s = s\<lparr>errorQueue := errorQueue s @ [(l, code)]\<rparr>"

text \<open>\<^verbatim>\<open>CFGContext::newTemporary\<close>: \<^verbatim>\<open>LocalVariable{name, ++temporaryCounter}\<close>.\<close>

definition newTemporary :: "name_ref \<Rightarrow> builder_state \<Rightarrow> local_variable \<times> builder_state" where
  "newTemporary n s =
     (LocalVariable n (temporaryCounter s + 1),
      s\<lparr>temporaryCounter := temporaryCounter s + 1\<rparr>)"

text \<open>
  Modelled from the spec: \<^verbatim>\<open>CFG::freshBlock\<close> (cfg/CFG.cc is not under src/). The CFG
  owns all blocks and allocates a fresh one, with its terminator unset, at the end of
  its block vector; the new block's pointer is its index.
\<close>

definition freshBlock :: "int \<Rightarrow> int \<Rightarrow> builder_state \<Rightarrow> nat \<times> builder_state" where
  "freshBlock outer rubyBlock s =
     (length (basicBlocks s),
      s\<lparr>basicBlocks := basicBlocks s @
           [\<lparr>bb_id = int (length (basicBlocks s)), outerLoops = outer,
             bb_rubyBlockId = rubyBlock, exprs = [], backEdges = [],
             bexit = unsetExit, flags = 0\<rparr>]\<rparr>)"

text \<open>A write through a \<^verbatim>\<open>BasicBlock *\<close>.\<close>

definition updateBlock :: "nat \<Rightarrow> (basic_block \<Rightarrow> basic_block) \<Rightarrow> builder_state \<Rightarrow> builder_state" where
  "updateBlock b f s = s\<lparr>basicBlocks := (basicBlocks s)[b := f (basicBlocks s ! b)]\<rparr>"

text \<open>\<^verbatim>\<open>bb->exprs.emplace_back(var, loc, inst)\<close>.\<close>

definition emplace_back ::
  "nat \<Rightarrow> local_variable \<Rightarrow> loc \<Rightarrow> instruction \<Rightarrow> builder_state \<Rightarrow> builder_state" where
  "emplace_back bb var l inst s =
     updateBlock bb (\<lambda>b. b\<lparr>exprs := exprs b @
        [\<lparr>bind_var = var, bind_loc = l, bind_value = inst, isSynthetic = False\<rparr>]\<rparr>) s"

text \<open>\<^verbatim>\<open>CFGBuilder::synthesizeExpr\<close> (lines 105-108).\<close>

definition synthesizeExpr ::
  "nat \<Rightarrow> local_variable \<Rightarrow> loc \<Rightarrow> instruction \<Rightarrow> builder_state \<Rightarrow> builder_state" where
  "synthesizeExpr bb var l inst s =
     updateBlock bb (\<lambda>b. b\<lparr>exprs := exprs b @
        [\<lparr>bind_var = var, bind_loc = l, bind_value = inst, isSynthetic = True\<rparr>]\<rparr>) s"

definition markJumpDestination :: "externals \<Rightarrow> nat \<Rightarrow> builder_state \<Rightarrow> builder_state" where
  "markJumpDestination E b s =
     updateBlock b (\<lambda>x. x\<lparr>flags := flags x OR WAS_JUMP_DESTINATION E\<rparr>) s"

definition addBackEdge :: "nat \<Rightarrow> nat \<Rightarrow> builder_state \<Rightarrow> builder_state" where
  "addBackEdge b from s = updateBlock b (\<lambda>x. x\<lparr>backEdges := backEdges x @ [from]\<rparr>) s"

text \<open>The three checks that open the guarded part of each jump.\<close>

definition enforceUnset :: "externals \<Rightarrow> nat \<Rightarrow> builder_state \<Rightarrow> unit outcome" where
  "enforceUnset E from s =
     andThen (ENFORCE E (\<not> isCondSet (bexit (basicBlocks s ! from)))
                ''condition for block already set'' s) (\<lambda>_ s.
     andThen (ENFORCE E (thenb (bexit (basicBlocks s ! from)) = None)
                ''thenb already set'' s) (\<lambda>_ s.
     ENFORCE E (elseb (bexit (basicBlocks s ! from)) = None) ''elseb already set'' s))"

text \<open>\<^verbatim>\<open>conditionalJump\<close> (lines 13-28).\<close>

definition conditionalJump ::
  "externals \<Rightarrow> nat \<Rightarrow> local_variable \<Rightarrow> nat \<Rightarrow> nat \<Rightarrow> builder_state \<Rightarrow> loc \<Rightarrow> unit outcome" where
  "conditionalJump E from cnd thn els s l =
     (let s = markJumpDestination E thn s;
          s = markJumpDestination E els s
      in if from \<noteq> deadBlock s then
           andThen (enforceUnset E from s) (\<lambda>_ s.
             let s = updateBlock from (\<lambda>b. b\<lparr>bexit :=
                       \<lparr>cond = Some cnd, thenb = Some thn, elseb = Some els, exit_loc = l\<rparr>\<rparr>) s;
                 s = addBackEdge thn from s;
                 s = addBackEdge els from s
             in Returned () s)
         else Returned () s)"

text \<open>\<^verbatim>\<open>unconditionalJump\<close> (lines 30-42).\<close>

definition unconditionalJump ::
  "externals \<Rightarrow> nat \<Rightarrow> nat \<Rightarrow> builder_state \<Rightarrow> loc \<Rightarrow> unit outcome" where
  "unconditionalJump E from to s l =
     (let s = markJumpDestination E to s
      in if from \<noteq> deadBlock s then
           andThen (enforceUnset E from s) (\<lambda>_ s.
             let s = updateBlock from (\<lambda>b. b\<lparr>bexit :=
                       \<lparr>cond = Some noVariable, thenb = Some to, elseb = Some to,
                        exit_loc = l\<rparr>\<rparr>) s;
                 s = addBackEdge to from s
             in Returned () s)
         else Returned () s)"

text \<open>\<^verbatim>\<open>jumpToDead\<close> (lines 44-56).\<close>

definition jumpToDead :: "externals \<Rightarrow> nat \<Rightarrow> builder_state \<Rightarrow> loc \<Rightarrow> unit outcome" where
  "jumpToDead E from s l =
     (let db = deadBlock s
      in if from \<noteq> db then
           andThen (enforceUnset E from s) (\<lambda>_ s.
             let s = updateBlock from (\<lambda>b. b\<lparr>bexit :=
                       \<lparr>cond = Some noVariable, thenb = Some db, elseb = Some db,
                        exit_loc = l\<rparr>\<rparr>) s;
                 s = addBackEdge db from s
             in Returned () s)
         else Returned () s)"

text \<open>
  \<^verbatim>\<open>global2Local\<close> (lines 58-66). \<^verbatim>\<open>aliases[what]\<close> inserts an absent local for a
  new key; a key with no entry and a key with an absent local both get a fresh temporary
  written through the reference.
\<close>

definition global2Local ::
  "CFGContext \<Rightarrow> symbol_ref \<Rightarrow> builder_state \<Rightarrow> local_variable \<times> builder_state" where
  "global2Local cctx what s =
     (case (case aliases s what of
              None \<Rightarrow> None
            | Some alias \<Rightarrow> if local_exists alias then Some alias else None) of
        Some alias \<Rightarrow> (alias, s)
      | None \<Rightarrow>
          (let (alias, s) = newTemporary (sym_name (symbolData (ctx cctx) what)) s
           in (alias, s\<lparr>aliases := (aliases s)(what \<mapsto> alias)\<rparr>)))"

text \<open>
  The loop of lines 74-76, which climbs from a singleton class to the class it is
  attached to for as long as there is one. Nothing here bounds the climb, so not
  returning is the value \<open>None\<close>.
\<close>

partial_function (option) attachedClassLoop ::
  "(symbol_ref \<Rightarrow> symbol_data) \<Rightarrow> symbol_ref \<Rightarrow> symbol_ref option" where
  "attachedClassLoop tab klass =
     (if symbol_exists (attachedClass (tab klass))
      then attachedClassLoop tab (attachedClass (tab klass))
      else Some klass)"

declare attachedClassLoop.simps [code]

text \<open>\<^verbatim>\<open>unresolvedIdent2Local\<close> (lines 68-103), from line 86 on.\<close>

definition memberOrUndeclared ::
  "externals \<Rightarrow> CFGContext \<Rightarrow> loc \<Rightarrow> name_ref \<Rightarrow> symbol_ref \<Rightarrow> builder_state
     \<Rightarrow> local_variable outcome" where
  "memberOrUndeclared E cctx l n klass s =
     andThen (ENFORCE E (isClassOrModule (symbolData (ctx cctx) klass))
                ''klass.data(cctx.ctx)->isClassOrModule()'' s) (\<lambda>_ s.
       let member = findMemberTransitive (symbolData (ctx cctx) klass) n
       in if \<not> symbol_exists member then
            (case discoveredUndeclaredFields s n of
               None \<Rightarrow>
                 (let s = beginError l UndeclaredVariable s;
                      (ret, s) = newTemporary n s
                  in Returned ret
                       (s\<lparr>discoveredUndeclaredFields :=
                            (discoveredUndeclaredFields s)(n \<mapsto> ret)\<rparr>))
             | Some fnd \<Rightarrow> Returned fnd s)
          else (let (alias, s) = global2Local cctx member s in Returned alias s))"

definition unresolvedIdent2Local ::
  "externals \<Rightarrow> CFGContext \<Rightarrow> loc \<Rightarrow> ident_kind \<Rightarrow> name_ref \<Rightarrow> builder_state
     \<Rightarrow> local_variable outcome" where
  "unresolvedIdent2Local E cctx l kind n s =
     (case kind of
        Kind_Class \<Rightarrow>
          (case attachedClassLoop (symbolData (ctx cctx))
                  (enclosingClass (symbolData (ctx cctx) (owner (ctx cctx)))) of
             None \<Rightarrow> Diverged
           | Some klass \<Rightarrow> memberOrUndeclared E cctx l n klass s)
      | Kind_Instance \<Rightarrow>
          andThen (ENFORCE E (isMethod (symbolData (ctx cctx) (owner (ctx cctx))))
                     ''cctx.ctx.owner.data(cctx.ctx)->isMethod()'' s) (\<lambda>_ s.
            memberOrUndeclared E cctx l n
              (sym_owner (symbolData (ctx cctx) (owner (ctx cctx)))) s)
      | _ \<Rightarrow> Threw (SorbetException ''Not Implemented'') s)"

text \<open>
  The left-hand side of an assignment (lines 239-251): the local that receives the
  value, by the class of \<^verbatim>\<open>a->lhs\<close>.
\<close>

fun assignLhs ::
  "externals \<Rightarrow> CFGContext \<Rightarrow> expr \<Rightarrow> builder_state \<Rightarrow> local_variable outcome" where
  "assignLhs E cctx (ast_ConstantLit l what orig) s =
     (let (lhs, s) = global2Local cctx what s in Returned lhs s)"
| "assignLhs E cctx (ast_Field l what) s =
     (let (lhs, s) = global2Local cctx what s in Returned lhs s)"
| "assignLhs E cctx (ast_Local l v) s = Returned v s"
| "assignLhs E cctx (ast_UnresolvedIdent l kind n) s =
     andThen (unresolvedIdent2Local E cctx l kind n s) (\<lambda>lhs s.
     andThen (ENFORCE E (local_exists lhs) ''lhs.exists()'' s) (\<lambda>_ s.
     Returned lhs s))"
| "assignLhs E cctx e s = Threw (SorbetException ''should never be reached'') s"

text \<open>
  The loop over the block's parsed arguments (lines 345-373); \<open>i\<close> is the index of
  the head of the list.
\<close>

fun bindBlockArgs ::
  "int \<Rightarrow> parsed_arg list \<Rightarrow> nat \<Rightarrow> local_variable \<Rightarrow> local_variable \<Rightarrow> loc
     \<Rightarrow> builder_state \<Rightarrow> builder_state" where
  "bindBlockArgs i [] bodyBlock argTemp idxTmp blockLoc s = s"
| "bindBlockArgs i (arg # rest) bodyBlock argTemp idxTmp blockLoc s =
     (if repeated arg then
        (if i \<noteq> 0 then
           bindBlockArgs (i + 1) rest bodyBlock argTemp idxTmp blockLoc
             (emplace_back bodyBlock (arg_local arg) (arg_loc arg) (Alias Symbols_untyped) s)
         else
           bindBlockArgs (i + 1) rest bodyBlock argTemp idxTmp blockLoc
             (emplace_back bodyBlock (arg_local arg) (arg_loc arg) (Ident argTemp) s))
      else
        (let zeroLengthLoc = copyWithZeroLength (arg_loc arg);
             s = emplace_back bodyBlock idxTmp zeroLengthLoc (Literal (LiteralType_int i)) s;
             s = emplace_back bodyBlock (arg_local arg) (arg_loc arg)
                   (Send argTemp Names_squareBrackets blockLoc [idxTmp] [zeroLengthLoc]
                      False None) s
         in bindBlockArgs (i + 1) rest bodyBlock argTemp idxTmp blockLoc s))"

text \<open>\<^verbatim>\<open>ast::cast_tree<ast::ConstantLit>\<close> followed by \<^verbatim>\<open>->symbol\<close>, and
  \<^verbatim>\<open>ast::cast_tree<ast::Local>\<close> followed by \<^verbatim>\<open>->localVariable\<close>.\<close>

fun cast_ConstantLit_symbol :: "expr \<Rightarrow> symbol_ref option" where
  "cast_ConstantLit_symbol (ast_ConstantLit l what orig) = Some what"
| "cast_ConstantLit_symbol e = None"

fun cast_Local_localVariable :: "expr \<Rightarrow> local_variable option" where
  "cast_Local_localVariable (ast_Local l v) = Some v"
| "cast_Local_localVariable e = None"

text \<open>The handler of lines 650-656: report an internal error at the node and rethrow.\<close>

definition catchSorbetException :: "loc \<Rightarrow> 'a outcome \<Rightarrow> 'a outcome" where
  "catchSorbetException l r =
     (case r of
        Threw (SorbetException msg) s \<Rightarrow>
          Threw (SorbetException msg) (beginError l InternalError s)
      | _ \<Rightarrow> r)"

subsection \<open>The walker\<close>

text \<open>
  \<^verbatim>\<open>CFGBuilder::walk\<close> (lines 113-657). \<open>walk\<close> is the function's frame: the
  check on \<open>current\<close> and the try block with its handler. \<open>walkNode\<close> is the
  typecase, one equation for each lambda, in the order of the source. The loops over
  child vectors are functions of their own: \<open>walkEach\<close> is the loop of \<open>InsSeq\<close>
  (lines 258-261), of a send's arguments (lines 303-310) and of \<open>Array\<close> (lines
  613-618), which differ only in the name of the temporary and all thread \<open>current\<close>
  through the children, and it returns the temporaries in order; \<open>walkHash\<close> is the
  loop of lines 590-599; \<open>walkRescueCases\<close> is the loop of lines 530-571 and
  \<open>walkExceptions\<close> the loop of lines 545-564 inside it. \<open>walkRescueCases\<close> also
  returns the rescue cases as the loop leaves them: it writes to the \<open>exceptions\<close>
  vector of the case at hand (lines 541 and 566), the only writes to the AST in the file.
  The check of line 648 cannot fail (each lambda that returns has set \<open>ret\<close>) and
  \<^verbatim>\<open>Exception::failInFuzzer\<close> acts in fuzzing builds only; neither is modelled.
\<close>

function
  walk :: "externals \<Rightarrow> CFGContext \<Rightarrow> expr \<Rightarrow> nat \<Rightarrow> builder_state \<Rightarrow> nat outcome"
and walkNode :: "externals \<Rightarrow> CFGContext \<Rightarrow> expr \<Rightarrow> nat \<Rightarrow> builder_state \<Rightarrow> nat outcome"
and walkEach :: "externals \<Rightarrow> CFGContext \<Rightarrow> name_ref \<Rightarrow> expr list \<Rightarrow> nat \<Rightarrow> builder_state
     \<Rightarrow> (local_variable list \<times> nat) outcome"
and walkHash :: "externals \<Rightarrow> CFGContext \<Rightarrow> (expr \<times> expr) list \<Rightarrow> nat \<Rightarrow> builder_state
     \<Rightarrow> (local_variable list \<times> nat) outcome"
and walkRescueCases :: "externals \<Rightarrow> CFGContext \<Rightarrow> loc \<Rightarrow> rescue_case list \<Rightarrow> nat \<Rightarrow> nat
     \<Rightarrow> builder_state \<Rightarrow> (rescue_case list \<times> nat) outcome"
and walkExceptions :: "externals \<Rightarrow> CFGContext \<Rightarrow> local_variable \<Rightarrow> nat \<Rightarrow> expr list \<Rightarrow> nat
     \<Rightarrow> builder_state \<Rightarrow> nat outcome"
where
  "walk E cctx what current s =
     andThen (ENFORCE E (\<not> isCondSet (bexit (basicBlocks s ! current)) \<or> current = deadBlock s)
                ''current block has already been finalized!'' s) (\<lambda>_ s.
       catchSorbetException (expr_loc what) (walkNode E cctx what current s))"

| "walkNode E cctx (ast_While l cnd body) current s =
     (let (headerBlock, s) = freshBlock (loops cctx + 1) (rubyBlockId cctx) s;
          (breakNotCalledBlock, s) = freshBlock (loops cctx) (rubyBlockId cctx) s;
          (continueBlock, s) = freshBlock (loops cctx) (rubyBlockId cctx) s
      in andThen (unconditionalJump E current headerBlock s l) (\<lambda>_ s.
         let (condSym, s) = newTemporary Names_whileTemp s
         in andThen (walk E (withLoopScope (withTarget cctx condSym) headerBlock continueBlock False)
                       cnd headerBlock s) (\<lambda>headerEnd s.
         let (bodyBlock, s) = freshBlock (loops cctx + 1) (rubyBlockId cctx) s
         in andThen (conditionalJump E headerEnd condSym bodyBlock breakNotCalledBlock s
                       (expr_loc cnd)) (\<lambda>_ s.
         let (bodySym, s) = newTemporary Names_statTemp s
         in andThen (walk E (withBlockBreakTarget
                               (withLoopScope (withTarget cctx bodySym) headerBlock continueBlock False)
                               (target cctx))
                       body bodyBlock s) (\<lambda>bodyEnd s.
         andThen (unconditionalJump E bodyEnd headerBlock s l) (\<lambda>_ s.
         let s = synthesizeExpr breakNotCalledBlock (target cctx) l (Literal Types_nilClass) s
         in andThen (unconditionalJump E breakNotCalledBlock continueBlock s l) (\<lambda>_ s.
         Returned continueBlock s)))))))"

| "walkNode E cctx (ast_Return l e) current s =
     (let (retSym, s) = newTemporary Names_returnTemp s
      in andThen (walk E (withTarget cctx retSym) e current s) (\<lambda>cont s.
         let s = emplace_back cont (target cctx) l (Return retSym) s
         in andThen (jumpToDead E cont s l) (\<lambda>_ s.
         Returned (deadBlock s) s)))"

| "walkNode E cctx (ast_If l cnd thenp elsep) current s =
     (let (ifSym, s) = newTemporary Names_ifTemp s
      in andThen (ENFORCE E (local_exists ifSym) ''ifSym does not exist'' s) (\<lambda>_ s.
         andThen (walk E (withTarget cctx ifSym) cnd current s) (\<lambda>cont s.
         let (thenBlock, s) = freshBlock (loops cctx) (rubyBlockId cctx) s;
             (elseBlock, s) = freshBlock (loops cctx) (rubyBlockId cctx) s
         in andThen (conditionalJump E cont ifSym thenBlock elseBlock s (expr_loc cnd)) (\<lambda>_ s.
         andThen (walk E cctx thenp thenBlock s) (\<lambda>thenEnd s.
         andThen (walk E cctx elsep elseBlock s) (\<lambda>elseEnd s.
         if thenEnd \<noteq> deadBlock s \<or> elseEnd \<noteq> deadBlock s then
           (if thenEnd = deadBlock s then Returned elseEnd s
            else if thenEnd = deadBlock s then Returned thenEnd s
            else
              (let (ret, s) = freshBlock (loops cctx) (rubyBlockId cctx) s
               in andThen (unconditionalJump E thenEnd ret s l) (\<lambda>_ s.
                  andThen (unconditionalJump E elseEnd ret s l) (\<lambda>_ s.
                  Returned ret s))))
         else Returned (deadBlock s) s))))))"

| "walkNode E cctx (ast_Literal l v) current s =
     Returned current (emplace_back current (target cctx) l (Literal v) s)"

| "walkNode E cctx (ast_UnresolvedIdent l kind n) current s =
     andThen (unresolvedIdent2Local E cctx l kind n s) (\<lambda>lv s.
     andThen (ENFORCE E (local_exists lv) ''loc.exists()'' s) (\<lambda>_ s.
     Returned current (emplace_back current (target cctx) l (Ident lv) s)))"

| "walkNode E cctx (ast_UnresolvedConstantLit l) current s =
     Threw (SorbetException ''Should have been eliminated by namer/resolver'') s"

| "walkNode E cctx (ast_Field l what) current s =
     (let (lv, s) = global2Local cctx what s
      in Returned current (emplace_back current (target cctx) l (Ident lv) s))"

| "walkNode E cctx (ast_ConstantLit l what original) current s =
     (let s = (if what = Symbols_StubModule
               then emplace_back current (target cctx) l (Alias Symbols_untyped) s
               else emplace_back current (target cctx) l (Alias what) s)
      in case original of
           None \<Rightarrow> Returned current s
         | Some scope \<Rightarrow>
             if isa_ConstantLit scope then
               (let (deadSym, s) = newTemporary Names_keepForIde s
                in andThen (walk E (withTarget cctx deadSym) scope current s) (\<lambda>current s.
                   Returned current s))
             else Returned current s)"

| "walkNode E cctx (ast_Local l v) current s =
     Returned current (emplace_back current (target cctx) l (Ident v) s)"

| "walkNode E cctx (ast_Assign l lhsExpr rhs) current s =
     andThen (assignLhs E cctx lhsExpr s) (\<lambda>lhs s.
     andThen (walk E (withTarget cctx lhs) rhs current s) (\<lambda>rhsCont s.
     Returned rhsCont (emplace_back rhsCont (target cctx) l (Ident lhs) s)))"

| "walkNode E cctx (ast_InsSeq l stats e) current s =
     andThen (walkEach E cctx Names_statTemp stats current s) (\<lambda>(temps, current) s.
     walk E cctx e current s)"

| "walkNode E cctx (ast_Send l recv fn args blk privateOk) current s =
     (if fn = Names_absurd \<and> cast_ConstantLit_symbol recv = Some Symbols_T then
        (case args of
           [arg0] \<Rightarrow>
             if isa_Send arg0 then Returned current (beginError l MalformedTAbsurd s)
             else
               (let (temp, s) = newTemporary Names_statTemp s
                in andThen (walk E (withTarget cctx temp) arg0 current s) (\<lambda>current s.
                   Returned current (emplace_back current (target cctx) l (TAbsurd temp) s)))
         | _ \<Rightarrow> Returned current (beginError l MalformedTAbsurd s))
      else
        (let (recvTemp, s) = newTemporary Names_statTemp s
         in andThen (walk E (withTarget cctx recvTemp) recv current s) (\<lambda>current s.
            andThen (walkEach E cctx Names_statTemp args current s) (\<lambda>(argTemps, current) s.
            let argLocs = map expr_loc args
            in case blk of
              None \<Rightarrow>
                Returned current
                  (emplace_back current (target cctx) l
                     (Send recvTemp fn (expr_loc recv) argTemps argLocs privateOk None) s)
            | Some (BlockNode blockLoc blockArgExprs blockBody) \<Rightarrow>
                (let newRubyBlockId = maxRubyBlockId s + 1;
                     s = s\<lparr>maxRubyBlockId := newRubyBlockId\<rparr>;
                     blockArgs = parseArgs E (ctx cctx) blockArgExprs;
                     flagsOfArgs = map (\<lambda>e. \<lparr>isKeyword = keyword e, isRepeated = repeated e,
                                              isDefault = (arg_default e \<noteq> None),
                                              isShadow = shadow e\<rparr>) blockArgs;
                     lnk = \<lparr>link_fun = fn, argFlags = flagsOfArgs,
                            link_rubyBlockId = newRubyBlockId\<rparr>;
                     send = Send recvTemp fn (expr_loc recv) argTemps argLocs privateOk (Some lnk);
                     (sendTemp, s) = newTemporary Names_blockPreCallTemp s;
                     solveConstraint = SolveConstraint lnk sendTemp;
                     s = emplace_back current sendTemp l send s;
                     (restoreSelf, s) = newTemporary Names_selfRestore s;
                     s = synthesizeExpr current restoreSelf Loc_none (Ident selfVariable) s;
                     (headerBlock, s) = freshBlock (loops cctx + 1) newRubyBlockId s;
                     (solveConstraintBlock, s) = freshBlock (loops cctx) (rubyBlockId cctx) s;
                     (postBlock, s) = freshBlock (loops cctx) (rubyBlockId cctx) s;
                     (bodyBlock, s) = freshBlock (loops cctx + 1) newRubyBlockId s;
                     (argTemp, s) = newTemporary Names_blkArg s;
                     (idxTmp, s) = newTemporary Names_blkArg s;
                     s = emplace_back bodyBlock selfVariable l (LoadSelf lnk selfVariable) s;
                     s = emplace_back bodyBlock argTemp blockLoc (LoadYieldParams lnk) s;
                     s = bindBlockArgs 0 blockArgs bodyBlock argTemp idxTmp blockLoc s
                 in andThen (conditionalJump E headerBlock blockCall bodyBlock
                               solveConstraintBlock s l) (\<lambda>_ s.
                    andThen (unconditionalJump E current headerBlock s l) (\<lambda>_ s.
                    let (blockrv, s) = newTemporary Names_blockReturnTemp s
                    in andThen (walk E (withRubyBlockId
                                         (withSendAndBlockLink
                                           (withLoopScope
                                             (withBlockBreakTarget (withTarget cctx blockrv)
                                                (target cctx))
                                             headerBlock postBlock True)
                                           lnk)
                                         newRubyBlockId)
                                  blockBody bodyBlock s) (\<lambda>blockLast s.
                    let s = (if blockLast \<noteq> deadBlock s then
                               (let (dead, s) = newTemporary Names_blockReturnTemp s
                                in synthesizeExpr blockLast dead blockLoc
                                     (BlockReturn (Some lnk) blockrv) s)
                             else s)
                    in andThen (unconditionalJump E blockLast headerBlock s l) (\<lambda>_ s.
                       andThen (unconditionalJump E solveConstraintBlock postBlock s l) (\<lambda>_ s.
                       let s = emplace_back solveConstraintBlock (target cctx) l solveConstraint s;
                           current = postBlock;
                           s = synthesizeExpr current selfVariable l (Ident restoreSelf) s
                       in Returned current s))))))))))"

| "walkNode E cctx (ast_Block b) current s =
     Threw (SorbetException ''should never encounter a bare Block'') s"

| "walkNode E cctx (ast_Next l e) current s =
     (let (exprSym, s) = newTemporary Names_nextTemp s
      in andThen (walk E (withTarget cctx exprSym) e current s) (\<lambda>afterNext s.
         andThen
           (if afterNext \<noteq> deadBlock s \<and> isInsideRubyBlock cctx then
              (let (dead, s) = newTemporary Names_nextTemp s
               in andThen (ENFORCE E (link cctx \<noteq> None) ''cctx.link.get() != nullptr'' s) (\<lambda>_ s.
                  Returned () (emplace_back afterNext dead l (BlockReturn (link cctx) exprSym) s)))
            else Returned () s) (\<lambda>_ s.
         case nextScope cctx of
           None \<Rightarrow>
             (let s = beginError l NoNextScope s
              in andThen (unconditionalJump E afterNext (deadBlock s) s l) (\<lambda>_ s.
                 Returned (deadBlock s) s))
         | Some scope \<Rightarrow>
             andThen (unconditionalJump E afterNext scope s l) (\<lambda>_ s.
             Returned (deadBlock s) s))))"

| "walkNode E cctx (ast_Break l e) current s =
     (let (exprSym, s) = newTemporary Names_returnTemp s
      in andThen (walk E (withTarget cctx exprSym) e current s) (\<lambda>afterBreak s.
         let (blockBreakAssign, s) = newTemporary Names_blockBreakAssign s;
             s = emplace_back afterBreak blockBreakAssign l (Ident exprSym) s;
             s = emplace_back afterBreak (blockBreakTarget cctx) l (Ident blockBreakAssign) s
         in case breakScope cctx of
              None \<Rightarrow>
                (let s = beginError l NoNextScope s
                 in andThen (unconditionalJump E afterBreak (deadBlock s) s l) (\<lambda>_ s.
                    Returned (deadBlock s) s))
            | Some scope \<Rightarrow>
                andThen (unconditionalJump E afterBreak scope s l) (\<lambda>_ s.
                Returned (deadBlock s) s)))"

| "walkNode E cctx (ast_Retry l) current s =
     (case rescueScope cctx of
        None \<Rightarrow>
          (let s = beginError l NoNextScope s
           in andThen (unconditionalJump E current (deadBlock s) s l) (\<lambda>_ s.
              Returned (deadBlock s) s))
      | Some scope \<Rightarrow>
          andThen (unconditionalJump E current scope s l) (\<lambda>_ s.
          Returned (deadBlock s) s))"

| "walkNode E cctx (ast_Rescue l body rescueCases elseExpr ensure) current s =
     (let (rescueStartBlock, s) = freshBlock (loops cctx) (rubyBlockId cctx) s
      in andThen (unconditionalJump E current rescueStartBlock s l) (\<lambda>_ s.
         let cctx = cctx\<lparr>rescueScope := Some rescueStartBlock\<rparr>;
             (rescueHandlersBlock, s) = freshBlock (loops cctx) (rubyBlockId cctx) s;
             (bodyBlock, s) = freshBlock (loops cctx) (rubyBlockId cctx) s;
             (rescueStartTemp, s) = newTemporary Names_rescueStartTemp s;
             s = synthesizeExpr rescueStartBlock rescueStartTemp l Unanalyzable s
         in andThen (conditionalJump E rescueStartBlock rescueStartTemp rescueHandlersBlock
                       bodyBlock s l) (\<lambda>_ s.
         andThen (walk E cctx body bodyBlock s) (\<lambda>bodyBlock s.
         let (elseBody, s) = freshBlock (loops cctx) (rubyBlockId cctx) s
         in andThen (unconditionalJump E bodyBlock elseBody s l) (\<lambda>_ s.
         andThen (walk E cctx elseExpr elseBody s) (\<lambda>elseBody s.
         let (ensureBody, s) = freshBlock (loops cctx) (rubyBlockId cctx) s;
             (shouldEnsureBlock, s) = freshBlock (loops cctx) (rubyBlockId cctx) s
         in andThen (unconditionalJump E elseBody shouldEnsureBlock s l) (\<lambda>_ s.
         let (rescueEndTemp, s) = newTemporary Names_rescueEndTemp s;
             s = synthesizeExpr shouldEnsureBlock rescueEndTemp l Unanalyzable s
         in andThen (conditionalJump E shouldEnsureBlock rescueEndTemp rescueHandlersBlock
                       ensureBody s l) (\<lambda>_ s.
         andThen (walkRescueCases E cctx l rescueCases rescueHandlersBlock ensureBody s)
           (\<lambda>(rescueCases, rescueHandlersBlock) s.
         let (gotoDeadTemp, s) = newTemporary Names_gotoDeadTemp s;
             s = synthesizeExpr rescueHandlersBlock gotoDeadTemp l
                   (Literal (LiteralType_bool True)) s
         in andThen (unconditionalJump E rescueHandlersBlock ensureBody s l) (\<lambda>_ s.
         let (throwAway, s) = newTemporary Names_throwAwayTemp s
         in andThen (walk E (withTarget cctx throwAway) ensure ensureBody s) (\<lambda>ensureBody s.
         let (ret, s) = freshBlock (loops cctx) (rubyBlockId cctx) s
         in andThen (conditionalJump E ensureBody gotoDeadTemp (deadBlock s) ret s l) (\<lambda>_ s.
         Returned ret s))))))))))))"

| "walkNode E cctx (ast_Hash l kvs) current s =
     andThen (walkHash E cctx kvs current s) (\<lambda>(vars, current) s.
     let locs = concat (map (\<lambda>(k, v). [expr_loc k, expr_loc v]) kvs);
         (magic, s) = newTemporary Names_magic s;
         s = synthesizeExpr current magic Loc_none (Alias Symbols_Magic) s;
         s = emplace_back current (target cctx) l
               (Send magic Names_buildHash l vars locs False None) s
     in Returned current s)"

| "walkNode E cctx (ast_Array l elems) current s =
     andThen (walkEach E cctx Names_arrayTemp elems current s) (\<lambda>(vars, current) s.
     let locs = map (\<lambda>elem. l) elems;
         (magic, s) = newTemporary Names_magic s;
         s = synthesizeExpr current magic Loc_none (Alias Symbols_Magic) s;
         s = emplace_back current (target cctx) l
               (Send magic Names_buildArray l vars locs False None) s
     in Returned current s)"

| "walkNode E cctx (ast_Cast l ty arg cast) current s =
     (let (tmp, s) = newTemporary Names_castTemp s
      in andThen (walk E (withTarget cctx tmp) arg current s) (\<lambda>current s.
         let s = emplace_back current (target cctx) l (Cast tmp ty cast) s;
             s = (if cast = Names_let
                  then s\<lparr>minLoops := (minLoops s)(target cctx \<mapsto> MIN_LOOP_LET E)\<rparr>
                  else s)
         in Returned current s))"

| "walkNode E cctx ast_EmptyTree current s = Returned current s"

| "walkNode E cctx (ast_ClassDef l) current s =
     Threw (SorbetException ''Should have been removed by FlattenWalk'') s"

| "walkNode E cctx (ast_MethodDef l) current s =
     Threw (SorbetException ''Should have been removed by FlattenWalk'') s"

| "walkNode E cctx (ast_Other l nodeName) current s =
     Threw (SorbetException (''Unimplemented AST Node: '' @ nodeName)) s"

| "walkEach E cctx tempName [] current s = Returned ([], current) s"

| "walkEach E cctx tempName (exp # exps) current s =
     (let (temp, s) = newTemporary tempName s
      in andThen (walk E (withTarget cctx temp) exp current s) (\<lambda>current s.
         andThen (walkEach E cctx tempName exps current s) (\<lambda>(temps, current) s.
         Returned (temp # temps, current) s)))"

| "walkHash E cctx [] current s = Returned ([], current) s"

| "walkHash E cctx ((key, val) # kvs) current s =
     (let (keyTmp, s) = newTemporary Names_hashTemp s;
          (valTmp, s) = newTemporary Names_hashTemp s
      in andThen (walk E (withTarget cctx keyTmp) key current s) (\<lambda>current s.
         andThen (walk E (withTarget cctx valTmp) val current s) (\<lambda>current s.
         andThen (walkHash E cctx kvs current s) (\<lambda>(vars, current) s.
         Returned (keyTmp # valTmp # vars, current) s))))"

| "walkRescueCases E cctx l [] rescueHandlersBlock ensureBody s =
     Returned ([], rescueHandlersBlock) s"

| "walkRescueCases E cctx l (RescueCaseNode caseLoc exceptions var body # rest)
       rescueHandlersBlock ensureBody s =
     (let (caseBody, s) = freshBlock (loops cctx) (rubyBlockId cctx) s
      in case cast_Local_localVariable var of
           None \<Rightarrow>
             andThen (ENFORCE E False ''rescue case var not a local?'' s) (\<lambda>_ s.
             Threw NullDereference s)
         | Some localVar \<Rightarrow>
             (let s = emplace_back rescueHandlersBlock localVar (expr_loc var) Unanalyzable s;
                  added = (exceptions = []);
                  exceptions = (if exceptions = []
                                then exceptions @ [MK_Constant (expr_loc var) Symbols_StandardError]
                                else exceptions)
              in andThen (walkExceptions E cctx localVar caseBody exceptions
                            rescueHandlersBlock s) (\<lambda>rescueHandlersBlock s.
                 let exceptions = (if added then butlast exceptions else exceptions)
                 in andThen (walk E cctx body caseBody s) (\<lambda>caseBody s.
                    andThen (unconditionalJump E caseBody ensureBody s l) (\<lambda>_ s.
                    andThen (walkRescueCases E cctx l rest rescueHandlersBlock ensureBody s)
                      (\<lambda>(rest, rescueHandlersBlock) s.
                    Returned (RescueCaseNode caseLoc exceptions var body # rest,
                              rescueHandlersBlock) s))))))"

| "walkExceptions E cctx localVar caseBody [] rescueHandlersBlock s =
     Returned rescueHandlersBlock s"

| "walkExceptions E cctx localVar caseBody (ex # exs) rescueHandlersBlock s =
     (let l = expr_loc ex;
          (exceptionClass, s) = newTemporary Names_exceptionClassTemp s
      in andThen (walk E (withTarget cctx exceptionClass) ex rescueHandlersBlock s)
           (\<lambda>rescueHandlersBlock s.
         let (isaCheck, s) = newTemporary Names_isaCheckTemp s;
             s = emplace_back rescueHandlersBlock isaCheck l
                   (Send localVar Names_is_a_p l [exceptionClass] [l] False None) s;
             (otherHandlerBlock, s) = freshBlock (loops cctx) (rubyBlockId cctx) s
         in andThen (conditionalJump E rescueHandlersBlock isaCheck caseBody otherHandlerBlock
                       s l) (\<lambda>_ s.
         walkExceptions E cctx localVar caseBody exs otherHandlerBlock s)))"
  by pat_completeness auto

termination
  by (relation "measure (\<lambda>x. case x of
         Inl (Inl (E, cctx, what, current, s)) \<Rightarrow> 4 * size what + 3
       | Inl (Inr (Inl (E, cctx, what, current, s))) \<Rightarrow> 4 * size what + 2
       | Inl (Inr (Inr (E, cctx, n, es, current, s))) \<Rightarrow> 4 * size_list size es
       | Inr (Inl (E, cctx, kvs, current, s)) \<Rightarrow> 4 * size_list (size_prod size size) kvs
       | Inr (Inr (Inl (E, cctx, l, cases, hb, eb, s))) \<Rightarrow> 4 * size_list size cases + 5
       | Inr (Inr (Inr (E, cctx, lv, cb, exs, hb, s))) \<Rightarrow> 4 * size_list size exs)")
     (auto simp: MK_Constant_def)

subsection \<open>Concrete inputs\<close>

text \<open>
  Values for the parameters, used where a statement is evaluated at a concrete input.
  The flag constant is one bit of the flags word.
\<close>

definition exampleExternals :: externals where
  "exampleExternals =
     \<lparr>debug_mode = True, WAS_JUMP_DESTINATION = 2, MIN_LOOP_LET = 2147483647,
      parseArgs = (\<lambda>c args. [])\<rparr>"

text \<open>
  Modelled from the spec: the state a lowering starts in (the constructor of \<^verbatim>\<open>CFG\<close>
  and the driver that seeds \<^verbatim>\<open>walk\<close> are not under src/). The CFG is constructed
  with the dead block; the entry is a fresh block at loop depth 0 and iterator-block id
  0; the maps are empty and the temporary counter is zero.
\<close>

definition emptyBlock :: "int \<Rightarrow> basic_block" where
  "emptyBlock i =
     \<lparr>bb_id = i, outerLoops = 0, bb_rubyBlockId = 0, exprs = [], backEdges = [],
      bexit = unsetExit, flags = 0\<rparr>"

definition initialState :: builder_state where
  "initialState =
     \<lparr>basicBlocks = [emptyBlock 0, emptyBlock 1], deadBlock = 1, maxRubyBlockId = 0,
      minLoops = Map.empty, aliases = Map.empty, discoveredUndeclaredFields = Map.empty,
      temporaryCounter = 0, errorQueue = []\<rparr>"

text \<open>
  A symbol table in which every symbol is a method and a class or module with no
  attached class and no members, and a context outside every loop, iterator block and
  rescue, whose target is a local of its own.
\<close>

definition exampleSymbol :: symbol_data where
  "exampleSymbol =
     \<lparr>sym_name = Names_noName, sym_owner = Symbols_noSymbol, isMethod = True,
      isClassOrModule = True, enclosingClass = Symbols_noSymbol,
      attachedClass = Symbols_noSymbol, findMemberTransitive = (\<lambda>n. Symbols_noSymbol)\<rparr>"

definition exampleContext :: CFGContext where
  "exampleContext =
     \<lparr>ctx = \<lparr>symbolData = (\<lambda>what. exampleSymbol), owner = Symbols_noSymbol\<rparr>,
      target = LocalVariable Names_returnTemp 0, loops = 0, isInsideRubyBlock = False,
      nextScope = None, breakScope = None, rescueScope = None, link = None,
      rubyBlockId = 0, blockBreakTarget = noVariable\<rparr>"

text \<open>
  The same externals with every \<^verbatim>\<open>ENFORCE\<close> compiled out, a context inside an
  iterator block, and the trees of a few method bodies: \<^verbatim>\<open>if c then 1 else return 2 end\<close>,
  \<^verbatim>\<open>while true; break 1; end\<close>, \<^verbatim>\<open>x.each { next 1 }\<close>, \<^verbatim>\<open>T.absurd(...)\<close>,
  \<^verbatim>\<open>next 1\<close>, a constant with a stubbed scope, and
  \<^verbatim>\<open>begin 1 rescue => e end\<close>.
\<close>

definition releaseExternals :: externals where
  "releaseExternals = exampleExternals\<lparr>debug_mode := False\<rparr>"

definition blockContext :: CFGContext where
  "blockContext =
     exampleContext\<lparr>isInsideRubyBlock := True, nextScope := Some 0,
        link := Some \<lparr>link_fun = Name ''each'', argFlags = [], link_rubyBlockId = 1\<rparr>\<rparr>"

definition ifExample :: expr where
  "ifExample =
     ast_If (Loc 0 30) (ast_Local (Loc 3 4) (LocalVariable (Name ''c'') 0))
       (ast_Literal (Loc 10 11) (LiteralType_int 1))
       (ast_Return (Loc 17 25) (ast_Literal (Loc 24 25) (LiteralType_int 2)))"

definition whileExample :: expr where
  "whileExample =
     ast_While (Loc 0 25) (ast_Literal (Loc 6 10) (LiteralType_bool True))
       (ast_Break (Loc 12 19) (ast_Literal (Loc 18 19) (LiteralType_int 1)))"

definition blockExample :: expr where
  "blockExample =
     ast_Send (Loc 0 20) (ast_Local (Loc 0 1) (LocalVariable (Name ''x'') 0)) (Name ''each'') []
       (Some (BlockNode (Loc 7 20) []
          (ast_Next (Loc 9 15) (ast_Literal (Loc 14 15) (LiteralType_int 1)))))
       False"

definition absurdExample :: "expr list \<Rightarrow> block option \<Rightarrow> expr" where
  "absurdExample args blk =
     ast_Send (Loc 0 20) (ast_ConstantLit (Loc 0 1) Symbols_T None) Names_absurd args blk False"

definition nextExample :: expr where
  "nextExample = ast_Next (Loc 9 15) (ast_Literal (Loc 14 15) (LiteralType_int 1))"


definition exampleRescueCase :: rescue_case where
  "exampleRescueCase =
     RescueCaseNode (Loc 10 30) [] (ast_Local (Loc 17 18) (LocalVariable (Name ''e'') 0))
       ast_EmptyTree"

definition rescueExample :: expr where
  "rescueExample =
     ast_Rescue (Loc 0 40) (ast_Literal (Loc 6 7) (LiteralType_int 1)) [exampleRescueCase]
       ast_EmptyTree ast_EmptyTree"

subsection \<open>Predicates on outcomes and on pairs of CFGs\<close>

text \<open>
  \<open>satisfies m Q\<close>: if \<open>m\<close> returns, its value and final state satisfy \<open>Q\<close>.
  \<open>returns m Q\<close>: \<open>m\<close> returns, and its value and final state satisfy \<open>Q\<close>.
\<close>

definition satisfies :: "'a outcome \<Rightarrow> ('a \<Rightarrow> builder_state \<Rightarrow> bool) \<Rightarrow> bool" where
  "satisfies m Q = (case m of Returned a s \<Rightarrow> Q a s | Threw e s \<Rightarrow> True | Diverged \<Rightarrow> True)"

definition returns :: "'a outcome \<Rightarrow> ('a \<Rightarrow> builder_state \<Rightarrow> bool) \<Rightarrow> bool" where
  "returns m Q = (case m of Returned a s \<Rightarrow> Q a s | Threw e s \<Rightarrow> False | Diverged \<Rightarrow> False)"

text \<open>
  \<open>frame n C s s'\<close> relates the CFG before and after a piece of the walk that may
  append instructions to the blocks of \<open>C\<close>, set their terminators, and allocate
  blocks from index \<open>n\<close> on: the dead block is the same, no block is lost, every
  block below \<open>n\<close> and outside \<open>C\<close> keeps its terminator and (the dead block
  apart, which collects instructions of dead code) its instructions, the dead block
  keeps its terminator, and every block's old instructions are a prefix of its new ones.
  \<open>okBlock n C d b\<close> says that \<open>b\<close> is a block such a piece may write to.
\<close>

definition okBlock :: "nat \<Rightarrow> nat set \<Rightarrow> nat \<Rightarrow> nat \<Rightarrow> bool" where
  "okBlock n C d b \<longleftrightarrow> b \<in> C \<or> b = d \<or> n \<le> b"

definition handlerOk :: "nat \<Rightarrow> nat \<Rightarrow> nat \<Rightarrow> bool" where
  "handlerOk hb m b \<longleftrightarrow> b = hb \<or> m \<le> b"

definition frame :: "nat \<Rightarrow> nat set \<Rightarrow> builder_state \<Rightarrow> builder_state \<Rightarrow> bool" where
  "frame n C s s' \<longleftrightarrow>
     deadBlock s' = deadBlock s \<and> length (basicBlocks s) \<le> length (basicBlocks s') \<and>
     (\<forall>x<n. (x \<notin> C \<or> x = deadBlock s
                \<longrightarrow> bexit (basicBlocks s' ! x) = bexit (basicBlocks s ! x)) \<and>
             (x \<notin> C \<and> x \<noteq> deadBlock s
                \<longrightarrow> exprs (basicBlocks s' ! x) = exprs (basicBlocks s ! x))) \<and>
     (\<forall>x<length (basicBlocks s).
        prefix (exprs (basicBlocks s ! x)) (exprs (basicBlocks s' ! x)))"

text \<open>
  \<open>walkOk n C s0 E e\<close>: every walk of \<open>e\<close> that starts inside such a frame, in a
  block it may write to, stays inside the frame and ends in a block it may write to.
\<close>

definition walkOk :: "nat \<Rightarrow> nat set \<Rightarrow> builder_state \<Rightarrow> externals \<Rightarrow> expr \<Rightarrow> bool" where
  "walkOk n C s0 E e \<longleftrightarrow>
     (deadBlock s0 < n \<longrightarrow>
      (\<forall>cctx cur S Q.
        frame n C s0 S \<longrightarrow> n \<le> length (basicBlocks S) \<longrightarrow>
        okBlock n C (deadBlock s0) cur \<longrightarrow> cur < length (basicBlocks S) \<longrightarrow>
        (\<forall>b s'. frame n C s0 s' \<longrightarrow> length (basicBlocks S) \<le> length (basicBlocks s') \<longrightarrow>
      deadBlock s' = deadBlock s0 \<longrightarrow> okBlock n C (deadBlock s0) b \<longrightarrow>
      b < length (basicBlocks s') \<longrightarrow> Q b s') \<longrightarrow>
        satisfies (walk E cctx e cur S) Q))"

fun blockOk :: "nat \<Rightarrow> nat set \<Rightarrow> builder_state \<Rightarrow> externals \<Rightarrow> block \<Rightarrow> bool" where
  "blockOk n C s0 E (BlockNode l args body) = walkOk n C s0 E body"

fun caseOk :: "nat \<Rightarrow> nat set \<Rightarrow> builder_state \<Rightarrow> externals \<Rightarrow> rescue_case \<Rightarrow> bool" where
  "caseOk n C s0 E (RescueCaseNode l exceptions var body) =
     ((\<forall>e\<in>set exceptions. walkOk n C s0 E e) \<and> walkOk n C s0 E body)"

section \<open>Properties\<close>

subsection \<open>The edge primitives\<close>

lemma map_list_update_same:
  "f y = f (xs ! i) \<Longrightarrow> map f (xs[i := y]) = map f xs"
  by (cases "i < length xs") (auto simp: list_eq_iff_nth_eq nth_list_update)

lemma markJumpDestination_fields:
  "map bexit (basicBlocks (markJumpDestination E b s)) = map bexit (basicBlocks s)"
  "map backEdges (basicBlocks (markJumpDestination E b s)) = map backEdges (basicBlocks s)"
  "map exprs (basicBlocks (markJumpDestination E b s)) = map exprs (basicBlocks s)"
  "(markJumpDestination E b s)\<lparr>basicBlocks := basicBlocks s\<rparr> = s"
  "deadBlock (markJumpDestination E b s) = deadBlock s"
  "map flags (basicBlocks (markJumpDestination E b s)) =
     (map flags (basicBlocks s))[b := flags (basicBlocks s ! b) OR WAS_JUMP_DESTINATION E]"
  by (simp_all add: markJumpDestination_def updateBlock_def map_list_update_same)
     (simp add: map_update)

lemma markJumpDestination_id:
  "flags (basicBlocks s ! b) OR WAS_JUMP_DESTINATION E = flags (basicBlocks s ! b)
   \<Longrightarrow> markJumpDestination E b s = s"
  by (simp add: markJumpDestination_def updateBlock_def)

lemma jumpToDead_flags:
  "(case jumpToDead E from s l of
      Returned u s' \<Rightarrow> map flags (basicBlocks s') = map flags (basicBlocks s)
    | Threw e s' \<Rightarrow> s' = s
    | Diverged \<Rightarrow> False)"
  by (simp add: jumpToDead_def enforceUnset_def ENFORCE_def andThen_def Let_def addBackEdge_def
        updateBlock_def map_list_update_same)

lemma markJumpDestination_block_fields:
  "map bb_id (basicBlocks (markJumpDestination E b s)) = map bb_id (basicBlocks s)"
  "map outerLoops (basicBlocks (markJumpDestination E b s)) = map outerLoops (basicBlocks s)"
  "map bb_rubyBlockId (basicBlocks (markJumpDestination E b s)) =
     map bb_rubyBlockId (basicBlocks s)"
  by (simp_all add: markJumpDestination_def updateBlock_def map_list_update_same)

lemma markJumpDestination_fixed:
  assumes "markJumpDestination E b s = s" "b < length (basicBlocks s)"
  shows "flags (basicBlocks s ! b) OR WAS_JUMP_DESTINATION E = flags (basicBlocks s ! b)"
proof -
  have "map flags (basicBlocks s) ! b =
          (map flags (basicBlocks s))[b := flags (basicBlocks s ! b) OR WAS_JUMP_DESTINATION E] ! b"
    using markJumpDestination_fields(6) [where E = E and b = b and s = s] assms(1) by simp
  then show ?thesis using assms(2) by simp
qed

lemma updateBlock_twice:
  "updateBlock b f (updateBlock b g s) = updateBlock b (\<lambda>x. f (g x)) s"
  by (cases "b < length (basicBlocks s)") (simp_all add: updateBlock_def list_update_beyond)

lemma updateBlock_swap:
  "a \<noteq> b \<Longrightarrow> updateBlock a f (updateBlock b g s) = updateBlock b g (updateBlock a f s)"
  by (simp add: updateBlock_def list_update_swap)

lemma updateBlock_nth_other:
  "a \<noteq> b \<Longrightarrow> basicBlocks (updateBlock b g s) ! a = basicBlocks s ! a"
  by (simp add: updateBlock_def)

lemma updateBlock_deadBlock: "deadBlock (updateBlock b g s) = deadBlock s"
  by (simp add: updateBlock_def)

lemma flags_backEdges_commute:
  "(x::basic_block)\<lparr>flags := a, backEdges := b\<rparr> = x\<lparr>backEdges := b, flags := a\<rparr>"
  by (cases x) simp

lemma jumpToDead_then_mark:
  "unconditionalJump E from (deadBlock s) s l =
     (case jumpToDead E from s l of
        Returned u s' \<Rightarrow> Returned u (markJumpDestination E (deadBlock s) s')
      | Threw e s' \<Rightarrow> Threw e (markJumpDestination E (deadBlock s) s')
      | Diverged \<Rightarrow> Diverged)"
  apply (simp add: unconditionalJump_def jumpToDead_def Let_def enforceUnset_def ENFORCE_def
        andThen_def markJumpDestination_def addBackEdge_def updateBlock_twice
        updateBlock_nth_other updateBlock_deadBlock updateBlock_swap [of "from" "deadBlock s"])
  apply (auto simp: updateBlock_def flags_backEdges_commute)
  done

lemma map_field_updateBlock:
  "map f (basicBlocks (updateBlock b g s)) = (map f (basicBlocks s))[b := f (g (basicBlocks s ! b))]"
  by (simp add: updateBlock_def map_update)

lemma updateBlock_rest: "(updateBlock b g s)\<lparr>basicBlocks := basicBlocks s\<rparr> = s"
  by (simp add: updateBlock_def)

lemma list_update_same: "ys ! i = v \<Longrightarrow> ys[i := v] = ys"
  by auto

lemma jumpToDead_effect:
  assumes "from \<noteq> deadBlock s" "from < length (basicBlocks s)"
    "deadBlock s < length (basicBlocks s)"
    "debug_mode E \<longrightarrow> \<not> isCondSet (bexit (basicBlocks s ! from)) \<and>
       thenb (bexit (basicBlocks s ! from)) = None \<and> elseb (bexit (basicBlocks s ! from)) = None"
  shows "\<exists>s'. jumpToDead E from s l = Returned () s' \<and>
     map bexit (basicBlocks s') =
       (map bexit (basicBlocks s))[from := \<lparr>cond = Some noVariable, thenb = Some (deadBlock s),
                                             elseb = Some (deadBlock s), exit_loc = l\<rparr>] \<and>
     map backEdges (basicBlocks s') =
       (map backEdges (basicBlocks s))[deadBlock s := backEdges (basicBlocks s ! deadBlock s) @ [from]] \<and>
     map flags (basicBlocks s') = map flags (basicBlocks s) \<and>
     map exprs (basicBlocks s') = map exprs (basicBlocks s) \<and>
     map bb_id (basicBlocks s') = map bb_id (basicBlocks s) \<and>
     map outerLoops (basicBlocks s') = map outerLoops (basicBlocks s) \<and>
     map bb_rubyBlockId (basicBlocks s') = map bb_rubyBlockId (basicBlocks s) \<and>
     s'\<lparr>basicBlocks := basicBlocks s\<rparr> = s"
proof -
  let ?T = "\<lparr>cond = Some noVariable, thenb = Some (deadBlock s),
             elseb = Some (deadBlock s), exit_loc = l\<rparr>"
  let ?s1 = "updateBlock from (\<lambda>b. b\<lparr>bexit := ?T\<rparr>) s"
  let ?s2 = "updateBlock (deadBlock s) (\<lambda>x. x\<lparr>backEdges := backEdges x @ [from]\<rparr>) ?s1"
  have r: "jumpToDead E from s l = Returned () ?s2"
    using assms
    by (simp add: jumpToDead_def Let_def enforceUnset_def ENFORCE_def andThen_def addBackEdge_def)
  have d: "basicBlocks ?s1 ! deadBlock s = basicBlocks s ! deadBlock s"
    using assms(1) by (simp add: updateBlock_nth_other)
  have rest: "?s2\<lparr>basicBlocks := basicBlocks s\<rparr> = s"
    by (simp add: updateBlock_def)
  show ?thesis
    apply (rule exI [of _ ?s2])
    using assms(1-3)
    apply (simp add: r map_field_updateBlock d rest list_update_same nth_list_update)
    done
qed

lemma unconditionalJump_marked:
  "unconditionalJump E from (deadBlock s) s l =
     jumpToDead E from (markJumpDestination E (deadBlock s) s) l"
  by (simp add: unconditionalJump_def jumpToDead_def Let_def markJumpDestination_fields)

lemma jumps_agree_iff:
  assumes d: "deadBlock s < length (basicBlocks s)"
  shows "(jumpToDead E from s l = unconditionalJump E from (deadBlock s) s l) =
         (flags (basicBlocks s ! deadBlock s) OR WAS_JUMP_DESTINATION E =
            flags (basicBlocks s ! deadBlock s))"
proof
  assume "flags (basicBlocks s ! deadBlock s) OR WAS_JUMP_DESTINATION E =
            flags (basicBlocks s ! deadBlock s)"
  then show "jumpToDead E from s l = unconditionalJump E from (deadBlock s) s l"
    by (simp add: unconditionalJump_marked markJumpDestination_id)
next
  assume eq: "jumpToDead E from s l = unconditionalJump E from (deadBlock s) s l"
  show "flags (basicBlocks s ! deadBlock s) OR WAS_JUMP_DESTINATION E =
            flags (basicBlocks s ! deadBlock s)"
  proof (cases "jumpToDead E from s l")
    case (Returned u s')
    have fl: "map flags (basicBlocks s') = map flags (basicBlocks s)"
      using jumpToDead_flags [where E = E and s = s and l = l and ?from = "from"] Returned
      by simp
    then have len: "length (basicBlocks s') = length (basicBlocks s)"
      by (rule map_eq_imp_length_eq)
    have "markJumpDestination E (deadBlock s) s' = s'"
      using eq Returned by (simp add: jumpToDead_then_mark)
    then have "flags (basicBlocks s' ! deadBlock s) OR WAS_JUMP_DESTINATION E =
                 flags (basicBlocks s' ! deadBlock s)"
      using d len by (intro markJumpDestination_fixed) simp_all
    moreover have "flags (basicBlocks s' ! deadBlock s) = flags (basicBlocks s ! deadBlock s)"
      using fl d len by (metis nth_map)
    ultimately show ?thesis by simp
  next
    case (Threw e s')
    have "s' = s"
      using jumpToDead_flags [where E = E and s = s and l = l and ?from = "from"] Threw
      by simp
    then have "markJumpDestination E (deadBlock s) s = s"
      using eq Threw by (simp add: jumpToDead_then_mark)
    then show ?thesis using d by (rule markJumpDestination_fixed)
  next
    case Diverged
    then show ?thesis
      using jumpToDead_flags [where E = E and s = s and l = l and ?from = "from"] by simp
  qed
qed

text \<open>
  C2, as the code has it. \<^verbatim>\<open>jumpToDead(from, loc)\<close> is
  \<^verbatim>\<open>unconditionalJump(from, deadBlock, loc)\<close> without the first line of the latter:
  \<^item> the unconditional jump to the dead block is \<^verbatim>\<open>jumpToDead\<close> followed by the
    marking of the dead block as a jump destination, whether the checks pass or one of
    them throws (so the two make the same checks and throw the same exception);
  \<^item> from a live block of the CFG whose terminator is unset (or with the checks
    compiled out), in a CFG that holds its dead block, both return; both write the
    terminator with \<open>noVariable\<close> and both successors the dead block into the source
    block and into no other; both append the source, once, to the back-edges of the
    dead block and of no other; \<^verbatim>\<open>jumpToDead\<close> leaves every flags word as it was,
    \<^verbatim>\<open>unconditionalJump\<close> sets the mark in the dead block's; neither changes
    anything else in a block or outside the blocks;
  \<^item> on every input \<^verbatim>\<open>jumpToDead\<close> changes no block's flags;
  \<^item> in a CFG that holds its dead block, the two give the same outcome exactly when the
    dead block already carries the mark.
\<close>

theorem jumpToDead_is_unconditionalJump_without_mark:
  "unconditionalJump E from (deadBlock s) s l =
     (case jumpToDead E from s l of
        Returned u s' \<Rightarrow> Returned u (markJumpDestination E (deadBlock s) s')
      | Threw e s' \<Rightarrow> Threw e (markJumpDestination E (deadBlock s) s')
      | Diverged \<Rightarrow> Diverged)
   \<and> (from \<noteq> deadBlock s \<and> from < length (basicBlocks s) \<and>
       deadBlock s < length (basicBlocks s) \<and>
       (debug_mode E \<longrightarrow> \<not> isCondSet (bexit (basicBlocks s ! from)) \<and>
          thenb (bexit (basicBlocks s ! from)) = None \<and>
          elseb (bexit (basicBlocks s ! from)) = None)
       \<longrightarrow> (\<exists>s1 s2.
             jumpToDead E from s l = Returned () s1 \<and>
             unconditionalJump E from (deadBlock s) s l = Returned () s2 \<and>
             map bexit (basicBlocks s1) =
               (map bexit (basicBlocks s))
                 [from := \<lparr>cond = Some noVariable, thenb = Some (deadBlock s),
                            elseb = Some (deadBlock s), exit_loc = l\<rparr>] \<and>
             map bexit (basicBlocks s2) = map bexit (basicBlocks s1) \<and>
             map backEdges (basicBlocks s1) =
               (map backEdges (basicBlocks s))
                 [deadBlock s := backEdges (basicBlocks s ! deadBlock s) @ [from]] \<and>
             map backEdges (basicBlocks s2) = map backEdges (basicBlocks s1) \<and>
             map flags (basicBlocks s1) = map flags (basicBlocks s) \<and>
             map flags (basicBlocks s2) =
               (map flags (basicBlocks s))
                 [deadBlock s := flags (basicBlocks s ! deadBlock s) OR WAS_JUMP_DESTINATION E] \<and>
             map exprs (basicBlocks s1) = map exprs (basicBlocks s) \<and>
             map exprs (basicBlocks s2) = map exprs (basicBlocks s) \<and>
             map bb_id (basicBlocks s1) = map bb_id (basicBlocks s) \<and>
             map bb_id (basicBlocks s2) = map bb_id (basicBlocks s) \<and>
             map outerLoops (basicBlocks s1) = map outerLoops (basicBlocks s) \<and>
             map outerLoops (basicBlocks s2) = map outerLoops (basicBlocks s) \<and>
             map bb_rubyBlockId (basicBlocks s1) = map bb_rubyBlockId (basicBlocks s) \<and>
             map bb_rubyBlockId (basicBlocks s2) = map bb_rubyBlockId (basicBlocks s) \<and>
             s1\<lparr>basicBlocks := basicBlocks s\<rparr> = s \<and>
             s2\<lparr>basicBlocks := basicBlocks s\<rparr> = s))
   \<and> (case jumpToDead E from s l of
         Returned u s' \<Rightarrow> map flags (basicBlocks s') = map flags (basicBlocks s)
       | Threw e s' \<Rightarrow> s' = s
       | Diverged \<Rightarrow> False)
   \<and> (deadBlock s < length (basicBlocks s) \<longrightarrow>
        (jumpToDead E from s l = unconditionalJump E from (deadBlock s) s l) =
        (flags (basicBlocks s ! deadBlock s) OR WAS_JUMP_DESTINATION E =
           flags (basicBlocks s ! deadBlock s)))"
proof (intro conjI impI)
  show "unconditionalJump E from (deadBlock s) s l =
     (case jumpToDead E from s l of
        Returned u s' \<Rightarrow> Returned u (markJumpDestination E (deadBlock s) s')
      | Threw e s' \<Rightarrow> Threw e (markJumpDestination E (deadBlock s) s')
      | Diverged \<Rightarrow> Diverged)"
    by (rule jumpToDead_then_mark)
next
  assume h: "from \<noteq> deadBlock s \<and> from < length (basicBlocks s) \<and>
       deadBlock s < length (basicBlocks s) \<and>
       (debug_mode E \<longrightarrow> \<not> isCondSet (bexit (basicBlocks s ! from)) \<and>
          thenb (bexit (basicBlocks s ! from)) = None \<and>
          elseb (bexit (basicBlocks s ! from)) = None)"
  from jumpToDead_effect [where E = E and l = l and s = s and ?from = "from"] h obtain s1 where
    j: "jumpToDead E from s l = Returned () s1"
    and e: "map bexit (basicBlocks s1) =
       (map bexit (basicBlocks s))[from := \<lparr>cond = Some noVariable, thenb = Some (deadBlock s),
                                             elseb = Some (deadBlock s), exit_loc = l\<rparr>]"
     "map backEdges (basicBlocks s1) =
       (map backEdges (basicBlocks s))[deadBlock s := backEdges (basicBlocks s ! deadBlock s) @ [from]]"
     "map flags (basicBlocks s1) = map flags (basicBlocks s)"
     "map exprs (basicBlocks s1) = map exprs (basicBlocks s)"
     "map bb_id (basicBlocks s1) = map bb_id (basicBlocks s)"
     "map outerLoops (basicBlocks s1) = map outerLoops (basicBlocks s)"
     "map bb_rubyBlockId (basicBlocks s1) = map bb_rubyBlockId (basicBlocks s)"
     "s1\<lparr>basicBlocks := basicBlocks s\<rparr> = s"
    by blast
  let ?s2 = "markJumpDestination E (deadBlock s) s1"
  have u: "unconditionalJump E from (deadBlock s) s l = Returned () ?s2"
    by (simp add: jumpToDead_then_mark j)
  have len: "length (basicBlocks s1) = length (basicBlocks s)"
    using e(3) by (rule map_eq_imp_length_eq)
  have fd: "flags (basicBlocks s1 ! deadBlock s) = flags (basicBlocks s ! deadBlock s)"
    using e(3) h len by (metis nth_map)
  have r2: "?s2\<lparr>basicBlocks := basicBlocks s\<rparr> = s"
    using e(8) by (simp add: markJumpDestination_def updateBlock_def)
  show "\<exists>s1 s2.
             jumpToDead E from s l = Returned () s1 \<and>
             unconditionalJump E from (deadBlock s) s l = Returned () s2 \<and>
             map bexit (basicBlocks s1) =
               (map bexit (basicBlocks s))
                 [from := \<lparr>cond = Some noVariable, thenb = Some (deadBlock s),
                            elseb = Some (deadBlock s), exit_loc = l\<rparr>] \<and>
             map bexit (basicBlocks s2) = map bexit (basicBlocks s1) \<and>
             map backEdges (basicBlocks s1) =
               (map backEdges (basicBlocks s))
                 [deadBlock s := backEdges (basicBlocks s ! deadBlock s) @ [from]] \<and>
             map backEdges (basicBlocks s2) = map backEdges (basicBlocks s1) \<and>
             map flags (basicBlocks s1) = map flags (basicBlocks s) \<and>
             map flags (basicBlocks s2) =
               (map flags (basicBlocks s))
                 [deadBlock s := flags (basicBlocks s ! deadBlock s) OR WAS_JUMP_DESTINATION E] \<and>
             map exprs (basicBlocks s1) = map exprs (basicBlocks s) \<and>
             map exprs (basicBlocks s2) = map exprs (basicBlocks s) \<and>
             map bb_id (basicBlocks s1) = map bb_id (basicBlocks s) \<and>
             map bb_id (basicBlocks s2) = map bb_id (basicBlocks s) \<and>
             map outerLoops (basicBlocks s1) = map outerLoops (basicBlocks s) \<and>
             map outerLoops (basicBlocks s2) = map outerLoops (basicBlocks s) \<and>
             map bb_rubyBlockId (basicBlocks s1) = map bb_rubyBlockId (basicBlocks s) \<and>
             map bb_rubyBlockId (basicBlocks s2) = map bb_rubyBlockId (basicBlocks s) \<and>
             s1\<lparr>basicBlocks := basicBlocks s\<rparr> = s \<and>
             s2\<lparr>basicBlocks := basicBlocks s\<rparr> = s"
    apply (rule exI [of _ s1], rule exI [of _ ?s2])
    using j u e r2
    by (simp add: markJumpDestination_fields markJumpDestination_block_fields fd)
next
  show "case jumpToDead E from s l of
         Returned u s' \<Rightarrow> map flags (basicBlocks s') = map flags (basicBlocks s)
       | Threw e s' \<Rightarrow> s' = s
       | Diverged \<Rightarrow> False"
    by (rule jumpToDead_flags)
next
  assume "deadBlock s < length (basicBlocks s)"
  then show "(jumpToDead E from s l = unconditionalJump E from (deadBlock s) s l) =
        (flags (basicBlocks s ! deadBlock s) OR WAS_JUMP_DESTINATION E =
           flags (basicBlocks s ! deadBlock s))"
    by (rule jumps_agree_iff)
qed

text \<open>
  The theorem on the initial CFG, from the entry block: the terminator, the back-edge
  and the flags the two jumps leave; and on the initial CFG with the dead block marked,
  where the two jumps give the same CFG.
\<close>

theorem jumpToDead_is_unconditionalJump_witness:
  "(\<exists>s1 s2.
      jumpToDead exampleExternals 0 initialState Loc_none = Returned () s1 \<and>
      unconditionalJump exampleExternals 0 (deadBlock initialState) initialState Loc_none =
        Returned () s2 \<and>
      map bexit (basicBlocks s1) =
        [\<lparr>cond = Some noVariable, thenb = Some 1, elseb = Some 1, exit_loc = Loc_none\<rparr>,
         unsetExit] \<and>
      map bexit (basicBlocks s2) = map bexit (basicBlocks s1) \<and>
      map backEdges (basicBlocks s1) = [[], [0]] \<and>
      map backEdges (basicBlocks s2) = [[], [0]] \<and>
      map flags (basicBlocks s1) = [0, 0] \<and>
      map flags (basicBlocks s2) = [0, 2])
   \<and> jumpToDead exampleExternals 0 (markJumpDestination exampleExternals 1 initialState) Loc_none
     = unconditionalJump exampleExternals 0
         (deadBlock (markJumpDestination exampleExternals 1 initialState))
         (markJumpDestination exampleExternals 1 initialState) Loc_none"
proof
  have pre: "0 \<noteq> deadBlock initialState \<and> 0 < length (basicBlocks initialState) \<and>
       deadBlock initialState < length (basicBlocks initialState) \<and>
       (debug_mode exampleExternals \<longrightarrow>
          \<not> isCondSet (bexit (basicBlocks initialState ! 0)) \<and>
          thenb (bexit (basicBlocks initialState ! 0)) = None \<and>
          elseb (bexit (basicBlocks initialState ! 0)) = None)"
    by (simp add: initialState_def emptyBlock_def isCondSet_def unsetExit_def)
  from jumpToDead_is_unconditionalJump_without_mark
         [where E = exampleExternals and s = initialState and l = Loc_none and ?from = 0,
          THEN conjunct2, THEN conjunct1, rule_format, OF pre]
  obtain s1 s2 where
    "jumpToDead exampleExternals 0 initialState Loc_none = Returned () s1"
    "unconditionalJump exampleExternals 0 (deadBlock initialState) initialState Loc_none =
        Returned () s2"
    "map bexit (basicBlocks s1) =
       (map bexit (basicBlocks initialState))
         [0 := \<lparr>cond = Some noVariable, thenb = Some (deadBlock initialState),
                 elseb = Some (deadBlock initialState), exit_loc = Loc_none\<rparr>]"
    "map bexit (basicBlocks s2) = map bexit (basicBlocks s1)"
    "map backEdges (basicBlocks s1) =
       (map backEdges (basicBlocks initialState))
         [deadBlock initialState :=
            backEdges (basicBlocks initialState ! deadBlock initialState) @ [0]]"
    "map backEdges (basicBlocks s2) = map backEdges (basicBlocks s1)"
    "map flags (basicBlocks s1) = map flags (basicBlocks initialState)"
    "map flags (basicBlocks s2) =
       (map flags (basicBlocks initialState))
         [deadBlock initialState :=
            flags (basicBlocks initialState ! deadBlock initialState) OR
            WAS_JUMP_DESTINATION exampleExternals]"
    by blast
  then show "\<exists>s1 s2.
      jumpToDead exampleExternals 0 initialState Loc_none = Returned () s1 \<and>
      unconditionalJump exampleExternals 0 (deadBlock initialState) initialState Loc_none =
        Returned () s2 \<and>
      map bexit (basicBlocks s1) =
        [\<lparr>cond = Some noVariable, thenb = Some 1, elseb = Some 1, exit_loc = Loc_none\<rparr>,
         unsetExit] \<and>
      map bexit (basicBlocks s2) = map bexit (basicBlocks s1) \<and>
      map backEdges (basicBlocks s1) = [[], [0]] \<and>
      map backEdges (basicBlocks s2) = [[], [0]] \<and>
      map flags (basicBlocks s1) = [0, 0] \<and>
      map flags (basicBlocks s2) = [0, 2]"
    by (intro exI [of _ s1] exI [of _ s2])
       (simp add: initialState_def emptyBlock_def exampleExternals_def)
next
  let ?m = "markJumpDestination exampleExternals 1 initialState"
  have d: "deadBlock ?m < length (basicBlocks ?m)"
    by (simp add: markJumpDestination_def updateBlock_def initialState_def)
  have h: "flags (basicBlocks ?m ! deadBlock ?m) OR WAS_JUMP_DESTINATION exampleExternals
             = flags (basicBlocks ?m ! deadBlock ?m)"
    by (simp add: markJumpDestination_def updateBlock_def initialState_def emptyBlock_def
          exampleExternals_def)
  from jumpToDead_is_unconditionalJump_without_mark
         [where E = exampleExternals and s = ?m and l = Loc_none and ?from = 0,
          THEN conjunct2, THEN conjunct2, THEN conjunct2, rule_format, OF d] h
  show "jumpToDead exampleExternals 0 ?m Loc_none
     = unconditionalJump exampleExternals 0 (deadBlock ?m) ?m Loc_none"
    by simp
qed

text \<open>
  C2 as stated fails: on the initial CFG, whose dead block is not marked, the jump from
  the entry block to the dead block leaves the dead block's flags alone when it is made
  by \<^verbatim>\<open>jumpToDead\<close>, and sets the mark when it is made by \<^verbatim>\<open>unconditionalJump\<close>.
\<close>

theorem jumpToDead_differs_from_unconditionalJump:
  "jumpToDead exampleExternals 0 initialState Loc_none
     \<noteq> unconditionalJump exampleExternals 0 (deadBlock initialState) initialState Loc_none"
  by (simp add: unconditionalJump_def jumpToDead_def markJumpDestination_def updateBlock_def
        initialState_def emptyBlock_def exampleExternals_def Let_def enforceUnset_def ENFORCE_def
        andThen_def addBackEdge_def isCondSet_def unsetExit_def)

text \<open>
  C3, as the code has it. With the dead block as the source, \<^verbatim>\<open>jumpToDead\<close> changes
  nothing; \<^verbatim>\<open>unconditionalJump\<close> and \<^verbatim>\<open>conditionalJump\<close> return the CFG in which
  their targets are marked as jump destinations, the line that stands before the test
  of the source. Marking a block sets the mark in that block's flags and changes
  nothing else: no terminator, no back-edge list, no instruction list, no id, no loop
  depth, no iterator-block id, and nothing outside the blocks.
\<close>

theorem jump_from_dead_block:
  "jumpToDead E (deadBlock s) s l = Returned () s
   \<and> unconditionalJump E (deadBlock s) to s l = Returned () (markJumpDestination E to s)
   \<and> conditionalJump E (deadBlock s) cnd thn els s l =
        Returned () (markJumpDestination E els (markJumpDestination E thn s))
   \<and> map bexit (basicBlocks (markJumpDestination E b s)) = map bexit (basicBlocks s)
   \<and> map backEdges (basicBlocks (markJumpDestination E b s)) = map backEdges (basicBlocks s)
   \<and> map exprs (basicBlocks (markJumpDestination E b s)) = map exprs (basicBlocks s)
   \<and> map bb_id (basicBlocks (markJumpDestination E b s)) = map bb_id (basicBlocks s)
   \<and> map outerLoops (basicBlocks (markJumpDestination E b s)) = map outerLoops (basicBlocks s)
   \<and> map bb_rubyBlockId (basicBlocks (markJumpDestination E b s)) =
        map bb_rubyBlockId (basicBlocks s)
   \<and> map flags (basicBlocks (markJumpDestination E b s)) =
        (map flags (basicBlocks s))[b := flags (basicBlocks s ! b) OR WAS_JUMP_DESTINATION E]
   \<and> (markJumpDestination E b s)\<lparr>basicBlocks := basicBlocks s\<rparr> = s"
  by (simp add: markJumpDestination_fields markJumpDestination_block_fields jumpToDead_def
        unconditionalJump_def conditionalJump_def Let_def)

text \<open>
  C3 as stated fails: on the initial CFG an unconditional jump from the dead block to
  the entry block changes the entry block's flags.
\<close>

theorem unconditionalJump_from_dead_marks_target:
  "unconditionalJump exampleExternals (deadBlock initialState) 0 initialState Loc_none =
     Returned () (markJumpDestination exampleExternals 0 initialState)
   \<and> flags (basicBlocks (markJumpDestination exampleExternals 0 initialState) ! 0)
       \<noteq> flags (basicBlocks initialState ! 0)"
  by (simp add: unconditionalJump_def markJumpDestination_def updateBlock_def initialState_def
        emptyBlock_def exampleExternals_def Let_def)

subsection \<open>The frame of a walk\<close>

text \<open>
  Every primitive keeps the frame, and so does \<open>walk\<close> on every tree, by induction
  on the tree.
\<close>

declare walk.simps [simp del]

lemma satisfies_simps [simp]:
  "satisfies (Returned a s) Q = Q a s"
  "satisfies (Threw e s) Q = True"
  "satisfies Diverged Q = True"
  "satisfies (catchSorbetException l m) Q = satisfies m Q"
  by (auto simp: satisfies_def catchSorbetException_def split: outcome.splits failure.splits)

lemma satisfies_andThen [simp]:
  "satisfies (andThen m f) Q = satisfies m (\<lambda>a s. satisfies (f a s) Q)"
  by (auto simp: satisfies_def andThen_def split: outcome.splits)

lemma satisfies_ENFORCE [simp]:
  "satisfies (ENFORCE E x msg s) Q = (debug_mode E \<and> \<not> x \<or> Q () s)"
  by (auto simp: satisfies_def ENFORCE_def)

lemma okBlock_simps [simp]:
  "b \<in> C \<Longrightarrow> okBlock n C d b" "okBlock n C d d" "n \<le> b \<Longrightarrow> okBlock n C d b"
  by (simp_all add: okBlock_def)

lemma frame_refl [simp]: "frame n C s s"
  by (simp add: frame_def)

lemma frame_step:
  assumes f: "frame n C s0 s" and ok: "okBlock n C (deadBlock s0) b"
    and d: "deadBlock s' = deadBlock s" and l: "length (basicBlocks s) \<le> length (basicBlocks s')"
    and ex: "\<And>x. x < length (basicBlocks s) \<Longrightarrow> x \<noteq> b \<Longrightarrow>
               exprs (basicBlocks s' ! x) = exprs (basicBlocks s ! x)"
    and bx: "\<And>x. x < length (basicBlocks s) \<Longrightarrow> x \<noteq> b \<or> x = deadBlock s \<Longrightarrow>
               bexit (basicBlocks s' ! x) = bexit (basicBlocks s ! x)"
    and pf: "b < length (basicBlocks s) \<Longrightarrow>
               prefix (exprs (basicBlocks s ! b)) (exprs (basicBlocks s' ! b))"
    and n: "n \<le> length (basicBlocks s)"
  shows "frame n C s0 s'"
proof -
  have dd: "deadBlock s = deadBlock s0" and ll: "length (basicBlocks s0) \<le> length (basicBlocks s)"
    using f by (simp_all add: frame_def)
  have p: "prefix (exprs (basicBlocks s0 ! x)) (exprs (basicBlocks s' ! x))"
    if "x < length (basicBlocks s0)" for x
  proof -
    have 1: "prefix (exprs (basicBlocks s0 ! x)) (exprs (basicBlocks s ! x))"
      using f that by (simp add: frame_def)
    have 2: "prefix (exprs (basicBlocks s ! x)) (exprs (basicBlocks s' ! x))"
      using ex [of x] pf that ll by (cases "x = b") auto
    show ?thesis using 1 2 by (rule prefix_order.trans)
  qed
  have q: "(x \<notin> C \<or> x = deadBlock s0
                \<longrightarrow> bexit (basicBlocks s' ! x) = bexit (basicBlocks s0 ! x)) \<and>
             (x \<notin> C \<and> x \<noteq> deadBlock s0
                \<longrightarrow> exprs (basicBlocks s' ! x) = exprs (basicBlocks s0 ! x))"
    if "x < n" for x
  proof -
    have xl: "x < length (basicBlocks s)" using that n by simp
    have 1: "(x \<notin> C \<or> x = deadBlock s0
                \<longrightarrow> bexit (basicBlocks s ! x) = bexit (basicBlocks s0 ! x)) \<and>
             (x \<notin> C \<and> x \<noteq> deadBlock s0
                \<longrightarrow> exprs (basicBlocks s ! x) = exprs (basicBlocks s0 ! x))"
      using f that by (simp add: frame_def)
    have xb: "x \<notin> C \<and> x \<noteq> deadBlock s0 \<longrightarrow> x \<noteq> b"
      using ok that by (auto simp: okBlock_def)
    have xb': "x \<notin> C \<or> x = deadBlock s0 \<longrightarrow> x \<noteq> b \<or> x = deadBlock s0"
      using ok that by (auto simp: okBlock_def)
    show ?thesis using 1 xb xb' ex [of x] bx [of x] xl dd by auto
  qed
  show ?thesis
    unfolding frame_def using d l dd ll p q by auto
qed

lemma updateBlock_simps [simp]:
  "length (basicBlocks (updateBlock b f s)) = length (basicBlocks s)"
  "deadBlock (updateBlock b f s) = deadBlock s"
  "x \<noteq> b \<Longrightarrow> basicBlocks (updateBlock b f s) ! x = basicBlocks s ! x"
  "b < length (basicBlocks s) \<Longrightarrow> basicBlocks (updateBlock b f s) ! b = f (basicBlocks s ! b)"
  by (simp_all add: updateBlock_def)

lemma updateBlock_proj_same:
  "g (f (basicBlocks s ! b)) = g (basicBlocks s ! b)
   \<Longrightarrow> g (basicBlocks (updateBlock b f s) ! x) = g (basicBlocks s ! x)"
  by (cases "x = b"; cases "b < length (basicBlocks s)")
     (simp_all add: updateBlock_def list_update_beyond)

lemma prim_simps [simp]:
  "fst (freshBlock a r s) = length (basicBlocks s)"
  "length (basicBlocks (snd (freshBlock a r s))) = Suc (length (basicBlocks s))"
  "deadBlock (snd (freshBlock a r s)) = deadBlock s"
  "fst (newTemporary t s) = LocalVariable t (temporaryCounter s + 1)"
  "basicBlocks (snd (newTemporary t s)) = basicBlocks s"
  "deadBlock (snd (newTemporary t s)) = deadBlock s"
  "length (basicBlocks (emplace_back b v l i s)) = length (basicBlocks s)"
  "deadBlock (emplace_back b v l i s) = deadBlock s"
  "length (basicBlocks (synthesizeExpr b v l i s)) = length (basicBlocks s)"
  "deadBlock (synthesizeExpr b v l i s) = deadBlock s"
  "basicBlocks (beginError l code s) = basicBlocks s"
  "deadBlock (beginError l code s) = deadBlock s"
  "length (basicBlocks (markJumpDestination E b s)) = length (basicBlocks s)"
  "deadBlock (markJumpDestination E b s) = deadBlock s"
  "length (basicBlocks (addBackEdge b from s)) = length (basicBlocks s)"
  "deadBlock (addBackEdge b from s) = deadBlock s"
  "basicBlocks (snd (global2Local cctx what s)) = basicBlocks s"
  "deadBlock (snd (global2Local cctx what s)) = deadBlock s"
  by (simp_all add: freshBlock_def newTemporary_def emplace_back_def synthesizeExpr_def
        beginError_def markJumpDestination_def addBackEdge_def global2Local_def Let_def
        split: option.splits prod.splits)

lemma bindBlockArgs_simps [simp]:
  "length (basicBlocks (bindBlockArgs i args b t x l s)) = length (basicBlocks s)"
  "deadBlock (bindBlockArgs i args b t x l s) = deadBlock s"
  by (induction i args b t x l s rule: bindBlockArgs.induct) (simp_all add: Let_def)

lemma frame_pure [simp]:
  "frame n C s0 (snd (newTemporary t s)) = frame n C s0 s"
  "frame n C s0 (beginError l code s) = frame n C s0 s"
  "frame n C s0 (snd (global2Local cctx what s)) = frame n C s0 s"
  "frame n C s0 (s\<lparr>maxRubyBlockId := i\<rparr>) = frame n C s0 s"
  "frame n C s0 (s\<lparr>minLoops := m\<rparr>) = frame n C s0 s"
  "frame n C s0 (s\<lparr>discoveredUndeclaredFields := u\<rparr>) = frame n C s0 s"
  by (simp_all add: frame_def)

lemma frame_freshBlock [simp]:
  "frame n C s0 s \<Longrightarrow> n \<le> length (basicBlocks s) \<Longrightarrow> frame n C s0 (snd (freshBlock a r s))"
  by (rule frame_step [where b = "length (basicBlocks s)" and s = s])
     (simp_all add: freshBlock_def nth_append)

lemma frame_emplace_back [simp]:
  "frame n C s0 s \<Longrightarrow> n \<le> length (basicBlocks s) \<Longrightarrow> okBlock n C (deadBlock s0) b
   \<Longrightarrow> frame n C s0 (emplace_back b v l i s)"
  by (rule frame_step [where b = b and s = s])
     (simp_all add: emplace_back_def updateBlock_proj_same)

lemma frame_synthesizeExpr [simp]:
  "frame n C s0 s \<Longrightarrow> n \<le> length (basicBlocks s) \<Longrightarrow> okBlock n C (deadBlock s0) b
   \<Longrightarrow> frame n C s0 (synthesizeExpr b v l i s)"
  by (rule frame_step [where b = b and s = s])
     (simp_all add: synthesizeExpr_def updateBlock_proj_same)

lemma frame_bindBlockArgs [simp]:
  "frame n C s0 s \<Longrightarrow> n \<le> length (basicBlocks s) \<Longrightarrow> okBlock n C (deadBlock s0) b
   \<Longrightarrow> frame n C s0 (bindBlockArgs i args b t x l s)"
  by (induction i args b t x l s rule: bindBlockArgs.induct) (simp_all add: Let_def)

lemma frame_markJumpDestination [simp]:
  "frame n C s0 s \<Longrightarrow> n \<le> length (basicBlocks s) \<Longrightarrow> frame n C s0 (markJumpDestination E b s)"
  by (rule frame_step [where b = "length (basicBlocks s)" and s = s])
     (simp_all add: markJumpDestination_def updateBlock_proj_same)

lemma frame_addBackEdge [simp]:
  "frame n C s0 s \<Longrightarrow> n \<le> length (basicBlocks s) \<Longrightarrow> frame n C s0 (addBackEdge b from s)"
  by (rule frame_step [where b = "length (basicBlocks s)" and s = s])
     (simp_all add: addBackEdge_def updateBlock_proj_same)

lemma frame_set_bexit:
  "frame n C s0 s \<Longrightarrow> n \<le> length (basicBlocks s) \<Longrightarrow> okBlock n C (deadBlock s0) b
   \<Longrightarrow> b \<noteq> deadBlock s
   \<Longrightarrow> frame n C s0 (updateBlock b (\<lambda>x. x\<lparr>bexit := e\<rparr>) s)"
  by (rule frame_step [where b = b and s = s]) auto

lemma frame_dead: "frame n C s0 s \<Longrightarrow> deadBlock s = deadBlock s0"
  by (simp add: frame_def)

lemma satisfies_enforceUnset [simp]:
  "satisfies (enforceUnset E from s) Q =
     (debug_mode E \<and> (isCondSet (bexit (basicBlocks s ! from))
        \<or> thenb (bexit (basicBlocks s ! from)) \<noteq> None
        \<or> elseb (bexit (basicBlocks s ! from)) \<noteq> None) \<or> Q () s)"
  by (auto simp: enforceUnset_def)

lemma satisfies_unconditionalJump:
  "frame n C s0 s \<Longrightarrow> n \<le> length (basicBlocks s) \<Longrightarrow> okBlock n C (deadBlock s0) from
   \<Longrightarrow> (\<forall>s'. frame n C s0 s' \<longrightarrow> length (basicBlocks s') = length (basicBlocks s) \<longrightarrow>
          deadBlock s' = deadBlock s0 \<longrightarrow> Q () s')
   \<Longrightarrow> satisfies (unconditionalJump E from to s l) Q"
  by (frule frame_dead) (auto simp: unconditionalJump_def Let_def frame_set_bexit)

lemma satisfies_conditionalJump:
  "frame n C s0 s \<Longrightarrow> n \<le> length (basicBlocks s) \<Longrightarrow> okBlock n C (deadBlock s0) from
   \<Longrightarrow> (\<forall>s'. frame n C s0 s' \<longrightarrow> length (basicBlocks s') = length (basicBlocks s) \<longrightarrow>
          deadBlock s' = deadBlock s0 \<longrightarrow> Q () s')
   \<Longrightarrow> satisfies (conditionalJump E from cnd thn els s l) Q"
  by (frule frame_dead) (auto simp: conditionalJump_def Let_def frame_set_bexit)

lemma satisfies_jumpToDead:
  "frame n C s0 s \<Longrightarrow> n \<le> length (basicBlocks s) \<Longrightarrow> okBlock n C (deadBlock s0) from
   \<Longrightarrow> (\<forall>s'. frame n C s0 s' \<longrightarrow> length (basicBlocks s') = length (basicBlocks s) \<longrightarrow>
          deadBlock s' = deadBlock s0 \<longrightarrow> Q () s')
   \<Longrightarrow> satisfies (jumpToDead E from s l) Q"
  by (frule frame_dead) (auto simp: jumpToDead_def Let_def frame_set_bexit)

lemma satisfies_memberOrUndeclared:
  "frame n C s0 s
   \<Longrightarrow> (\<forall>v s'. frame n C s0 s' \<longrightarrow> length (basicBlocks s') = length (basicBlocks s) \<longrightarrow>
          deadBlock s' = deadBlock s0 \<longrightarrow> Q v s')
   \<Longrightarrow> satisfies (memberOrUndeclared E cctx l nm klass s) Q"
  by (frule frame_dead) (auto simp: memberOrUndeclared_def Let_def split_beta split: option.splits)

lemma satisfies_unresolvedIdent2Local:
  "frame n C s0 s
   \<Longrightarrow> (\<forall>v s'. frame n C s0 s' \<longrightarrow> length (basicBlocks s') = length (basicBlocks s) \<longrightarrow>
          deadBlock s' = deadBlock s0 \<longrightarrow> Q v s')
   \<Longrightarrow> satisfies (unresolvedIdent2Local E cctx l kind nm s) Q"
  by (auto simp: unresolvedIdent2Local_def satisfies_memberOrUndeclared
      split: ident_kind.splits option.splits)

lemma satisfies_assignLhs:
  "frame n C s0 s
   \<Longrightarrow> (\<forall>v s'. frame n C s0 s' \<longrightarrow> length (basicBlocks s') = length (basicBlocks s) \<longrightarrow>
          deadBlock s' = deadBlock s0 \<longrightarrow> Q v s')
   \<Longrightarrow> satisfies (assignLhs E cctx e s) Q"
proof (cases e)
  case (ast_UnresolvedIdent l k nm)
  assume "frame n C s0 s"
    and "\<forall>v s'. frame n C s0 s' \<longrightarrow> length (basicBlocks s') = length (basicBlocks s) \<longrightarrow>
          deadBlock s' = deadBlock s0 \<longrightarrow> Q v s'"
  then show ?thesis
    unfolding ast_UnresolvedIdent
    by (simp add: satisfies_unresolvedIdent2Local [where n = n and C = C and ?s0.0 = s0])
qed (simp_all add: Let_def split_beta frame_dead)

lemma walkOkD:
  "walkOk n C s0 E e \<Longrightarrow> deadBlock s0 < n \<Longrightarrow> frame n C s0 S \<Longrightarrow> deadBlock S = deadBlock s0 \<Longrightarrow> n \<le> length (basicBlocks S) \<Longrightarrow>
   okBlock n C (deadBlock s0) cur \<Longrightarrow> cur < length (basicBlocks S) \<Longrightarrow>
   (\<forall>b s'. frame n C s0 s' \<longrightarrow> length (basicBlocks S) \<le> length (basicBlocks s') \<longrightarrow>
      deadBlock s' = deadBlock s0 \<longrightarrow> okBlock n C (deadBlock s0) b \<longrightarrow>
      b < length (basicBlocks s') \<longrightarrow> Q b s') \<Longrightarrow>
   satisfies (walk E cctx e cur S) Q"
  unfolding walkOk_def by blast

lemma walkOkI:
  "(\<And>cctx cur S Q. deadBlock s0 < n \<Longrightarrow> frame n C s0 S \<Longrightarrow> deadBlock S = deadBlock s0 \<Longrightarrow> n \<le> length (basicBlocks S) \<Longrightarrow>
   okBlock n C (deadBlock s0) cur \<Longrightarrow> cur < length (basicBlocks S) \<Longrightarrow>
      (\<forall>b s'. frame n C s0 s' \<longrightarrow> length (basicBlocks S) \<le> length (basicBlocks s') \<longrightarrow>
      deadBlock s' = deadBlock s0 \<longrightarrow> okBlock n C (deadBlock s0) b \<longrightarrow>
      b < length (basicBlocks s') \<longrightarrow> Q b s') \<Longrightarrow>
      satisfies (walkNode E cctx e cur S) Q)
   \<Longrightarrow> walkOk n C s0 E e"
  unfolding walkOk_def by (simp add: walk.simps frame_dead)

lemmas steps = walkOkD satisfies_unconditionalJump satisfies_conditionalJump satisfies_jumpToDead
  satisfies_unresolvedIdent2Local satisfies_assignLhs

lemma walkEachOk:
  assumes "\<forall>e\<in>set es. walkOk n C s0 E e" and "deadBlock s0 < n"
  shows "frame n C s0 S \<Longrightarrow> deadBlock S = deadBlock s0 \<Longrightarrow> n \<le> length (basicBlocks S) \<Longrightarrow>
   okBlock n C (deadBlock s0) cur \<Longrightarrow> cur < length (basicBlocks S) \<Longrightarrow>
   (\<forall>ts b s'. frame n C s0 s' \<longrightarrow> length (basicBlocks S) \<le> length (basicBlocks s') \<longrightarrow>
      deadBlock s' = deadBlock s0 \<longrightarrow> okBlock n C (deadBlock s0) b \<longrightarrow>
      b < length (basicBlocks s') \<longrightarrow> Q (ts, b) s') \<Longrightarrow>
   satisfies (walkEach E cctx nm es cur S) Q"
  using assms
  by (induction es arbitrary: cur S Q)
     (simp_all add: steps [where n = n and C = C and ?s0.0 = s0] Let_def split_beta)

lemma walkHashOk:
  assumes "\<forall>kv\<in>set kvs. walkOk n C s0 E (fst kv) \<and> walkOk n C s0 E (snd kv)"
    and "deadBlock s0 < n"
  shows "frame n C s0 S \<Longrightarrow> deadBlock S = deadBlock s0 \<Longrightarrow> n \<le> length (basicBlocks S) \<Longrightarrow>
   okBlock n C (deadBlock s0) cur \<Longrightarrow> cur < length (basicBlocks S) \<Longrightarrow>
   (\<forall>ts b s'. frame n C s0 s' \<longrightarrow> length (basicBlocks S) \<le> length (basicBlocks s') \<longrightarrow>
      deadBlock s' = deadBlock s0 \<longrightarrow> okBlock n C (deadBlock s0) b \<longrightarrow>
      b < length (basicBlocks s') \<longrightarrow> Q (ts, b) s') \<Longrightarrow>
   satisfies (walkHash E cctx kvs cur S) Q"
  using assms
proof (induction kvs arbitrary: cur S Q)
  case Nil
  then show ?case by simp
next
  case (Cons kv kvs)
  obtain k v where kv: "kv = (k, v)" by (cases kv)
  show ?case
    using Cons unfolding kv
    by (simp add: steps [where n = n and C = C and ?s0.0 = s0] Let_def split_beta)
qed

lemma walkExceptionsOk:
  assumes "\<forall>e\<in>set exs. walkOk n C s0 E e" and "deadBlock s0 < n"
  shows "frame n C s0 S \<Longrightarrow> deadBlock S = deadBlock s0 \<Longrightarrow> n \<le> length (basicBlocks S) \<Longrightarrow>
   okBlock n C (deadBlock s0) hb \<Longrightarrow> hb < length (basicBlocks S) \<Longrightarrow>
   (\<forall>b s'. frame n C s0 s' \<longrightarrow> length (basicBlocks S) \<le> length (basicBlocks s') \<longrightarrow>
      deadBlock s' = deadBlock s0 \<longrightarrow> okBlock n C (deadBlock s0) b \<longrightarrow>
      b < length (basicBlocks s') \<longrightarrow> handlerOk hb (length (basicBlocks S)) b \<longrightarrow>
      Q b s') \<Longrightarrow>
   satisfies (walkExceptions E cctx lv caseBody exs hb S) Q"
  using assms
  by (induction exs arbitrary: hb S Q)
     (simp_all add: steps [where n = n and C = C and ?s0.0 = s0] Let_def split_beta handlerOk_def)

lemma walkOk_ConstantLit:
  assumes "\<forall>x\<in>set_option original. walkOk n C s0 E x"
  shows "walkOk n C s0 E (ast_ConstantLit l what original)"
  apply (rule walkOkI)
  using assms
  apply (simp add: steps [where n = n and C = C and ?s0.0 = s0] Let_def split_beta
      split: option.split)
  done

lemma walkRescueCasesOk:
  assumes "\<forall>rc\<in>set cases. caseOk n C s0 E rc" and "deadBlock s0 < n"
  shows "frame n C s0 S \<Longrightarrow> deadBlock S = deadBlock s0 \<Longrightarrow> n \<le> length (basicBlocks S) \<Longrightarrow>
   okBlock n C (deadBlock s0) hb \<Longrightarrow> hb < length (basicBlocks S) \<Longrightarrow>
   (\<forall>cs b s'. frame n C s0 s' \<longrightarrow> length (basicBlocks S) \<le> length (basicBlocks s') \<longrightarrow>
      deadBlock s' = deadBlock s0 \<longrightarrow> okBlock n C (deadBlock s0) b \<longrightarrow>
      b < length (basicBlocks s') \<longrightarrow> handlerOk hb (length (basicBlocks S)) b \<longrightarrow>
      Q (cs, b) s') \<Longrightarrow>
   satisfies (walkRescueCases E cctx l cases hb ensureBody S) Q"
  using assms
proof (induction cases arbitrary: hb S Q)
  case Nil
  then show ?case by (simp add: handlerOk_def)
next
  case (Cons rc cases)
  obtain cl exceptions var body where rc: "rc = RescueCaseNode cl exceptions var body"
    by (cases rc)
  show ?case
    using Cons unfolding rc
    by (simp add: steps [where n = n and C = C and ?s0.0 = s0] walkExceptionsOk [where n = n and C = C and ?s0.0 = s0]
          walkOk_ConstantLit MK_Constant_def Let_def split_beta handlerOk_def
          split: option.split)
qed

lemma walkOk_If:
  assumes "walkOk n C s0 E cnd" "walkOk n C s0 E thenp" "walkOk n C s0 E elsep"
  shows "walkOk n C s0 E (ast_If l cnd thenp elsep)"
  apply (rule walkOkI)
  using assms
  apply (simp add: steps [where n = n and C = C and ?s0.0 = s0]  Let_def split_beta)
  done

lemma walkOk_While:
  assumes "walkOk n C s0 E cnd" "walkOk n C s0 E body"
  shows "walkOk n C s0 E (ast_While l cnd body)"
  apply (rule walkOkI)
  using assms
  apply (simp add: steps [where n = n and C = C and ?s0.0 = s0]  Let_def split_beta)
  done

lemma walkOk_Return:
  assumes "walkOk n C s0 E e"
  shows "walkOk n C s0 E (ast_Return l e)"
  apply (rule walkOkI)
  using assms
  apply (simp add: steps [where n = n and C = C and ?s0.0 = s0]  Let_def split_beta)
  done

lemma walkOk_Assign:
  assumes "walkOk n C s0 E e"
  shows "walkOk n C s0 E (ast_Assign l lhs e)"
  apply (rule walkOkI)
  using assms
  apply (simp add: steps [where n = n and C = C and ?s0.0 = s0]  Let_def split_beta)
  done

lemma walkOk_Next:
  assumes "walkOk n C s0 E e"
  shows "walkOk n C s0 E (ast_Next l e)"
  apply (rule walkOkI)
  using assms
  apply (simp add: steps [where n = n and C = C and ?s0.0 = s0]  Let_def split_beta split: option.split)
  done

lemma walkOk_Break:
  assumes "walkOk n C s0 E e"
  shows "walkOk n C s0 E (ast_Break l e)"
  apply (rule walkOkI)
  using assms
  apply (simp add: steps [where n = n and C = C and ?s0.0 = s0]  Let_def split_beta split: option.split)
  done

lemma walkOk_Cast:
  assumes "walkOk n C s0 E e"
  shows "walkOk n C s0 E (ast_Cast l ty e cast)"
  apply (rule walkOkI)
  using assms
  apply (simp add: steps [where n = n and C = C and ?s0.0 = s0]  Let_def split_beta)
  done

lemma walkOk_Literal:
  shows "walkOk n C s0 E (ast_Literal l v)"
  apply (rule walkOkI)
  apply (simp add: steps [where n = n and C = C and ?s0.0 = s0]  Let_def split_beta)
  done

lemma walkOk_UnresolvedIdent:
  shows "walkOk n C s0 E (ast_UnresolvedIdent l kind nm)"
  apply (rule walkOkI)
  apply (simp add: steps [where n = n and C = C and ?s0.0 = s0]  Let_def split_beta)
  done

lemma walkOk_UnresolvedConstantLit:
  shows "walkOk n C s0 E (ast_UnresolvedConstantLit l)"
  apply (rule walkOkI)
  apply (simp add: steps [where n = n and C = C and ?s0.0 = s0]  Let_def split_beta)
  done

lemma walkOk_Field:
  shows "walkOk n C s0 E (ast_Field l what)"
  apply (rule walkOkI)
  apply (simp add: steps [where n = n and C = C and ?s0.0 = s0]  Let_def split_beta)
  done

lemma walkOk_Local:
  shows "walkOk n C s0 E (ast_Local l lv)"
  apply (rule walkOkI)
  apply (simp add: steps [where n = n and C = C and ?s0.0 = s0]  Let_def split_beta)
  done

lemma walkOk_Block:
  shows "walkOk n C s0 E (ast_Block blk)"
  apply (rule walkOkI)
  apply (simp add: steps [where n = n and C = C and ?s0.0 = s0]  Let_def split_beta)
  done

lemma walkOk_Retry:
  shows "walkOk n C s0 E (ast_Retry l)"
  apply (rule walkOkI)
  apply (simp add: steps [where n = n and C = C and ?s0.0 = s0]  Let_def split_beta split: option.split)
  done

lemma walkOk_EmptyTree:
  shows "walkOk n C s0 E (ast_EmptyTree)"
  apply (rule walkOkI)
  apply (simp add: steps [where n = n and C = C and ?s0.0 = s0]  Let_def split_beta)
  done

lemma walkOk_ClassDef:
  shows "walkOk n C s0 E (ast_ClassDef l)"
  apply (rule walkOkI)
  apply (simp add: steps [where n = n and C = C and ?s0.0 = s0]  Let_def split_beta)
  done

lemma walkOk_MethodDef:
  shows "walkOk n C s0 E (ast_MethodDef l)"
  apply (rule walkOkI)
  apply (simp add: steps [where n = n and C = C and ?s0.0 = s0]  Let_def split_beta)
  done

lemma walkOk_Other:
  shows "walkOk n C s0 E (ast_Other l nodeName)"
  apply (rule walkOkI)
  apply (simp add: steps [where n = n and C = C and ?s0.0 = s0]  Let_def split_beta)
  done

lemma walkOk_InsSeq:
  assumes "\<forall>e\<in>set stats. walkOk n C s0 E e" "walkOk n C s0 E e"
  shows "walkOk n C s0 E (ast_InsSeq l stats e)"
  apply (rule walkOkI)
  using assms
  apply (simp add: steps [where n = n and C = C and ?s0.0 = s0] walkEachOk [where n = n and C = C and ?s0.0 = s0] Let_def split_beta)
  done

lemma walkOk_Array:
  assumes "\<forall>e\<in>set elems. walkOk n C s0 E e"
  shows "walkOk n C s0 E (ast_Array l elems)"
  apply (rule walkOkI)
  using assms
  apply (simp add: steps [where n = n and C = C and ?s0.0 = s0] walkEachOk [where n = n and C = C and ?s0.0 = s0] Let_def split_beta)
  done

lemma walkOk_Hash:
  assumes "\<forall>kv\<in>set kvs. walkOk n C s0 E (fst kv) \<and> walkOk n C s0 E (snd kv)"
  shows "walkOk n C s0 E (ast_Hash l kvs)"
  apply (rule walkOkI)
  using assms
  apply (simp add: steps [where n = n and C = C and ?s0.0 = s0] walkHashOk [where n = n and C = C and ?s0.0 = s0] Let_def split_beta)
  done

lemmas loop_steps = walkEachOk walkHashOk walkExceptionsOk walkRescueCasesOk

lemma walkOk_Rescue:
  assumes "walkOk n C s0 E body" "\<forall>rc\<in>set cases. caseOk n C s0 E rc"
    "walkOk n C s0 E elseExpr" "walkOk n C s0 E ensure"
  shows "walkOk n C s0 E (ast_Rescue l body cases elseExpr ensure)"
  apply (rule walkOkI)
  using assms
  apply (simp add: Let_def split_beta)
  apply ((rule steps [where n = n and C = C and ?s0.0 = s0]
               loop_steps [where n = n and C = C and ?s0.0 = s0];
          (simp (no_asm_simp))?)
         | intro allI impI conjI)+
  done

lemma walkOk_Send_block:
  assumes "walkOk n C s0 E recv" "\<forall>e\<in>set args. walkOk n C s0 E e" "walkOk n C s0 E body"
  shows "walkOk n C s0 E (ast_Send l recv fn args (Some (BlockNode bl bargs body)) privateOk)"
  apply (rule walkOkI)
  using assms
  apply (simp add: Let_def split_beta split: list.split)
  apply ((rule steps [where n = n and C = C and ?s0.0 = s0]
               loop_steps [where n = n and C = C and ?s0.0 = s0];
          (simp (no_asm_simp))?)
         | intro allI impI conjI)+
  done

lemma walkOk_Send_plain:
  assumes "walkOk n C s0 E recv" "\<forall>e\<in>set args. walkOk n C s0 E e"
  shows "walkOk n C s0 E (ast_Send l recv fn args None privateOk)"
  apply (rule walkOkI)
  using assms
  apply (simp add: Let_def split_beta split: list.split)
  apply ((rule steps [where n = n and C = C and ?s0.0 = s0]
               loop_steps [where n = n and C = C and ?s0.0 = s0];
          (simp (no_asm_simp))?)
         | intro allI impI conjI)+
  done

lemma walkOk_Send:
  assumes "walkOk n C s0 E recv" "\<forall>e\<in>set args. walkOk n C s0 E e"
    "\<forall>b\<in>set_option blk. blockOk n C s0 E b"
  shows "walkOk n C s0 E (ast_Send l recv fn args blk privateOk)"
proof (cases blk)
  case None
  then show ?thesis using assms by (simp add: walkOk_Send_plain)
next
  case (Some b)
  then show ?thesis using assms by (cases b) (simp add: walkOk_Send_block)
qed

lemma walkOk_all: "walkOk n C s0 E e"
  and blockOk_all: "blockOk n C s0 E b"
  and caseOk_all: "caseOk n C s0 E rc"
proof (induction e and b and rc)
  case (ast_Hash l kvs)
  have "\<forall>kv\<in>set kvs. walkOk n C s0 E (fst kv) \<and> walkOk n C s0 E (snd kv)"
  proof
    fix kv assume kv: "kv \<in> set kvs"
    show "walkOk n C s0 E (fst kv) \<and> walkOk n C s0 E (snd kv)"
      using ast_Hash(1) [OF kv, of "fst kv"] ast_Hash(2) [OF kv, of "snd kv"]
      by (cases kv) (simp add: prod_set_simps)
  qed
  then show ?case by (rule walkOk_Hash)
qed (simp_all add: walkOk_If walkOk_While walkOk_Return walkOk_Assign walkOk_Next walkOk_Break
      walkOk_Cast walkOk_Literal walkOk_UnresolvedIdent walkOk_UnresolvedConstantLit
      walkOk_Field walkOk_Local walkOk_Block walkOk_Retry walkOk_EmptyTree walkOk_ClassDef
      walkOk_MethodDef walkOk_Other walkOk_InsSeq walkOk_Array walkOk_Rescue walkOk_Send
      walkOk_ConstantLit)

subsection \<open>Returning runs\<close>

text \<open>
  What a primitive that returns has done to the terminators and instruction lists, and
  the frame of a returning walk in the form used below.
\<close>

lemma returns_simps [simp]:
  "returns (Returned a s) Q = Q a s"
  "returns (Threw e s) Q = False"
  "returns Diverged Q = False"
  "returns (catchSorbetException l m) Q = returns m Q"
  by (auto simp: returns_def catchSorbetException_def split: outcome.splits failure.splits)

lemma returns_andThen [simp]:
  "returns (andThen m f) Q = returns m (\<lambda>a s. returns (f a s) Q)"
  by (auto simp: returns_def andThen_def split: outcome.splits)

lemma returns_ENFORCE [simp]:
  "returns (ENFORCE E x msg s) Q = ((debug_mode E \<longrightarrow> x) \<and> Q () s)"
  by (auto simp: returns_def ENFORCE_def)

lemma returns_iff: "returns m Q \<longleftrightarrow> (\<exists>a s. m = Returned a s \<and> Q a s)"
  by (cases m) (simp_all add: returns_def)

lemma andThen_eq_Returned:
  "(andThen m f = Returned b s') = (\<exists>a s1. m = Returned a s1 \<and> f a s1 = Returned b s')"
  by (cases m) (simp_all add: andThen_def)

lemma catch_eq_Returned:
  "(catchSorbetException l m = Returned b s') = (m = Returned b s')"
  by (auto simp: catchSorbetException_def split: outcome.splits failure.splits)

lemma ENFORCE_eq_Returned:
  "(ENFORCE E x msg s = Returned u s') = ((debug_mode E \<longrightarrow> x) \<and> s' = s)"
  by (auto simp: ENFORCE_def)

lemmas returned_simps = andThen_eq_Returned catch_eq_Returned ENFORCE_eq_Returned

lemma satisfiesD: "satisfies m Q \<Longrightarrow> m = Returned a s \<Longrightarrow> Q a s"
  by simp

lemma proj_same [simp]:
  "exprs (basicBlocks (markJumpDestination E b s) ! x) = exprs (basicBlocks s ! x)"
  "bexit (basicBlocks (markJumpDestination E b s) ! x) = bexit (basicBlocks s ! x)"
  "exprs (basicBlocks (addBackEdge b from s) ! x) = exprs (basicBlocks s ! x)"
  "bexit (basicBlocks (addBackEdge b from s) ! x) = bexit (basicBlocks s ! x)"
  "bexit (basicBlocks (emplace_back b v l i s) ! x) = bexit (basicBlocks s ! x)"
  "bexit (basicBlocks (synthesizeExpr b v l i s) ! x) = bexit (basicBlocks s ! x)"
  "exprs (basicBlocks (updateBlock b (\<lambda>y. y\<lparr>bexit := e\<rparr>) s) ! x) = exprs (basicBlocks s ! x)"
  by (simp_all add: markJumpDestination_def addBackEdge_def emplace_back_def synthesizeExpr_def
        updateBlock_proj_same)

lemma exprs_emplace_back [simp]:
  "exprs (basicBlocks (emplace_back b v l i s) ! x) =
     (if x = b \<and> b < length (basicBlocks s)
      then exprs (basicBlocks s ! b) @
             [\<lparr>bind_var = v, bind_loc = l, bind_value = i, isSynthetic = False\<rparr>]
      else exprs (basicBlocks s ! x))"
  by (cases "b < length (basicBlocks s)")
     (auto simp: emplace_back_def updateBlock_def list_update_beyond nth_list_update)

lemma exprs_synthesizeExpr [simp]:
  "exprs (basicBlocks (synthesizeExpr b v l i s) ! x) =
     (if x = b \<and> b < length (basicBlocks s)
      then exprs (basicBlocks s ! b) @
             [\<lparr>bind_var = v, bind_loc = l, bind_value = i, isSynthetic = True\<rparr>]
      else exprs (basicBlocks s ! x))"
  by (cases "b < length (basicBlocks s)")
     (auto simp: synthesizeExpr_def updateBlock_def list_update_beyond nth_list_update)

lemma bexit_set [simp]:
  "bexit (basicBlocks (updateBlock b (\<lambda>y. y\<lparr>bexit := e\<rparr>) s) ! x) =
     (if x = b \<and> b < length (basicBlocks s) then e else bexit (basicBlocks s ! x))"
  by (cases "b < length (basicBlocks s)")
     (auto simp: updateBlock_def list_update_beyond nth_list_update)

lemma freshBlock_nth [simp]:
  "x < length (basicBlocks s) \<Longrightarrow> basicBlocks (snd (freshBlock a r s)) ! x = basicBlocks s ! x"
  "basicBlocks (snd (freshBlock a r s)) ! length (basicBlocks s) =
     \<lparr>bb_id = int (length (basicBlocks s)), outerLoops = a, bb_rubyBlockId = r, exprs = [],
      backEdges = [], bexit = unsetExit, flags = 0\<rparr>"
  by (simp_all add: freshBlock_def nth_append)

lemma other_fields [simp]:
  "errorQueue (snd (freshBlock a r s)) = errorQueue s"
  "temporaryCounter (snd (freshBlock a r s)) = temporaryCounter s"
  "errorQueue (snd (newTemporary t s)) = errorQueue s"
  "temporaryCounter (snd (newTemporary t s)) = temporaryCounter s + 1"
  "errorQueue (emplace_back b v l i s) = errorQueue s"
  "temporaryCounter (emplace_back b v l i s) = temporaryCounter s"
  "errorQueue (synthesizeExpr b v l i s) = errorQueue s"
  "temporaryCounter (synthesizeExpr b v l i s) = temporaryCounter s"
  "errorQueue (beginError l code s) = errorQueue s @ [(l, code)]"
  "temporaryCounter (beginError l code s) = temporaryCounter s"
  "errorQueue (markJumpDestination E b s) = errorQueue s"
  "temporaryCounter (markJumpDestination E b s) = temporaryCounter s"
  "errorQueue (addBackEdge b from s) = errorQueue s"
  "temporaryCounter (addBackEdge b from s) = temporaryCounter s"
  "errorQueue (updateBlock b f s) = errorQueue s"
  "temporaryCounter (updateBlock b f s) = temporaryCounter s"
  by (simp_all add: freshBlock_def newTemporary_def emplace_back_def synthesizeExpr_def
        beginError_def markJumpDestination_def addBackEdge_def updateBlock_def)

lemma unconditionalJump_Returned:
  assumes "unconditionalJump E from to s l = Returned u s'"
  shows "length (basicBlocks s') = length (basicBlocks s)" "deadBlock s' = deadBlock s"
    "errorQueue s' = errorQueue s" "temporaryCounter s' = temporaryCounter s"
    "exprs (basicBlocks s' ! x) = exprs (basicBlocks s ! x)"
    "bexit (basicBlocks s' ! x) =
       (if x = from \<and> from \<noteq> deadBlock s \<and> from < length (basicBlocks s)
        then \<lparr>cond = Some noVariable, thenb = Some to, elseb = Some to, exit_loc = l\<rparr>
        else bexit (basicBlocks s ! x))"
  using assms
  by (auto simp: unconditionalJump_def Let_def returned_simps enforceUnset_def split: if_splits)

lemma conditionalJump_Returned:
  assumes "conditionalJump E from cnd thn els s l = Returned u s'"
  shows "length (basicBlocks s') = length (basicBlocks s)" "deadBlock s' = deadBlock s"
    "errorQueue s' = errorQueue s" "temporaryCounter s' = temporaryCounter s"
    "exprs (basicBlocks s' ! x) = exprs (basicBlocks s ! x)"
    "bexit (basicBlocks s' ! x) =
       (if x = from \<and> from \<noteq> deadBlock s \<and> from < length (basicBlocks s)
        then \<lparr>cond = Some cnd, thenb = Some thn, elseb = Some els, exit_loc = l\<rparr>
        else bexit (basicBlocks s ! x))"
  using assms
  by (auto simp: conditionalJump_def Let_def returned_simps enforceUnset_def split: if_splits)

lemma jumpToDead_Returned:
  assumes "jumpToDead E from s l = Returned u s'"
  shows "length (basicBlocks s') = length (basicBlocks s)" "deadBlock s' = deadBlock s"
    "errorQueue s' = errorQueue s" "temporaryCounter s' = temporaryCounter s"
    "exprs (basicBlocks s' ! x) = exprs (basicBlocks s ! x)"
    "bexit (basicBlocks s' ! x) =
       (if x = from \<and> from \<noteq> deadBlock s \<and> from < length (basicBlocks s)
        then \<lparr>cond = Some noVariable, thenb = Some (deadBlock s), elseb = Some (deadBlock s),
              exit_loc = l\<rparr>
        else bexit (basicBlocks s ! x))"
  using assms
  by (auto simp: jumpToDead_def Let_def returned_simps enforceUnset_def split: if_splits)

lemma walk_frameC:
  assumes "walk E cctx e cur S = Returned b s'" "frame n C s0 S" "deadBlock s0 < n"
    "n \<le> length (basicBlocks S)" "okBlock n C (deadBlock s0) cur" "cur < length (basicBlocks S)"
  shows "frame n C s0 s' \<and> length (basicBlocks S) \<le> length (basicBlocks s') \<and>
         deadBlock s' = deadBlock s0 \<and> okBlock n C (deadBlock s0) b \<and>
         b < length (basicBlocks s')"
proof -
  have "satisfies (walk E cctx e cur S)
          (\<lambda>b s'. frame n C s0 s' \<and> length (basicBlocks S) \<le> length (basicBlocks s') \<and>
         deadBlock s' = deadBlock s0 \<and> okBlock n C (deadBlock s0) b \<and>
         b < length (basicBlocks s'))"
    using assms(2-) frame_dead [OF assms(2)]
    by (intro walkOkD [OF walkOk_all]) blast+
  then show ?thesis using assms(1) by simp
qed

lemma walk_frame:
  assumes w: "walk E cctx e cur s = Returned b s'"
    and cur: "cur < length (basicBlocks s)" and d: "deadBlock s < length (basicBlocks s)"
  shows "frame (length (basicBlocks s)) {cur} s s'"
    "length (basicBlocks s) \<le> length (basicBlocks s')" "deadBlock s' = deadBlock s"
    "b = cur \<or> b = deadBlock s \<or> length (basicBlocks s) \<le> b" "b < length (basicBlocks s')"
  using walk_frameC [OF w frame_refl d order_refl _ cur, of "{cur}"]
  by (simp_all add: okBlock_def)

lemma freshBlock_nth_new:
  "x = length (basicBlocks s) \<Longrightarrow>
   basicBlocks (snd (freshBlock a r s)) ! x =
     \<lparr>bb_id = int (length (basicBlocks s)), outerLoops = a, bb_rubyBlockId = r, exprs = [],
      backEdges = [], bexit = unsetExit, flags = 0\<rparr>"
  by simp

lemma frame_bexit:
  "frame n C s s' \<Longrightarrow> x < n \<Longrightarrow> x \<notin> C \<or> x = deadBlock s \<Longrightarrow>
   bexit (basicBlocks s' ! x) = bexit (basicBlocks s ! x)"
  by (simp add: frame_def)

lemma frame_exprs:
  "frame n C s s' \<Longrightarrow> x < n \<Longrightarrow> x \<notin> C \<Longrightarrow> x \<noteq> deadBlock s \<Longrightarrow>
   exprs (basicBlocks s' ! x) = exprs (basicBlocks s ! x)"
  by (simp add: frame_def)

lemma frame_prefix:
  "frame n C s s' \<Longrightarrow> x < length (basicBlocks s) \<Longrightarrow>
   prefix (exprs (basicBlocks s ! x)) (exprs (basicBlocks s' ! x))"
  by (simp add: frame_def)

lemma walkEach_frame:
  assumes w: "walkEach E cctx nm es cur s = Returned (ts, b) s'"
    and cur: "cur < length (basicBlocks s)" and d: "deadBlock s < length (basicBlocks s)"
  shows "frame (length (basicBlocks s)) {cur} s s'"
    "length (basicBlocks s) \<le> length (basicBlocks s')" "deadBlock s' = deadBlock s"
    "b = cur \<or> b = deadBlock s \<or> length (basicBlocks s) \<le> b" "b < length (basicBlocks s')"
proof -
  have "satisfies (walkEach E cctx nm es cur s)
          (\<lambda>r s'. frame (length (basicBlocks s)) {cur} s s' \<and>
             length (basicBlocks s) \<le> length (basicBlocks s') \<and> deadBlock s' = deadBlock s \<and>
             okBlock (length (basicBlocks s)) {cur} (deadBlock s) (snd r) \<and>
             snd r < length (basicBlocks s'))"
    by (rule walkEachOk [where n = "length (basicBlocks s)" and C = "{cur}" and ?s0.0 = s])
       (use cur d in \<open>simp_all add: walkOk_all frame_refl okBlock_def\<close>)
  then show "frame (length (basicBlocks s)) {cur} s s'"
    "length (basicBlocks s) \<le> length (basicBlocks s')" "deadBlock s' = deadBlock s"
    "b = cur \<or> b = deadBlock s \<or> length (basicBlocks s) \<le> b" "b < length (basicBlocks s')"
    using w by (simp_all add: okBlock_def)
qed

lemma walkRescueCases_frame:
  assumes w: "walkRescueCases E cctx l cases hb eb s = Returned (cs, b) s'"
    and cur: "hb < length (basicBlocks s)" and d: "deadBlock s < length (basicBlocks s)"
  shows "frame (length (basicBlocks s)) {hb} s s'"
    "length (basicBlocks s) \<le> length (basicBlocks s')" "deadBlock s' = deadBlock s"
    "b = hb \<or> length (basicBlocks s) \<le> b" "b < length (basicBlocks s')"
proof -
  have "satisfies (walkRescueCases E cctx l cases hb eb s)
          (\<lambda>r s'. frame (length (basicBlocks s)) {hb} s s' \<and>
             length (basicBlocks s) \<le> length (basicBlocks s') \<and> deadBlock s' = deadBlock s \<and>
             handlerOk hb (length (basicBlocks s)) (snd r) \<and>
             snd r < length (basicBlocks s'))"
    by (rule walkRescueCasesOk [where n = "length (basicBlocks s)" and C = "{hb}" and ?s0.0 = s])
       (use cur d in \<open>auto simp: frame_refl okBlock_def intro: caseOk_all\<close>)
  then show "frame (length (basicBlocks s)) {hb} s s'"
    "length (basicBlocks s) \<le> length (basicBlocks s')" "deadBlock s' = deadBlock s"
    "b = hb \<or> length (basicBlocks s) \<le> b" "b < length (basicBlocks s')"
    using w by (simp_all add: handlerOk_def)
qed

lemma bindBlockArgs_prefix:
  "prefix (exprs (basicBlocks s ! b)) (exprs (basicBlocks (bindBlockArgs i args b t x l s) ! b))"
proof (induction args arbitrary: i s)
  case Nil
  then show ?case by simp
next
  case (Cons a rest)
  have step: "prefix (exprs (basicBlocks s ! b))
                (exprs (basicBlocks (bindBlockArgs j rest b t x l S) ! b))"
    if "prefix (exprs (basicBlocks s ! b)) (exprs (basicBlocks S ! b))" for S j
    using that Cons.IH prefix_order.trans by blast
  show ?case
    by (auto simp: Let_def intro!: step)
qed

lemma bindBlockArgs_effect:
  "bexit (basicBlocks (bindBlockArgs i args b t x l s) ! y) = bexit (basicBlocks s ! y)"
  "y \<noteq> b \<Longrightarrow> exprs (basicBlocks (bindBlockArgs i args b t x l s) ! y) = exprs (basicBlocks s ! y)"
  "temporaryCounter (bindBlockArgs i args b t x l s) = temporaryCounter s"
  "errorQueue (bindBlockArgs i args b t x l s) = errorQueue s"
  by (induction i args b t x l s rule: bindBlockArgs.induct) (simp_all add: Let_def)

lemma walk_Literal_Returned:
  "(walk E cctx (ast_Literal l v) current s = Returned r s') =
     ((debug_mode E \<longrightarrow> \<not> isCondSet (bexit (basicBlocks s ! current)) \<or> current = deadBlock s) \<and>
      r = current \<and> s' = emplace_back current (target cctx) l (Literal v) s)"
  by (subst walk.simps) (auto simp: returned_simps)

lemma walk_While_chain:
  assumes w: "walk E cctx (ast_While l cnd body) current s = Returned r s'"
  obtains s1 headerEnd s2 s3 bodyEnd s4 s5 where
    "unconditionalJump E current (length (basicBlocks s))
       (snd (freshBlock (loops cctx) (rubyBlockId cctx)
         (snd (freshBlock (loops cctx) (rubyBlockId cctx)
           (snd (freshBlock (loops cctx + 1) (rubyBlockId cctx) s)))))) l = Returned () s1"
    "walk E (withLoopScope (withTarget cctx (fst (newTemporary Names_whileTemp s1)))
               (length (basicBlocks s)) (length (basicBlocks s) + 2) False)
       cnd (length (basicBlocks s)) (snd (newTemporary Names_whileTemp s1)) = Returned headerEnd s2"
    "conditionalJump E headerEnd (fst (newTemporary Names_whileTemp s1)) (length (basicBlocks s2))
       (length (basicBlocks s) + 1) (snd (freshBlock (loops cctx + 1) (rubyBlockId cctx) s2))
       (expr_loc cnd) = Returned () s3"
    "walk E (withBlockBreakTarget
               (withLoopScope (withTarget cctx (fst (newTemporary Names_statTemp s3)))
                  (length (basicBlocks s)) (length (basicBlocks s) + 2) False)
               (target cctx))
       body (length (basicBlocks s2)) (snd (newTemporary Names_statTemp s3)) = Returned bodyEnd s4"
    "unconditionalJump E bodyEnd (length (basicBlocks s)) s4 l = Returned () s5"
    "unconditionalJump E (length (basicBlocks s) + 1) (length (basicBlocks s) + 2)
       (synthesizeExpr (length (basicBlocks s) + 1) (target cctx) l (Literal Types_nilClass) s5) l =
       Returned () s'"
    "r = length (basicBlocks s) + 2"
  using w
  by (auto simp: walk.simps [of _ _ "ast_While l cnd body"] returned_simps Let_def split_beta)

lemma walk_Break_chain:
  assumes w: "walk E cctx (ast_Break l e) current s = Returned r s'"
  obtains afterBreak s1 where
    "walk E (withTarget cctx (fst (newTemporary Names_returnTemp s))) e current
       (snd (newTemporary Names_returnTemp s)) = Returned afterBreak s1"
    "unconditionalJump E afterBreak
       (case breakScope cctx of None \<Rightarrow> deadBlock s1 | Some scope \<Rightarrow> scope)
       ((case breakScope cctx of None \<Rightarrow> beginError l NoNextScope | Some scope \<Rightarrow> (\<lambda>s. s))
          (emplace_back afterBreak (blockBreakTarget cctx) l
             (Ident (fst (newTemporary Names_blockBreakAssign s1)))
             (emplace_back afterBreak (fst (newTemporary Names_blockBreakAssign s1)) l
                (Ident (fst (newTemporary Names_returnTemp s)))
                (snd (newTemporary Names_blockBreakAssign s1))))) l = Returned () s'"
    "r = deadBlock s'"
  using w
  by (cases "breakScope cctx")
     (auto simp: walk.simps [of _ _ "ast_Break l e"] returned_simps Let_def split_beta)

subsection \<open>The join of an \<^verbatim>\<open>If\<close>\<close>

text \<open>
  C1, as the code has it (lines 178-201). In a walk of an \<open>If\<close> that returns, the
  condition is walked into a fresh \<open>ifTemp\<close>, its continuation branches on it to two
  fresh blocks, and the arms are walked from them. If the then arm's continuation is
  the dead block, the walk returns the else arm's continuation (the dead block, when
  both are dead) and allocates nothing. In every other case, also when only the else
  arm's continuation is the dead block, a fresh join block is allocated and returned;
  the then arm's continuation jumps to it, and so does the else arm's when it is live.
  The test of line 191 repeats that of line 189, so the branch that would return the
  then arm's continuation is never taken.
\<close>

theorem walk_If_join:
  assumes w: "walk E cctx (ast_If l cnd thenp elsep) current s = Returned r s'"
    and cur: "current < length (basicBlocks s)" and dead: "deadBlock s < length (basicBlocks s)"
  shows "\<exists>cont s1 s2 thenEnd s3 elseEnd s4.
    walk E (withTarget cctx (fst (newTemporary Names_ifTemp s))) cnd current
      (snd (newTemporary Names_ifTemp s)) = Returned cont s1 \<and>
    conditionalJump E cont (fst (newTemporary Names_ifTemp s)) (length (basicBlocks s1))
      (length (basicBlocks s1) + 1)
      (snd (freshBlock (loops cctx) (rubyBlockId cctx)
         (snd (freshBlock (loops cctx) (rubyBlockId cctx) s1)))) (expr_loc cnd) = Returned () s2 \<and>
    walk E cctx thenp (length (basicBlocks s1)) s2 = Returned thenEnd s3 \<and>
    walk E cctx elsep (length (basicBlocks s1) + 1) s3 = Returned elseEnd s4 \<and>
    (if thenEnd = deadBlock s then r = elseEnd \<and> s' = s4
     else r = length (basicBlocks s4) \<and>
          length (basicBlocks s') = length (basicBlocks s4) + 1 \<and>
          exprs (basicBlocks s' ! r) = [] \<and>
          bexit (basicBlocks s' ! r) = unsetExit \<and>
          bexit (basicBlocks s' ! thenEnd) =
            \<lparr>cond = Some noVariable, thenb = Some r, elseb = Some r, exit_loc = l\<rparr> \<and>
          (elseEnd \<noteq> deadBlock s \<longrightarrow>
             bexit (basicBlocks s' ! elseEnd) =
               \<lparr>cond = Some noVariable, thenb = Some r, elseb = Some r, exit_loc = l\<rparr>))"
proof -
  let ?t = "fst (newTemporary Names_ifTemp s)"
  let ?s0 = "snd (newTemporary Names_ifTemp s)"
  from w obtain cont s1 s2 thenEnd s3 elseEnd s4 where
    w1: "walk E (withTarget cctx ?t) cnd current ?s0 = Returned cont s1"
    and cj: "conditionalJump E cont ?t (length (basicBlocks s1)) (length (basicBlocks s1) + 1)
      (snd (freshBlock (loops cctx) (rubyBlockId cctx)
         (snd (freshBlock (loops cctx) (rubyBlockId cctx) s1)))) (expr_loc cnd) = Returned () s2"
    and w3: "walk E cctx thenp (length (basicBlocks s1)) s2 = Returned thenEnd s3"
    and w4: "walk E cctx elsep (length (basicBlocks s1) + 1) s3 = Returned elseEnd s4"
    and j: "(if thenEnd \<noteq> deadBlock s4 \<or> elseEnd \<noteq> deadBlock s4 then
           (if thenEnd = deadBlock s4 then Returned elseEnd s4
            else if thenEnd = deadBlock s4 then Returned thenEnd s4
            else
              (let (ret, s) = freshBlock (loops cctx) (rubyBlockId cctx) s4
               in andThen (unconditionalJump E thenEnd ret s l) (\<lambda>_ s.
                  andThen (unconditionalJump E elseEnd ret s l) (\<lambda>_ s.
                  Returned ret s))))
         else Returned (deadBlock s4) s4) = Returned r s'"
    by (auto simp: walk.simps [of _ _ "ast_If l cnd thenp elsep"] returned_simps Let_def
          split_beta)
  note f1 = walk_frame [OF w1]
  note c = conditionalJump_Returned [OF cj]
  have f1': "length (basicBlocks s) \<le> length (basicBlocks s1)" "deadBlock s1 = deadBlock s"
    using f1 cur dead by simp_all
  have l2: "length (basicBlocks s2) = length (basicBlocks s1) + 2" "deadBlock s2 = deadBlock s"
    using c f1' by simp_all
  have f3: "length (basicBlocks s2) \<le> length (basicBlocks s3)" "deadBlock s3 = deadBlock s"
    "thenEnd < length (basicBlocks s3)"
    using walk_frame [OF w3] l2 f1' dead by simp_all
  have f4: "length (basicBlocks s3) \<le> length (basicBlocks s4)" "deadBlock s4 = deadBlock s"
    "elseEnd < length (basicBlocks s4)"
    using walk_frame [OF w4] l2 f3 f1' dead by simp_all
  have fin: "if thenEnd = deadBlock s then r = elseEnd \<and> s' = s4
     else r = length (basicBlocks s4) \<and>
          length (basicBlocks s') = length (basicBlocks s4) + 1 \<and>
          exprs (basicBlocks s' ! r) = [] \<and>
          bexit (basicBlocks s' ! r) = unsetExit \<and>
          bexit (basicBlocks s' ! thenEnd) =
            \<lparr>cond = Some noVariable, thenb = Some r, elseb = Some r, exit_loc = l\<rparr> \<and>
          (elseEnd \<noteq> deadBlock s \<longrightarrow>
             bexit (basicBlocks s' ! elseEnd) =
               \<lparr>cond = Some noVariable, thenb = Some r, elseb = Some r, exit_loc = l\<rparr>)"
  proof (cases "thenEnd = deadBlock s")
    case True
    then show ?thesis using j f4 by (auto split: if_splits)
  next
    case False
    let ?s5 = "snd (freshBlock (loops cctx) (rubyBlockId cctx) s4)"
    from False j f4 obtain s6 where
      j1: "unconditionalJump E thenEnd (length (basicBlocks s4)) ?s5 l = Returned () s6"
      and j2: "unconditionalJump E elseEnd (length (basicBlocks s4)) s6 l = Returned () s'"
      and r: "r = length (basicBlocks s4)"
      by (auto simp: returned_simps Let_def split_beta)
    note u1 = unconditionalJump_Returned [OF j1]
    note u2 = unconditionalJump_Returned [OF j2]
    have te: "thenEnd < length (basicBlocks s4)" using f3 f4 by simp
    show ?thesis
      using False f3 f4 te
      by (simp add: r u2 u1)
  qed
  show ?thesis
    using w1 cj w3 w4 fin by blast
qed

text \<open>
  The theorem at \<^verbatim>\<open>if c then 1 else return 2 end\<close>, walked from the entry block of
  the initial CFG: the walk returns, and so does the walk of its condition.
\<close>

theorem walk_If_join_witness:
  "returns (walk exampleExternals exampleContext ifExample 0 initialState)
     (\<lambda>r s'. \<exists>cont s1. walk exampleExternals
          (withTarget exampleContext (fst (newTemporary Names_ifTemp initialState)))
          (ast_Local (Loc 3 4) (LocalVariable (Name ''c'') 0)) 0
          (snd (newTemporary Names_ifTemp initialState)) = Returned cont s1)"
proof -
  have "returns (walk exampleExternals exampleContext ifExample 0 initialState) (\<lambda>r s'. True)"
    by code_simp
  then obtain r s' where
    w: "walk exampleExternals exampleContext ifExample 0 initialState = Returned r s'"
    by (auto simp: returns_iff)
  have "0 < length (basicBlocks initialState)"
    "deadBlock initialState < length (basicBlocks initialState)"
    by (simp_all add: initialState_def)
  from walk_If_join [OF w [unfolded ifExample_def] this]
  show ?thesis
    unfolding w returns_simps
    apply (elim exE conjE)
    subgoal for cont s1 s2 thenEnd s3 elseEnd s4
      by (rule exI [of _ cont], rule exI [of _ s1])
    done
qed

text \<open>
  C1 as stated fails at \<^verbatim>\<open>if c then 1 else return 2 end\<close>. Blocks 2 and 3 are the
  arms; the else arm ends in the dead block (block 1), the then arm's continuation is
  block 2 and is live. The walk does not return block 2: it allocates block 4 as a join
  block, makes block 2 jump to it, and returns it.
\<close>

theorem walk_If_live_then_dead_else:
  "returns (walk exampleExternals exampleContext ifExample 0 initialState)
     (\<lambda>r s'. r = 4 \<and> length (basicBlocks s') = 5 \<and>
        bexit (basicBlocks s' ! 2) =
          \<lparr>cond = Some noVariable, thenb = Some 4, elseb = Some 4, exit_loc = Loc 0 30\<rparr> \<and>
        bexit (basicBlocks s' ! 3) =
          \<lparr>cond = Some noVariable, thenb = Some 1, elseb = Some 1, exit_loc = Loc 17 25\<rparr> \<and>
        deadBlock s' = 1)"
  by code_simp

subsection \<open>\<^verbatim>\<open>T.absurd\<close>\<close>



subsection \<open>\<^verbatim>\<open>while true; break 1; end\<close>\<close>

lemma unconditionalJump_returns:
  assumes "from = deadBlock s \<or> (debug_mode E \<longrightarrow>
      \<not> isCondSet (bexit (basicBlocks s ! from)) \<and> thenb (bexit (basicBlocks s ! from)) = None \<and>
      elseb (bexit (basicBlocks s ! from)) = None)"
  shows "\<exists>s'. unconditionalJump E from to s l = Returned () s'"
  using assms
  by (auto simp: unconditionalJump_def Let_def enforceUnset_def ENFORCE_def andThen_def)

lemma conditionalJump_returns:
  assumes "from = deadBlock s \<or> (debug_mode E \<longrightarrow>
      \<not> isCondSet (bexit (basicBlocks s ! from)) \<and> thenb (bexit (basicBlocks s ! from)) = None \<and>
      elseb (bexit (basicBlocks s ! from)) = None)"
  shows "\<exists>s'. conditionalJump E from c thn els s l = Returned () s'"
  using assms
  by (auto simp: conditionalJump_def Let_def enforceUnset_def ENFORCE_def andThen_def)

lemma walk_While_intro:
  assumes "debug_mode E \<longrightarrow> \<not> isCondSet (bexit (basicBlocks s ! current)) \<or> current = deadBlock s"
    "unconditionalJump E current (length (basicBlocks s))
       (snd (freshBlock (loops cctx) (rubyBlockId cctx)
         (snd (freshBlock (loops cctx) (rubyBlockId cctx)
           (snd (freshBlock (loops cctx + 1) (rubyBlockId cctx) s)))))) l = Returned () s1"
    "walk E (withLoopScope (withTarget cctx (fst (newTemporary Names_whileTemp s1)))
               (length (basicBlocks s)) (length (basicBlocks s) + 2) False)
       cnd (length (basicBlocks s)) (snd (newTemporary Names_whileTemp s1)) = Returned headerEnd s2"
    "conditionalJump E headerEnd (fst (newTemporary Names_whileTemp s1)) (length (basicBlocks s2))
       (length (basicBlocks s) + 1) (snd (freshBlock (loops cctx + 1) (rubyBlockId cctx) s2))
       (expr_loc cnd) = Returned () s3"
    "walk E (withBlockBreakTarget
               (withLoopScope (withTarget cctx (fst (newTemporary Names_statTemp s3)))
                  (length (basicBlocks s)) (length (basicBlocks s) + 2) False)
               (target cctx))
       body (length (basicBlocks s2)) (snd (newTemporary Names_statTemp s3)) = Returned bodyEnd s4"
    "unconditionalJump E bodyEnd (length (basicBlocks s)) s4 l = Returned () s5"
    "unconditionalJump E (length (basicBlocks s) + 1) (length (basicBlocks s) + 2)
       (synthesizeExpr (length (basicBlocks s) + 1) (target cctx) l (Literal Types_nilClass) s5) l =
       Returned () s'"
  shows "walk E cctx (ast_While l cnd body) current s = Returned (length (basicBlocks s) + 2) s'"
  using assms
  by (auto simp: walk.simps [of _ _ "ast_While l cnd body"] returned_simps Let_def split_beta)

lemma walk_Break_intro:
  assumes "debug_mode E \<longrightarrow> \<not> isCondSet (bexit (basicBlocks s ! current)) \<or> current = deadBlock s"
    "breakScope cctx = Some scope"
    "walk E (withTarget cctx (fst (newTemporary Names_returnTemp s))) e current
       (snd (newTemporary Names_returnTemp s)) = Returned afterBreak s1"
    "unconditionalJump E afterBreak scope
          (emplace_back afterBreak (blockBreakTarget cctx) l
             (Ident (fst (newTemporary Names_blockBreakAssign s1)))
             (emplace_back afterBreak (fst (newTemporary Names_blockBreakAssign s1)) l
                (Ident (fst (newTemporary Names_returnTemp s)))
                (snd (newTemporary Names_blockBreakAssign s1)))) l = Returned () s'"
  shows "walk E cctx (ast_Break l e) current s = Returned (deadBlock s') s'"
  using assms
  by (auto simp: walk.simps [of _ _ "ast_Break l e"] returned_simps Let_def split_beta)

lemma walk_while_true_break_returns:
  assumes cur: "current < length (basicBlocks s)" and dead: "deadBlock s < length (basicBlocks s)"
    and entry: "debug_mode E \<longrightarrow> current = deadBlock s \<or>
      \<not> isCondSet (bexit (basicBlocks s ! current)) \<and>
      thenb (bexit (basicBlocks s ! current)) = None \<and>
      elseb (bexit (basicBlocks s ! current)) = None"
  shows "\<exists>s'. walk E cctx (ast_While l (ast_Literal lc (LiteralType_bool True))
                 (ast_Break lb (ast_Literal lv (LiteralType_int 1)))) current s =
               Returned (length (basicBlocks s) + 2) s'"
proof -
  let ?h = "length (basicBlocks s)"
  let ?sA = "snd (freshBlock (loops cctx) (rubyBlockId cctx)
         (snd (freshBlock (loops cctx) (rubyBlockId cctx)
           (snd (freshBlock (loops cctx + 1) (rubyBlockId cctx) s)))))"
  note bs = withBlockBreakTarget_def withLoopScope_def withTarget_def
  have u: "\<not> isCondSet unsetExit" "thenb unsetExit = None" "elseb unsetExit = None"
    by (simp_all add: unsetExit_def isCondSet_def)
  have "\<exists>s1. unconditionalJump E current ?h ?sA l = Returned () s1"
    using cur entry by (intro unconditionalJump_returns) auto
  then obtain s1 where c1: "unconditionalJump E current ?h ?sA l = Returned () s1" ..
  note j1 = unconditionalJump_Returned [OF c1]
  let ?c2 = "withLoopScope (withTarget cctx (fst (newTemporary Names_whileTemp s1))) ?h (?h + 2) False"
  define s2 where "s2 = emplace_back ?h (target ?c2) lc (Literal (LiteralType_bool True))
      (snd (newTemporary Names_whileTemp s1))"
  have c2: "walk E ?c2 (ast_Literal lc (LiteralType_bool True)) ?h
       (snd (newTemporary Names_whileTemp s1)) = Returned ?h s2"
    unfolding walk_Literal_Returned s2_def using cur
    by (simp add: j1 u)
  note l2 = s2_def
  have len2: "length (basicBlocks s2) = ?h + 3" by (simp add: l2 j1)
  have "\<exists>s3. conditionalJump E ?h (fst (newTemporary Names_whileTemp s1)) (length (basicBlocks s2))
       (?h + 1) (snd (freshBlock (loops cctx + 1) (rubyBlockId cctx) s2))
       (expr_loc (ast_Literal lc (LiteralType_bool True))) = Returned () s3"
    using cur
    by (intro conditionalJump_returns)
       (simp add: l2 j1 len2 u)
  then obtain s3 where c3: "conditionalJump E ?h (fst (newTemporary Names_whileTemp s1))
       (length (basicBlocks s2))
       (?h + 1) (snd (freshBlock (loops cctx + 1) (rubyBlockId cctx) s2))
       (expr_loc (ast_Literal lc (LiteralType_bool True))) = Returned () s3" ..
  note j3 = conditionalJump_Returned [OF c3]
  let ?cb = "withBlockBreakTarget
               (withLoopScope (withTarget cctx (fst (newTemporary Names_statTemp s3)))
                  ?h (?h + 2) False)
               (target cctx)"
  let ?sb = "snd (newTemporary Names_statTemp s3)"
  let ?cl = "withTarget ?cb (fst (newTemporary Names_returnTemp ?sb))"
  define sb1 where "sb1 = emplace_back (length (basicBlocks s2)) (target ?cl) lv
      (Literal (LiteralType_int 1)) (snd (newTemporary Names_returnTemp ?sb))"
  have len3: "length (basicBlocks s3) = ?h + 4" by (simp add: j3 len2)
  have d3: "deadBlock s3 = deadBlock s" by (simp add: j3 l2 j1)
  have e3: "bexit (basicBlocks s3 ! (?h + 3)) = unsetExit"
    using cur by (simp add: j3 len2 freshBlock_nth_new)
  have b1: "walk E ?cl (ast_Literal lv (LiteralType_int 1)) (length (basicBlocks s2))
           (snd (newTemporary Names_returnTemp ?sb)) = Returned (length (basicBlocks s2)) sb1"
    unfolding walk_Literal_Returned sb1_def
    by (simp add: len2 e3 u)
  note lb = sb1_def
  let ?sB = "emplace_back (length (basicBlocks s2)) (blockBreakTarget ?cb) lb
             (Ident (fst (newTemporary Names_blockBreakAssign sb1)))
             (emplace_back (length (basicBlocks s2)) (fst (newTemporary Names_blockBreakAssign sb1)) lb
                (Ident (fst (newTemporary Names_returnTemp ?sb)))
                (snd (newTemporary Names_blockBreakAssign sb1)))"
  have "\<exists>s4. unconditionalJump E (length (basicBlocks s2)) (?h + 2) ?sB lb = Returned () s4"
    by (intro unconditionalJump_returns)
       (simp add: lb len2 e3 u)
  then obtain s4 where
    b2: "unconditionalJump E (length (basicBlocks s2)) (?h + 2) ?sB lb = Returned () s4" ..
  note jb = unconditionalJump_Returned [OF b2]
  have d4: "deadBlock s4 = deadBlock s" by (simp add: jb lb d3)
  have c4: "walk E ?cb (ast_Break lb (ast_Literal lv (LiteralType_int 1))) (length (basicBlocks s2))
       ?sb = Returned (deadBlock s) s4"
    using walk_Break_intro [of E ?sb "length (basicBlocks s2)" ?cb "?h + 2"
        "ast_Literal lv (LiteralType_int 1)" "length (basicBlocks s2)" sb1 lb s4] b1 b2
    by (simp add: d4 bs len2 e3 u)
  have "\<exists>s5. unconditionalJump E (deadBlock s) ?h s4 l = Returned () s5"
    by (intro unconditionalJump_returns) (simp add: d4)
  then obtain s5 where c5: "unconditionalJump E (deadBlock s) ?h s4 l = Returned () s5" ..
  note j5 = unconditionalJump_Returned [OF c5]
  have e5: "bexit (basicBlocks s5 ! (?h + 1)) = unsetExit"
    using cur dead by (simp add: j5 jb lb j3 l2 j1 len2 d4 freshBlock_nth_new)
  have "\<exists>s'. unconditionalJump E (?h + 1) (?h + 2)
       (synthesizeExpr (?h + 1) (target cctx) l (Literal Types_nilClass) s5) l = Returned () s'"
    by (intro unconditionalJump_returns) (use e5 in \<open>simp add: u\<close>)
  then obtain s' where c6: "unconditionalJump E (?h + 1) (?h + 2)
       (synthesizeExpr (?h + 1) (target cctx) l (Literal Types_nilClass) s5) l = Returned () s'" ..
  have en: "debug_mode E \<longrightarrow>
      \<not> isCondSet (bexit (basicBlocks s ! current)) \<or> current = deadBlock s"
    using entry by blast
  from walk_While_intro [OF en c1 c2 c3 c4 c5 c6] show ?thesis ..
qed

lemma walk_while_true_break_effect:
  assumes w: "walk E cctx (ast_While l (ast_Literal lc (LiteralType_bool True))
                 (ast_Break lb (ast_Literal lv (LiteralType_int 1)))) current s = Returned r s'"
    and cur: "current < length (basicBlocks s)" and dead: "deadBlock s < length (basicBlocks s)"
  shows "r = length (basicBlocks s) + 2 \<and>
    length (basicBlocks s') = length (basicBlocks s) + 4 \<and>
    exprs (basicBlocks s' ! (length (basicBlocks s) + 3)) =
      [\<lparr>bind_var = LocalVariable Names_returnTemp (temporaryCounter s + 3), bind_loc = lv,
         bind_value = Literal (LiteralType_int 1), isSynthetic = False\<rparr>,
       \<lparr>bind_var = LocalVariable Names_blockBreakAssign (temporaryCounter s + 4), bind_loc = lb,
         bind_value = Ident (LocalVariable Names_returnTemp (temporaryCounter s + 3)),
         isSynthetic = False\<rparr>,
       \<lparr>bind_var = target cctx, bind_loc = lb,
         bind_value = Ident (LocalVariable Names_blockBreakAssign (temporaryCounter s + 4)),
         isSynthetic = False\<rparr>] \<and>
    bexit (basicBlocks s' ! (length (basicBlocks s) + 3)) =
      \<lparr>cond = Some noVariable, thenb = Some (length (basicBlocks s) + 2),
       elseb = Some (length (basicBlocks s) + 2), exit_loc = lb\<rparr> \<and>
    exprs (basicBlocks s' ! (length (basicBlocks s) + 1)) =
      [\<lparr>bind_var = target cctx, bind_loc = l, bind_value = Literal Types_nilClass,
         isSynthetic = True\<rparr>] \<and>
    bexit (basicBlocks s' ! (length (basicBlocks s) + 1)) =
      \<lparr>cond = Some noVariable, thenb = Some (length (basicBlocks s) + 2),
       elseb = Some (length (basicBlocks s) + 2), exit_loc = l\<rparr> \<and>
    exprs (basicBlocks s' ! (length (basicBlocks s) + 2)) = [] \<and>
    bexit (basicBlocks s' ! (length (basicBlocks s) + 2)) = unsetExit \<and>
    (\<exists>sB s4 s5.
       unconditionalJump E (length (basicBlocks s) + 3) (length (basicBlocks s) + 2) sB lb =
         Returned () s4 \<and>
       exprs (basicBlocks sB ! (length (basicBlocks s) + 3)) =
         exprs (basicBlocks s' ! (length (basicBlocks s) + 3)) \<and>
       unconditionalJump E (deadBlock s) (length (basicBlocks s)) s4 l = Returned () s5 \<and>
       unconditionalJump E (length (basicBlocks s) + 1) (length (basicBlocks s) + 2)
         (synthesizeExpr (length (basicBlocks s) + 1) (target cctx) l (Literal Types_nilClass) s5)
         l = Returned () s')"
proof -
  from w obtain s1 headerEnd s2 s3 bodyEnd s4 s5 where
    c1: "unconditionalJump E current (length (basicBlocks s))
       (snd (freshBlock (loops cctx) (rubyBlockId cctx)
         (snd (freshBlock (loops cctx) (rubyBlockId cctx)
           (snd (freshBlock (loops cctx + 1) (rubyBlockId cctx) s)))))) l = Returned () s1"
    and c2: "walk E (withLoopScope (withTarget cctx (fst (newTemporary Names_whileTemp s1)))
               (length (basicBlocks s)) (length (basicBlocks s) + 2) False)
       (ast_Literal lc (LiteralType_bool True)) (length (basicBlocks s))
       (snd (newTemporary Names_whileTemp s1)) = Returned headerEnd s2"
    and c3: "conditionalJump E headerEnd (fst (newTemporary Names_whileTemp s1))
       (length (basicBlocks s2))
       (length (basicBlocks s) + 1) (snd (freshBlock (loops cctx + 1) (rubyBlockId cctx) s2))
       (expr_loc (ast_Literal lc (LiteralType_bool True))) = Returned () s3"
    and c4: "walk E (withBlockBreakTarget
               (withLoopScope (withTarget cctx (fst (newTemporary Names_statTemp s3)))
                  (length (basicBlocks s)) (length (basicBlocks s) + 2) False)
               (target cctx))
       (ast_Break lb (ast_Literal lv (LiteralType_int 1))) (length (basicBlocks s2))
       (snd (newTemporary Names_statTemp s3)) = Returned bodyEnd s4"
    and c5: "unconditionalJump E bodyEnd (length (basicBlocks s)) s4 l = Returned () s5"
    and c6: "unconditionalJump E (length (basicBlocks s) + 1) (length (basicBlocks s) + 2)
       (synthesizeExpr (length (basicBlocks s) + 1) (target cctx) l (Literal Types_nilClass) s5) l =
       Returned () s'"
    and r: "r = length (basicBlocks s) + 2"
    by (rule walk_While_chain)
  let ?cb = "withBlockBreakTarget
               (withLoopScope (withTarget cctx (fst (newTemporary Names_statTemp s3)))
                  (length (basicBlocks s)) (length (basicBlocks s) + 2) False)
               (target cctx)"
  let ?sb = "snd (newTemporary Names_statTemp s3)"
  from c4 obtain afterBreak sb1 where
    b1: "walk E (withTarget ?cb (fst (newTemporary Names_returnTemp ?sb)))
           (ast_Literal lv (LiteralType_int 1)) (length (basicBlocks s2))
           (snd (newTemporary Names_returnTemp ?sb)) = Returned afterBreak sb1"
    and b2: "unconditionalJump E afterBreak
       (case breakScope ?cb of None \<Rightarrow> deadBlock sb1 | Some scope \<Rightarrow> scope)
       ((case breakScope ?cb of None \<Rightarrow> beginError lb NoNextScope | Some scope \<Rightarrow> (\<lambda>s. s))
          (emplace_back afterBreak (blockBreakTarget ?cb) lb
             (Ident (fst (newTemporary Names_blockBreakAssign sb1)))
             (emplace_back afterBreak (fst (newTemporary Names_blockBreakAssign sb1)) lb
                (Ident (fst (newTemporary Names_returnTemp ?sb)))
                (snd (newTemporary Names_blockBreakAssign sb1))))) lb = Returned () s4"
    and b3: "bodyEnd = deadBlock s4"
    by (rule walk_Break_chain)
  note bs = withBlockBreakTarget_def withLoopScope_def withTarget_def
  note j1 = unconditionalJump_Returned [OF c1]
  note l2 = c2 [unfolded walk_Literal_Returned]
  note j3 = conditionalJump_Returned [OF c3]
  note lb = b1 [unfolded walk_Literal_Returned]
  note jb = unconditionalJump_Returned [OF b2]
  note j5 = unconditionalJump_Returned [OF c5]
  note j6 = unconditionalJump_Returned [OF c6]
  have len: "length (basicBlocks s1) = length (basicBlocks s) + 3"
    "length (basicBlocks s2) = length (basicBlocks s) + 3"
    "length (basicBlocks s3) = length (basicBlocks s) + 4"
    "length (basicBlocks sb1) = length (basicBlocks s) + 4"
    "length (basicBlocks s4) = length (basicBlocks s) + 4"
    "length (basicBlocks s5) = length (basicBlocks s) + 4"
    "length (basicBlocks s') = length (basicBlocks s) + 4"
    by (simp_all add: j1 l2 j3 lb jb j5 j6 bs)
  have dd: "deadBlock s1 = deadBlock s" "deadBlock s2 = deadBlock s" "deadBlock s3 = deadBlock s"
    "deadBlock sb1 = deadBlock s" "deadBlock s4 = deadBlock s" "deadBlock s5 = deadBlock s"
    by (simp_all add: j1 l2 j3 lb jb j5 j6 bs)
  have tc: "temporaryCounter s1 = temporaryCounter s" "temporaryCounter s3 = temporaryCounter s + 1"
    "temporaryCounter sb1 = temporaryCounter s + 3"
    by (simp_all add: j1 l2 j3 lb)
  have main: "r = length (basicBlocks s) + 2 \<and>
    length (basicBlocks s') = length (basicBlocks s) + 4 \<and>
    exprs (basicBlocks s' ! (length (basicBlocks s) + 3)) =
      [\<lparr>bind_var = LocalVariable Names_returnTemp (temporaryCounter s + 3), bind_loc = lv,
         bind_value = Literal (LiteralType_int 1), isSynthetic = False\<rparr>,
       \<lparr>bind_var = LocalVariable Names_blockBreakAssign (temporaryCounter s + 4), bind_loc = lb,
         bind_value = Ident (LocalVariable Names_returnTemp (temporaryCounter s + 3)),
         isSynthetic = False\<rparr>,
       \<lparr>bind_var = target cctx, bind_loc = lb,
         bind_value = Ident (LocalVariable Names_blockBreakAssign (temporaryCounter s + 4)),
         isSynthetic = False\<rparr>] \<and>
    bexit (basicBlocks s' ! (length (basicBlocks s) + 3)) =
      \<lparr>cond = Some noVariable, thenb = Some (length (basicBlocks s) + 2),
       elseb = Some (length (basicBlocks s) + 2), exit_loc = lb\<rparr> \<and>
    exprs (basicBlocks s' ! (length (basicBlocks s) + 1)) =
      [\<lparr>bind_var = target cctx, bind_loc = l, bind_value = Literal Types_nilClass,
         isSynthetic = True\<rparr>] \<and>
    bexit (basicBlocks s' ! (length (basicBlocks s) + 1)) =
      \<lparr>cond = Some noVariable, thenb = Some (length (basicBlocks s) + 2),
       elseb = Some (length (basicBlocks s) + 2), exit_loc = l\<rparr> \<and>
    exprs (basicBlocks s' ! (length (basicBlocks s) + 2)) = [] \<and>
    bexit (basicBlocks s' ! (length (basicBlocks s) + 2)) = unsetExit"
    using dead cur
    by (simp add: r len j6 j5 jb bs lb j3 l2 j1 dd tc b3 freshBlock_nth_new)
  let ?sB = "emplace_back (length (basicBlocks s) + 3) (target cctx) lb
             (Ident (fst (newTemporary Names_blockBreakAssign sb1)))
             (emplace_back (length (basicBlocks s) + 3)
                (fst (newTemporary Names_blockBreakAssign sb1)) lb
                (Ident (fst (newTemporary Names_returnTemp ?sb)))
                (snd (newTemporary Names_blockBreakAssign sb1)))"
  have ab: "afterBreak = length (basicBlocks s) + 3" using lb len by simp
  have o1: "unconditionalJump E (length (basicBlocks s) + 3) (length (basicBlocks s) + 2) ?sB lb =
      Returned () s4"
    using b2 unfolding ab by (simp add: bs)
  have o2: "exprs (basicBlocks ?sB ! (length (basicBlocks s) + 3)) =
      exprs (basicBlocks s' ! (length (basicBlocks s) + 3))"
    using dead cur
    by (simp add: r len j6 j5 jb bs lb j3 l2 j1 dd tc b3 freshBlock_nth_new)
  have o3: "unconditionalJump E (deadBlock s) (length (basicBlocks s)) s4 l = Returned () s5"
    using c5 by (simp add: b3 dd)
  from o1 o2 o3 c6 have "\<exists>sB s4 s5.
       unconditionalJump E (length (basicBlocks s) + 3) (length (basicBlocks s) + 2) sB lb =
         Returned () s4 \<and>
       exprs (basicBlocks sB ! (length (basicBlocks s) + 3)) =
         exprs (basicBlocks s' ! (length (basicBlocks s) + 3)) \<and>
       unconditionalJump E (deadBlock s) (length (basicBlocks s)) s4 l = Returned () s5 \<and>
       unconditionalJump E (length (basicBlocks s) + 1) (length (basicBlocks s) + 2)
         (synthesizeExpr (length (basicBlocks s) + 1) (target cctx) l (Literal Types_nilClass) s5)
         l = Returned () s'"
    by blast
  with main show ?thesis by blast
qed

text \<open>
  C5. Take the walk of \<^verbatim>\<open>while true; break 1; end\<close> from a block of a CFG that holds
  its dead block, and let \<open>h\<close> be the number of blocks before. If the current
  block is the dead block or its terminator is unset (or the checks are compiled out),
  the walk returns, and returns block \<open>h + 2\<close>. Whenever it returns, four blocks
  have been allocated: the header \<open>h\<close>, the break-not-called block
  \<open>h + 1\<close>, the continue block \<open>h + 2\<close> and the body \<open>h + 3\<close>. The body
  holds the literal, walked into a fresh \<open>returnTemp\<close>, then the assignment of that
  temporary to a fresh \<open>blockBreakAssign\<close>, then the assignment of
  \<open>blockBreakAssign\<close> to the block-break target, which is the target of the loop;
  it jumps to the continue block, the break scope. The break-not-called block holds
  one instruction, a synthetic literal nil bound to the loop's target, and jumps to the
  continue block. The continue block is empty, has no terminator, and is returned.
  Both jumps are made by \<^verbatim>\<open>unconditionalJump\<close>: that of the body once its three
  instructions are there, that of the break-not-called block last, after the jump from
  the dead block (what the walk of \<^verbatim>\<open>break\<close> returns) to the header.
\<close>

theorem walk_while_true_break:
  assumes cur: "current < length (basicBlocks s)" and dead: "deadBlock s < length (basicBlocks s)"
  shows "((debug_mode E \<longrightarrow> current = deadBlock s \<or>
            \<not> isCondSet (bexit (basicBlocks s ! current)) \<and>
            thenb (bexit (basicBlocks s ! current)) = None \<and>
            elseb (bexit (basicBlocks s ! current)) = None) \<longrightarrow>
          (\<exists>s'. walk E cctx (ast_While l (ast_Literal lc (LiteralType_bool True))
                  (ast_Break lb (ast_Literal lv (LiteralType_int 1)))) current s =
                Returned (length (basicBlocks s) + 2) s')) \<and>
    (walk E cctx (ast_While l (ast_Literal lc (LiteralType_bool True))
        (ast_Break lb (ast_Literal lv (LiteralType_int 1)))) current s = Returned r s' \<longrightarrow>
    r = length (basicBlocks s) + 2 \<and>
    length (basicBlocks s') = length (basicBlocks s) + 4 \<and>
    exprs (basicBlocks s' ! (length (basicBlocks s) + 3)) =
      [\<lparr>bind_var = LocalVariable Names_returnTemp (temporaryCounter s + 3), bind_loc = lv,
         bind_value = Literal (LiteralType_int 1), isSynthetic = False\<rparr>,
       \<lparr>bind_var = LocalVariable Names_blockBreakAssign (temporaryCounter s + 4), bind_loc = lb,
         bind_value = Ident (LocalVariable Names_returnTemp (temporaryCounter s + 3)),
         isSynthetic = False\<rparr>,
       \<lparr>bind_var = target cctx, bind_loc = lb,
         bind_value = Ident (LocalVariable Names_blockBreakAssign (temporaryCounter s + 4)),
         isSynthetic = False\<rparr>] \<and>
    bexit (basicBlocks s' ! (length (basicBlocks s) + 3)) =
      \<lparr>cond = Some noVariable, thenb = Some (length (basicBlocks s) + 2),
       elseb = Some (length (basicBlocks s) + 2), exit_loc = lb\<rparr> \<and>
    exprs (basicBlocks s' ! (length (basicBlocks s) + 1)) =
      [\<lparr>bind_var = target cctx, bind_loc = l, bind_value = Literal Types_nilClass,
         isSynthetic = True\<rparr>] \<and>
    bexit (basicBlocks s' ! (length (basicBlocks s) + 1)) =
      \<lparr>cond = Some noVariable, thenb = Some (length (basicBlocks s) + 2),
       elseb = Some (length (basicBlocks s) + 2), exit_loc = l\<rparr> \<and>
    exprs (basicBlocks s' ! (length (basicBlocks s) + 2)) = [] \<and>
    bexit (basicBlocks s' ! (length (basicBlocks s) + 2)) = unsetExit \<and>
    (\<exists>sB s4 s5.
       unconditionalJump E (length (basicBlocks s) + 3) (length (basicBlocks s) + 2) sB lb =
         Returned () s4 \<and>
       exprs (basicBlocks sB ! (length (basicBlocks s) + 3)) =
         exprs (basicBlocks s' ! (length (basicBlocks s) + 3)) \<and>
       unconditionalJump E (deadBlock s) (length (basicBlocks s)) s4 l = Returned () s5 \<and>
       unconditionalJump E (length (basicBlocks s) + 1) (length (basicBlocks s) + 2)
         (synthesizeExpr (length (basicBlocks s) + 1) (target cctx) l (Literal Types_nilClass) s5)
         l = Returned () s'))"
  using walk_while_true_break_returns [OF cur dead, of E cctx l lc lb lv]
    walk_while_true_break_effect [OF _ cur dead, of E cctx l lc lb lv r s']
  by blast

text \<open>
  The theorem on the initial CFG, where the four blocks are 2, 3, 4 and 5: the walk
  returns.
\<close>

theorem walk_while_true_break_witness:
  "returns (walk exampleExternals exampleContext whileExample 0 initialState)
     (\<lambda>r s'. r = 4 \<and>
        bexit (basicBlocks s' ! 5) =
          \<lparr>cond = Some noVariable, thenb = Some 4, elseb = Some 4, exit_loc = Loc 12 19\<rparr> \<and>
        exprs (basicBlocks s' ! 3) =
          [\<lparr>bind_var = LocalVariable Names_returnTemp 0, bind_loc = Loc 0 25,
            bind_value = Literal Types_nilClass, isSynthetic = True\<rparr>])"
proof -
  have h: "0 < length (basicBlocks initialState)"
    "deadBlock initialState < length (basicBlocks initialState)"
    by (simp_all add: initialState_def)
  have "\<exists>s'. walk exampleExternals exampleContext whileExample 0 initialState =
          Returned (length (basicBlocks initialState) + 2) s'"
    unfolding whileExample_def
    by (rule walk_while_true_break [OF h, THEN conjunct1, rule_format])
       (simp add: initialState_def emptyBlock_def unsetExit_def isCondSet_def)
  then obtain r s' where
    w: "walk exampleExternals exampleContext whileExample 0 initialState = Returned r s'"
    by blast
  from walk_while_true_break [OF h, THEN conjunct2, rule_format, OF w [unfolded whileExample_def]]
  show ?thesis
    unfolding w returns_simps
    by (simp add: initialState_def exampleContext_def eval_nat_numeral)
qed

subsection \<open>A send with an iterator block\<close>

text \<open>
  C6, as the code has it. Let a walk of a send with a block return, the send not being
  one of \<open>absurd\<close> to the constant \<open>T\<close>, from a block of a CFG that holds its
  dead block. Then the receiver and the arguments have been walked, and with \<open>h\<close>
  the number of blocks after them and \<open>cur2\<close> their continuation: the header is
  \<open>h\<close>, the solve-constraint block \<open>h + 1\<close>, the post block \<open>h + 2\<close> and the
  body \<open>h + 3\<close>. The header branches on \<open>blockCall\<close> to the body and else to the
  solve-constraint block. The body starts with \<open>LoadSelf\<close> of the link and self,
  bound to self, and \<open>LoadYieldParams\<close> of the link, bound to a fresh \<open>blkArg\<close>.
  The post block holds one instruction, the synthetic assignment of the \<open>selfRestore\<close>
  temporary to self, has no terminator, and is returned. The solve-constraint block
  holds \<open>SolveConstraint\<close> bound to the target and jumps to the post block. The
  header's branch is made by \<^verbatim>\<open>conditionalJump\<close>, on a CFG of \<open>h + 4\<close> blocks in
  which the header's terminator is unset and the terminators of the blocks before
  \<open>h\<close> are as the arguments left them; on its result \<open>cur2\<close> jumps to the header by
  \<^verbatim>\<open>unconditionalJump\<close>. If \<open>cur2\<close> is live, its terminator is that jump (a jump
  from the dead block writes no terminator).
\<close>

theorem walk_Send_with_block:
  assumes w: "walk E cctx (ast_Send l recv fn args (Some (BlockNode blockLoc blockArgExprs blockBody))
                 privateOk) current s = Returned r s'"
    and nt: "\<not> (fn = Names_absurd \<and> cast_ConstantLit_symbol recv = Some Symbols_T)"
    and cur: "current < length (basicBlocks s)" and dead: "deadBlock s < length (basicBlocks s)"
  shows "\<exists>cur1 s1 argTemps cur2 s2.
    walk E (withTarget cctx (fst (newTemporary Names_statTemp s))) recv current
      (snd (newTemporary Names_statTemp s)) = Returned cur1 s1 \<and>
    walkEach E cctx Names_statTemp args cur1 s1 = Returned (argTemps, cur2) s2 \<and>
    (let h = length (basicBlocks s2);
         lnk = \<lparr>link_fun = fn,
                argFlags = map (\<lambda>e. \<lparr>isKeyword = keyword e, isRepeated = repeated e,
                                       isDefault = (arg_default e \<noteq> None),
                                       isShadow = shadow e\<rparr>)
                             (parseArgs E (ctx cctx) blockArgExprs),
                link_rubyBlockId = maxRubyBlockId s2 + 1\<rparr>
     in r = h + 2 \<and> h + 3 < length (basicBlocks s') \<and>
        bexit (basicBlocks s' ! h) =
          \<lparr>cond = Some blockCall, thenb = Some (h + 3), elseb = Some (h + 1), exit_loc = l\<rparr> \<and>
        prefix [\<lparr>bind_var = selfVariable, bind_loc = l,
                  bind_value = LoadSelf lnk selfVariable, isSynthetic = False\<rparr>,
                \<lparr>bind_var = LocalVariable Names_blkArg (temporaryCounter s2 + 3),
                  bind_loc = blockLoc, bind_value = LoadYieldParams lnk, isSynthetic = False\<rparr>]
          (exprs (basicBlocks s' ! (h + 3))) \<and>
        exprs (basicBlocks s' ! (h + 2)) =
          [\<lparr>bind_var = selfVariable, bind_loc = l,
            bind_value = Ident (LocalVariable Names_selfRestore (temporaryCounter s2 + 2)),
            isSynthetic = True\<rparr>] \<and>
        bexit (basicBlocks s' ! (h + 2)) = unsetExit \<and>
        exprs (basicBlocks s' ! (h + 1)) =
          [\<lparr>bind_var = target cctx, bind_loc = l,
            bind_value = SolveConstraint lnk
                           (LocalVariable Names_blockPreCallTemp (temporaryCounter s2 + 1)),
            isSynthetic = False\<rparr>] \<and>
        bexit (basicBlocks s' ! (h + 1)) =
          \<lparr>cond = Some noVariable, thenb = Some (h + 2), elseb = Some (h + 2), exit_loc = l\<rparr> \<and>
        (cur2 \<noteq> deadBlock s \<longrightarrow>
           bexit (basicBlocks s' ! cur2) =
             \<lparr>cond = Some noVariable, thenb = Some h, elseb = Some h, exit_loc = l\<rparr>) \<and>
        (\<exists>sA s3 s4.
           length (basicBlocks sA) = h + 4 \<and> deadBlock sA = deadBlock s \<and>
           (\<forall>x<h. bexit (basicBlocks sA ! x) = bexit (basicBlocks s2 ! x)) \<and>
           bexit (basicBlocks sA ! h) = unsetExit \<and>
           conditionalJump E h blockCall (h + 3) (h + 1) sA l = Returned () s3 \<and>
           unconditionalJump E cur2 h s3 l = Returned () s4))"
proof -
  define G where "G \<longleftrightarrow> (\<exists>cur1 s1 argTemps cur2 s2.
    walk E (withTarget cctx (fst (newTemporary Names_statTemp s))) recv current
      (snd (newTemporary Names_statTemp s)) = Returned cur1 s1 \<and>
    walkEach E cctx Names_statTemp args cur1 s1 = Returned (argTemps, cur2) s2 \<and>
    (let h = length (basicBlocks s2);
         lnk = \<lparr>link_fun = fn,
                argFlags = map (\<lambda>e. \<lparr>isKeyword = keyword e, isRepeated = repeated e,
                                       isDefault = (arg_default e \<noteq> None),
                                       isShadow = shadow e\<rparr>)
                             (parseArgs E (ctx cctx) blockArgExprs),
                link_rubyBlockId = maxRubyBlockId s2 + 1\<rparr>
     in r = h + 2 \<and> h + 3 < length (basicBlocks s') \<and>
        bexit (basicBlocks s' ! h) =
          \<lparr>cond = Some blockCall, thenb = Some (h + 3), elseb = Some (h + 1), exit_loc = l\<rparr> \<and>
        prefix [\<lparr>bind_var = selfVariable, bind_loc = l,
                  bind_value = LoadSelf lnk selfVariable, isSynthetic = False\<rparr>,
                \<lparr>bind_var = LocalVariable Names_blkArg (temporaryCounter s2 + 3),
                  bind_loc = blockLoc, bind_value = LoadYieldParams lnk, isSynthetic = False\<rparr>]
          (exprs (basicBlocks s' ! (h + 3))) \<and>
        exprs (basicBlocks s' ! (h + 2)) =
          [\<lparr>bind_var = selfVariable, bind_loc = l,
            bind_value = Ident (LocalVariable Names_selfRestore (temporaryCounter s2 + 2)),
            isSynthetic = True\<rparr>] \<and>
        bexit (basicBlocks s' ! (h + 2)) = unsetExit \<and>
        exprs (basicBlocks s' ! (h + 1)) =
          [\<lparr>bind_var = target cctx, bind_loc = l,
            bind_value = SolveConstraint lnk
                           (LocalVariable Names_blockPreCallTemp (temporaryCounter s2 + 1)),
            isSynthetic = False\<rparr>] \<and>
        bexit (basicBlocks s' ! (h + 1)) =
          \<lparr>cond = Some noVariable, thenb = Some (h + 2), elseb = Some (h + 2), exit_loc = l\<rparr> \<and>
        (cur2 \<noteq> deadBlock s \<longrightarrow>
           bexit (basicBlocks s' ! cur2) =
             \<lparr>cond = Some noVariable, thenb = Some h, elseb = Some h, exit_loc = l\<rparr>) \<and>
        (\<exists>sA s3 s4.
           length (basicBlocks sA) = h + 4 \<and> deadBlock sA = deadBlock s \<and>
           (\<forall>x<h. bexit (basicBlocks sA ! x) = bexit (basicBlocks s2 ! x)) \<and>
           bexit (basicBlocks sA ! h) = unsetExit \<and>
           conditionalJump E h blockCall (h + 3) (h + 1) sA l = Returned () s3 \<and>
           unconditionalJump E cur2 h s3 l = Returned () s4)))"
  have G
  using w nt
  apply (simp add: walk.simps [of _ _ "ast_Send l recv fn args
                      (Some (BlockNode blockLoc blockArgExprs blockBody)) privateOk"]
       returned_simps Let_def split_beta)
  apply (elim exE conjE)
  subgoal premises p for cur1 s1 argTemps cur2 s2 s3 s4 blockLast s5 s6 s7
  proof -
    let ?h = "length (basicBlocks s2)"
    have a1: "length (basicBlocks s) \<le> length (basicBlocks s1)" "deadBlock s1 = deadBlock s"
      "cur1 < length (basicBlocks s1)"
      using walk_frame [OF p(3)] cur dead by simp_all
    have a2: "length (basicBlocks s1) \<le> ?h" "deadBlock s2 = deadBlock s" "cur2 < ?h"
      using walkEach_frame [OF p(4)] a1 dead by simp_all
    have dh: "deadBlock s < ?h" using a1 a2 dead by simp
    note j5 = conditionalJump_Returned [OF p(5)]
    note j6 = unconditionalJump_Returned [OF p(6)]
    have l4: "length (basicBlocks s4) = ?h + 4" "deadBlock s4 = deadBlock s"
      by (simp_all add: j6 j5 a2)
    note f7 = walk_frame [OF p(7)]
    have a7: "frame (?h + 4) {?h + 3} (snd (newTemporary Names_blockReturnTemp s4)) s5"
      "?h + 4 \<le> length (basicBlocks s5)" "deadBlock s5 = deadBlock s"
      "blockLast = ?h + 3 \<or> blockLast = deadBlock s \<or> ?h + 4 \<le> blockLast"
      "blockLast < length (basicBlocks s5)"
      using f7 l4 dh by (simp_all add: eval_nat_numeral)
    note j8 = unconditionalJump_Returned [OF p(8)]
    note j9 = unconditionalJump_Returned [OF p(9)]
    have b5: "bexit (basicBlocks s5 ! x) = bexit (basicBlocks s4 ! x)" if "x < ?h + 3" for x
      using frame_bexit [OF a7(1), of x] that by simp
    have e5: "exprs (basicBlocks s5 ! x) = exprs (basicBlocks s4 ! x)"
      if "x < ?h + 3" "x \<noteq> deadBlock s" for x
      using frame_exprs [OF a7(1), of x] that l4 by simp
    have p5: "prefix (exprs (basicBlocks s4 ! (?h + 3))) (exprs (basicBlocks s5 ! (?h + 3)))"
      using frame_prefix [OF a7(1), of "?h + 3"] l4 by simp
    have b6: "bexit (basicBlocks s6 ! x) = bexit (basicBlocks s5 ! x)" if "x < ?h + 3" for x
      using that a7 by (auto simp: j8 split_beta Let_def)
    have e6: "exprs (basicBlocks s6 ! x) = exprs (basicBlocks s5 ! x)"
      if "x < ?h + 3" "x \<noteq> deadBlock s" for x
      using that a7 by (auto simp: j8 split_beta Let_def)
    have p6: "prefix (exprs (basicBlocks s5 ! (?h + 3))) (exprs (basicBlocks s6 ! (?h + 3)))"
      using a7 by (auto simp: j8 split_beta Let_def)
    have l6: "length (basicBlocks s6) = length (basicBlocks s5)" "deadBlock s6 = deadBlock s"
      using a7 by (auto simp: j8 split_beta Let_def)
    have s': "s' = synthesizeExpr (?h + 2) selfVariable l
          (Ident (LocalVariable Names_selfRestore (2 + temporaryCounter s2)))
          (emplace_back (?h + 1) (target cctx) l
            (SolveConstraint
              \<lparr>link_fun = fn,
                 argFlags = map (\<lambda>e. \<lparr>isKeyword = keyword e, isRepeated = repeated e,
                               isDefault = (arg_default e \<noteq> None),
                               isShadow = shadow e\<rparr>)
                    (parseArgs E (ctx cctx) blockArgExprs),
                 link_rubyBlockId = maxRubyBlockId s2 + 1\<rparr>
              (LocalVariable Names_blockPreCallTemp (temporaryCounter s2 + 1)))
            s7)"
      using p(11) by simp
    have r: "r = ?h + 2" using p(10) by simp
    have hd: "bexit (basicBlocks s' ! ?h) =
          \<lparr>cond = Some blockCall, thenb = Some (?h + 3), elseb = Some (?h + 1), exit_loc = l\<rparr>"
      using a2 dh by (simp add: s' j9 b6 b5 j6 j5)
    have body: "prefix [\<lparr>bind_var = selfVariable, bind_loc = l,
                  bind_value = LoadSelf \<lparr>link_fun = fn,
                 argFlags = map (\<lambda>e. \<lparr>isKeyword = keyword e, isRepeated = repeated e,
                               isDefault = (arg_default e \<noteq> None),
                               isShadow = shadow e\<rparr>)
                    (parseArgs E (ctx cctx) blockArgExprs),
                 link_rubyBlockId = maxRubyBlockId s2 + 1\<rparr> selfVariable, isSynthetic = False\<rparr>,
                \<lparr>bind_var = LocalVariable Names_blkArg (temporaryCounter s2 + 3),
                  bind_loc = blockLoc, bind_value = LoadYieldParams \<lparr>link_fun = fn,
                 argFlags = map (\<lambda>e. \<lparr>isKeyword = keyword e, isRepeated = repeated e,
                               isDefault = (arg_default e \<noteq> None),
                               isShadow = shadow e\<rparr>)
                    (parseArgs E (ctx cctx) blockArgExprs),
                 link_rubyBlockId = maxRubyBlockId s2 + 1\<rparr>, isSynthetic = False\<rparr>]
          (exprs (basicBlocks s' ! (?h + 3)))"
    proof -
      have "prefix [\<lparr>bind_var = selfVariable, bind_loc = l,
                  bind_value = LoadSelf \<lparr>link_fun = fn,
                 argFlags = map (\<lambda>e. \<lparr>isKeyword = keyword e, isRepeated = repeated e,
                               isDefault = (arg_default e \<noteq> None),
                               isShadow = shadow e\<rparr>)
                    (parseArgs E (ctx cctx) blockArgExprs),
                 link_rubyBlockId = maxRubyBlockId s2 + 1\<rparr> selfVariable, isSynthetic = False\<rparr>,
                \<lparr>bind_var = LocalVariable Names_blkArg (temporaryCounter s2 + 3),
                  bind_loc = blockLoc, bind_value = LoadYieldParams \<lparr>link_fun = fn,
                 argFlags = map (\<lambda>e. \<lparr>isKeyword = keyword e, isRepeated = repeated e,
                               isDefault = (arg_default e \<noteq> None),
                               isShadow = shadow e\<rparr>)
                    (parseArgs E (ctx cctx) blockArgExprs),
                 link_rubyBlockId = maxRubyBlockId s2 + 1\<rparr>, isSynthetic = False\<rparr>]
          (exprs (basicBlocks s4 ! (?h + 3)))"
        apply (simp add: j6 j5 eval_nat_numeral)
        apply (rule prefix_order.trans [OF _ bindBlockArgs_prefix])
        apply (simp add: freshBlock_nth_new add.commute)
        done
      also note p5
      also note p6
      also have "exprs (basicBlocks s6 ! (?h + 3)) = exprs (basicBlocks s' ! (?h + 3))"
        by (simp add: s' j9)
      finally show ?thesis .
    qed
    have post: "exprs (basicBlocks s' ! (?h + 2)) =
          [\<lparr>bind_var = selfVariable, bind_loc = l,
            bind_value = Ident (LocalVariable Names_selfRestore (temporaryCounter s2 + 2)),
            isSynthetic = True\<rparr>]"
      "bexit (basicBlocks s' ! (?h + 2)) = unsetExit"
      using a2 dh a7 l6
      by (simp_all add: s' j9 e6 b6 e5 b5 j6 j5 bindBlockArgs_effect freshBlock_nth_new
            add.commute eval_nat_numeral)
    have sc: "exprs (basicBlocks s' ! (?h + 1)) =
          [\<lparr>bind_var = target cctx, bind_loc = l,
            bind_value = SolveConstraint \<lparr>link_fun = fn,
                 argFlags = map (\<lambda>e. \<lparr>isKeyword = keyword e, isRepeated = repeated e,
                               isDefault = (arg_default e \<noteq> None),
                               isShadow = shadow e\<rparr>)
                    (parseArgs E (ctx cctx) blockArgExprs),
                 link_rubyBlockId = maxRubyBlockId s2 + 1\<rparr>
                           (LocalVariable Names_blockPreCallTemp (temporaryCounter s2 + 1)),
            isSynthetic = False\<rparr>]"
      "bexit (basicBlocks s' ! (?h + 1)) =
          \<lparr>cond = Some noVariable, thenb = Some (?h + 2), elseb = Some (?h + 2), exit_loc = l\<rparr>"
      using a2 dh a7 l6
      by (simp_all add: s' j9 e6 b6 e5 b5 j6 j5 bindBlockArgs_effect freshBlock_nth_new
            add.commute eval_nat_numeral)
    have c2: "bexit (basicBlocks s' ! cur2) =
             \<lparr>cond = Some noVariable, thenb = Some ?h, elseb = Some ?h, exit_loc = l\<rparr>"
      if "cur2 \<noteq> deadBlock s"
      using that a2 dh by (simp add: s' j9 b6 b5 j6 j5)
    have len: "?h + 3 < length (basicBlocks s')"
      using a7 l6 by (simp add: s' j9)
    have "\<exists>sA. conditionalJump E ?h blockCall (Suc (Suc (Suc ?h))) (Suc ?h) sA l = Returned () s3 \<and>
        length (basicBlocks sA) = ?h + 4 \<and> deadBlock sA = deadBlock s \<and>
        (\<forall>x<?h. bexit (basicBlocks sA ! x) = bexit (basicBlocks s2 ! x)) \<and>
        bexit (basicBlocks sA ! ?h) = unsetExit"
      apply (rule exI, rule conjI, rule p(5))
      using a2
      by (simp add: bindBlockArgs_effect freshBlock_nth_new add.commute eval_nat_numeral)
    then have ops: "\<exists>sA s3 s4.
           length (basicBlocks sA) = ?h + 4 \<and> deadBlock sA = deadBlock s \<and>
           (\<forall>x<?h. bexit (basicBlocks sA ! x) = bexit (basicBlocks s2 ! x)) \<and>
           bexit (basicBlocks sA ! ?h) = unsetExit \<and>
           conditionalJump E ?h blockCall (?h + 3) (?h + 1) sA l = Returned () s3 \<and>
           unconditionalJump E cur2 ?h s3 l = Returned () s4"
      using p(6) by (auto simp: eval_nat_numeral)
    show ?thesis
      unfolding G_def
      apply (rule exI [of _ cur1], rule exI [of _ s1], rule exI [of _ argTemps],
             rule exI [of _ cur2], rule exI [of _ s2])
      using p(3) p(4) r len hd body post sc c2 ops
      by (simp add: Let_def)
  qed
  done
  then show ?thesis unfolding G_def .
qed

lemma initialState_simps:
  "deadBlock initialState = 1" "length (basicBlocks initialState) = 2"
  by (simp_all add: initialState_def)

text \<open>
  The theorem at \<^verbatim>\<open>x.each { next 1 }\<close>, walked from the entry block of the initial
  CFG with the checks compiled out: the walk returns.
\<close>

theorem walk_Send_with_block_witness:
  "returns (walk releaseExternals exampleContext blockExample 0 initialState)
     (\<lambda>r s'. \<exists>h. r = h + 2 \<and>
        bexit (basicBlocks s' ! h) =
          \<lparr>cond = Some blockCall, thenb = Some (h + 3), elseb = Some (h + 1),
           exit_loc = Loc 0 20\<rparr>)"
proof -
  have "returns (walk releaseExternals exampleContext blockExample 0 initialState) (\<lambda>r s'. True)"
    by (simp add: walk.simps blockExample_def releaseExternals_def exampleExternals_def
          exampleContext_def Let_def split_beta unconditionalJump_def conditionalJump_def
          enforceUnset_def initialState_simps withTarget_def withLoopScope_def
          withBlockBreakTarget_def withSendAndBlockLink_def withRubyBlockId_def)
  then obtain r s' where
    w: "walk releaseExternals exampleContext blockExample 0 initialState = Returned r s'"
    by (auto simp: returns_iff)
  have "\<not> (Name ''each'' = Names_absurd \<and>
          cast_ConstantLit_symbol (ast_Local (Loc 0 1) (LocalVariable (Name ''x'') 0)) =
            Some Symbols_T)"
    "0 < length (basicBlocks initialState)"
    "deadBlock initialState < length (basicBlocks initialState)"
    by (simp_all add: initialState_def)
  from walk_Send_with_block [OF w [unfolded blockExample_def] this]
  show ?thesis
    unfolding w returns_simps Let_def
    apply (elim exE conjE)
    subgoal for cur1 s1 argTemps cur2 s2
      by (rule exI [of _ "length (basicBlocks s2)"]) simp
    done
qed

text \<open>
  C6 as stated fails at \<^verbatim>\<open>T.absurd(x) { }\<close>, a send that carries a block: the walk
  returns the current block, allocates no block, sets no terminator, and emits the two
  instructions of \<^verbatim>\<open>T.absurd(x)\<close> only.
\<close>

theorem walk_T_absurd_with_block:
  "returns (walk exampleExternals exampleContext
              (absurdExample [ast_Local (Loc 9 10) (LocalVariable (Name ''x'') 0)]
                 (Some (BlockNode (Loc 12 20) [] ast_EmptyTree)))
              0 initialState)
     (\<lambda>r s'. r = 0 \<and> length (basicBlocks s') = 2 \<and>
        bexit (basicBlocks s' ! 0) = unsetExit \<and>
        exprs (basicBlocks s' ! 0) =
          [\<lparr>bind_var = LocalVariable Names_statTemp 1, bind_loc = Loc 9 10,
            bind_value = Ident (LocalVariable (Name ''x'') 0), isSynthetic = False\<rparr>,
           \<lparr>bind_var = LocalVariable Names_returnTemp 0, bind_loc = Loc 0 20,
            bind_value = TAbsurd (LocalVariable Names_statTemp 1), isSynthetic = False\<rparr>])"
  by code_simp

subsection \<open>The end of a \<^verbatim>\<open>Rescue\<close>\<close>

text \<open>
  C7. Let a walk of a \<open>Rescue\<close> return, from a block of a CFG that holds its dead
  block. Then the loop over the rescue cases has returned a handlers block \<open>hb\<close>,
  which is live; the synthetic assignment of the literal true to a fresh
  \<open>gotoDeadTemp\<close> is the last instruction of \<open>hb\<close>, after those the loop left
  there, and \<open>hb\<close> jumps to the ensure block \<open>eb\<close>; the ensure expression has been
  walked from \<open>eb\<close> with a fresh \<open>throwAwayTemp\<close> as its target; the block
  returned is a fresh one, the last of the CFG, empty and without a terminator; and the
  walk ends with the \<^verbatim>\<open>conditionalJump\<close> of the continuation of the ensure expression
  on \<open>gotoDeadTemp\<close> to the dead block and else to the returned block, made on the
  CFG the ensure walk left with the returned block allocated: if that continuation is
  live, its terminator is that branch (a jump from the dead block writes no
  terminator). The jump of \<open>hb\<close> is the \<^verbatim>\<open>unconditionalJump\<close> made right after the
  assignment, and the ensure walk starts from its result.
\<close>

theorem walk_Rescue_ensure:
  assumes w: "walk E cctx (ast_Rescue l body rescueCases elseExpr ensure) current s = Returned r s'"
    and cur: "current < length (basicBlocks s)" and dead: "deadBlock s < length (basicBlocks s)"
  shows "\<exists>hb0 hb eb sR cs sH g t sJ sE ensureEnd sF.
    walkRescueCases E (cctx\<lparr>rescueScope := Some (length (basicBlocks s))\<rparr>) l rescueCases
      hb0 eb sR = Returned (cs, hb) sH \<and>
    g = LocalVariable Names_gotoDeadTemp (temporaryCounter sH + 1) \<and>
    t = LocalVariable Names_throwAwayTemp (temporaryCounter sH + 2) \<and>
    walk E (withTarget (cctx\<lparr>rescueScope := Some (length (basicBlocks s))\<rparr>) t) ensure eb sE =
      Returned ensureEnd sF \<and>
    hb \<noteq> deadBlock s \<and> hb < length (basicBlocks sF) \<and> eb < length (basicBlocks sF) \<and>
    exprs (basicBlocks s' ! hb) =
      exprs (basicBlocks sH ! hb) @
      [\<lparr>bind_var = g, bind_loc = l, bind_value = Literal (LiteralType_bool True),
        isSynthetic = True\<rparr>] \<and>
    bexit (basicBlocks s' ! hb) =
      \<lparr>cond = Some noVariable, thenb = Some eb, elseb = Some eb, exit_loc = l\<rparr> \<and>
    r = length (basicBlocks sF) \<and>
    length (basicBlocks s') = length (basicBlocks sF) + 1 \<and>
    exprs (basicBlocks s' ! r) = [] \<and>
    bexit (basicBlocks s' ! r) = unsetExit \<and>
    (ensureEnd \<noteq> deadBlock s \<longrightarrow>
       bexit (basicBlocks s' ! ensureEnd) =
         \<lparr>cond = Some g, thenb = Some (deadBlock s), elseb = Some r, exit_loc = l\<rparr>) \<and>
    unconditionalJump E hb eb
      (synthesizeExpr hb g l (Literal (LiteralType_bool True))
         (snd (newTemporary Names_gotoDeadTemp sH))) l = Returned () sJ \<and>
    sE = snd (newTemporary Names_throwAwayTemp sJ) \<and>
    conditionalJump E ensureEnd g (deadBlock s) r
      (snd (freshBlock (loops cctx) (rubyBlockId cctx) sF)) l = Returned () s'"
proof -
  define G where "G \<longleftrightarrow> (\<exists>hb0 hb eb sR cs sH g t sJ sE ensureEnd sF.
    walkRescueCases E (cctx\<lparr>rescueScope := Some (length (basicBlocks s))\<rparr>) l rescueCases
      hb0 eb sR = Returned (cs, hb) sH \<and>
    g = LocalVariable Names_gotoDeadTemp (temporaryCounter sH + 1) \<and>
    t = LocalVariable Names_throwAwayTemp (temporaryCounter sH + 2) \<and>
    walk E (withTarget (cctx\<lparr>rescueScope := Some (length (basicBlocks s))\<rparr>) t) ensure eb sE =
      Returned ensureEnd sF \<and>
    hb \<noteq> deadBlock s \<and> hb < length (basicBlocks sF) \<and> eb < length (basicBlocks sF) \<and>
    exprs (basicBlocks s' ! hb) =
      exprs (basicBlocks sH ! hb) @
      [\<lparr>bind_var = g, bind_loc = l, bind_value = Literal (LiteralType_bool True),
        isSynthetic = True\<rparr>] \<and>
    bexit (basicBlocks s' ! hb) =
      \<lparr>cond = Some noVariable, thenb = Some eb, elseb = Some eb, exit_loc = l\<rparr> \<and>
    r = length (basicBlocks sF) \<and>
    length (basicBlocks s') = length (basicBlocks sF) + 1 \<and>
    exprs (basicBlocks s' ! r) = [] \<and>
    bexit (basicBlocks s' ! r) = unsetExit \<and>
    (ensureEnd \<noteq> deadBlock s \<longrightarrow>
       bexit (basicBlocks s' ! ensureEnd) =
         \<lparr>cond = Some g, thenb = Some (deadBlock s), elseb = Some r, exit_loc = l\<rparr>) \<and>
    unconditionalJump E hb eb
      (synthesizeExpr hb g l (Literal (LiteralType_bool True))
         (snd (newTemporary Names_gotoDeadTemp sH))) l = Returned () sJ \<and>
    sE = snd (newTemporary Names_throwAwayTemp sJ) \<and>
    conditionalJump E ensureEnd g (deadBlock s) r
      (snd (freshBlock (loops cctx) (rubyBlockId cctx) sF)) l = Returned () s')"
  have G
    using w
    apply (simp add: walk.simps [of _ _ "ast_Rescue l body rescueCases elseExpr ensure"]
        returned_simps Let_def split_beta)
    apply (elim exE conjE)
    subgoal premises p for s1 s2 bodyEnd s3 s4 elseEnd s5 s6 s7 cs hb sH s8 ensureEnd sF
    proof -
      let ?h = "length (basicBlocks s)"
      let ?eb = "length (basicBlocks s5)"
      note j2 = unconditionalJump_Returned [OF p(2)]
      note j3 = conditionalJump_Returned [OF p(3)]
      have l1: "length (basicBlocks s1) = Suc ?h" "deadBlock s1 = deadBlock s"
        by (simp_all add: j2)
      have l2: "length (basicBlocks s2) = Suc (Suc (Suc ?h))" "deadBlock s2 = deadBlock s"
        by (simp_all add: j3 l1)
      have f4: "length (basicBlocks s2) \<le> length (basicBlocks s3)" "deadBlock s3 = deadBlock s"
        using walk_frame [OF p(4)] l1 l2 dead by simp_all
      note j5 = unconditionalJump_Returned [OF p(5)]
      have l4: "length (basicBlocks s4) = Suc (length (basicBlocks s3))"
        "deadBlock s4 = deadBlock s"
        by (simp_all add: j5 f4)
      have f6: "length (basicBlocks s4) \<le> ?eb" "deadBlock s5 = deadBlock s"
        using walk_frame [OF p(6)] l4 f4 l2 dead by simp_all
      note j7 = unconditionalJump_Returned [OF p(7)]
      note j8 = conditionalJump_Returned [OF p(8)]
      have l7: "length (basicBlocks s7) = Suc (Suc ?eb)" "deadBlock s7 = deadBlock s"
        "temporaryCounter s7 = temporaryCounter s6 + 1"
        by (simp_all add: j8 j7 f6)
      have big: "Suc (Suc (Suc (Suc ?h))) \<le> ?eb" using f6 l4 f4 l2 by simp
      have f9: "length (basicBlocks s7) \<le> length (basicBlocks sH)" "deadBlock sH = deadBlock s"
        "hb = Suc ?h \<or> length (basicBlocks s7) \<le> hb" "hb < length (basicBlocks sH)"
        using walkRescueCases_frame [OF p(9)] l1 l7 big dead by simp_all
      note j10 = unconditionalJump_Returned [OF p(10)]
      have l8: "length (basicBlocks s8) = length (basicBlocks sH)" "deadBlock s8 = deadBlock s"
        "temporaryCounter s8 = temporaryCounter sH + 1"
        by (simp_all add: j10 f9)
      have hbd: "hb \<noteq> deadBlock s" "hb \<noteq> ?eb" using f9 l7 big dead by auto
      have f11: "frame (length (basicBlocks sH)) {?eb} (snd (newTemporary Names_throwAwayTemp s8)) sF"
        "length (basicBlocks sH) \<le> length (basicBlocks sF)" "deadBlock sF = deadBlock s"
        "ensureEnd = ?eb \<or> ensureEnd = deadBlock s \<or> length (basicBlocks sH) \<le> ensureEnd"
        "ensureEnd < length (basicBlocks sF)"
        using walk_frame [OF p(11)] l8 f9 l7 dead big by simp_all
      note j12 = conditionalJump_Returned [OF p(12)]
      have e: "exprs (basicBlocks sF ! hb) = exprs (basicBlocks s8 ! hb)"
        "bexit (basicBlocks sF ! hb) = bexit (basicBlocks s8 ! hb)"
        using frame_exprs [OF f11(1), of hb] frame_bexit [OF f11(1), of hb] f9 hbd l8
        by simp_all
      have hne: "ensureEnd \<noteq> deadBlock s \<Longrightarrow> hb \<noteq> ensureEnd"
        using f11(4) hbd f9 by auto
      have r: "r = length (basicBlocks sF)" using p(13) by simp
      have c1: "exprs (basicBlocks s' ! hb) =
          exprs (basicBlocks sH ! hb) @
          [\<lparr>bind_var = LocalVariable Names_gotoDeadTemp (temporaryCounter sH + 1), bind_loc = l,
            bind_value = Literal (LiteralType_bool True), isSynthetic = True\<rparr>]"
        using f9 f11 by (simp add: j12 e j10)
      have c2: "bexit (basicBlocks s' ! hb) =
          \<lparr>cond = Some noVariable, thenb = Some ?eb, elseb = Some ?eb, exit_loc = l\<rparr>"
        using f9 f11 hbd hne by (auto simp: j12 e j10)
      have c3: "length (basicBlocks s') = length (basicBlocks sF) + 1"
        "exprs (basicBlocks s' ! r) = []" "bexit (basicBlocks s' ! r) = unsetExit"
        using f11 by (simp_all add: j12 r freshBlock_nth_new)
      have c4: "bexit (basicBlocks s' ! ensureEnd) =
         \<lparr>cond = Some (LocalVariable Names_gotoDeadTemp (temporaryCounter sH + 1)),
          thenb = Some (deadBlock s), elseb = Some r, exit_loc = l\<rparr>"
        if "ensureEnd \<noteq> deadBlock s"
        using that f11 by (simp add: j12 r)
      have c5: "hb < length (basicBlocks sF)" "?eb < length (basicBlocks sF)"
        using f9 f11 l7 by simp_all
      have tt: "LocalVariable Names_throwAwayTemp (temporaryCounter s8 + 1) =
                LocalVariable Names_throwAwayTemp (temporaryCounter sH + 2)"
        by (simp add: l8)
      show ?thesis
        unfolding G_def
        apply (rule exI [of _ "length (basicBlocks s1)"], rule exI [of _ hb],
               rule exI [of _ ?eb], rule exI [of _ s7], rule exI [of _ cs], rule exI [of _ sH],
               rule exI [of _ "LocalVariable Names_gotoDeadTemp (temporaryCounter sH + 1)"],
               rule exI [of _ "LocalVariable Names_throwAwayTemp (temporaryCounter sH + 2)"],
               rule exI [of _ s8],
               rule exI [of _ "snd (newTemporary Names_throwAwayTemp s8)"],
               rule exI [of _ ensureEnd], rule exI [of _ sF])
        using p(9) p(10) p(11) p(12) hbd c1 c2 c3 c4 c5 r f11(3)
        by (simp add: tt)
    qed
    done
  then show ?thesis unfolding G_def .
qed

text \<open>
  The theorem at \<^verbatim>\<open>begin 1 rescue => e end\<close>, walked from the entry block of the
  initial CFG: the walk returns.
\<close>

theorem walk_Rescue_ensure_witness:
  "returns (walk exampleExternals exampleContext rescueExample 0 initialState)
     (\<lambda>r s'. \<exists>hb eb (sH::builder_state). hb \<noteq> deadBlock initialState \<and>
        exprs (basicBlocks s' ! hb) =
          exprs (basicBlocks sH ! hb) @
          [\<lparr>bind_var = LocalVariable Names_gotoDeadTemp (temporaryCounter sH + 1),
            bind_loc = Loc 0 40, bind_value = Literal (LiteralType_bool True),
            isSynthetic = True\<rparr>] \<and>
        bexit (basicBlocks s' ! hb) =
          \<lparr>cond = Some noVariable, thenb = Some eb, elseb = Some eb, exit_loc = Loc 0 40\<rparr> \<and>
        length (basicBlocks s') = r + 1)"
proof -
  have "returns (walk exampleExternals exampleContext rescueExample 0 initialState) (\<lambda>r s'. True)"
    by code_simp
  then obtain r s' where
    w: "walk exampleExternals exampleContext rescueExample 0 initialState = Returned r s'"
    by (auto simp: returns_iff)
  have "0 < length (basicBlocks initialState)"
    "deadBlock initialState < length (basicBlocks initialState)"
    by (simp_all add: initialState_def)
  from walk_Rescue_ensure [OF w [unfolded rescueExample_def] this]
  show ?thesis
    unfolding w returns_simps
    apply (elim exE conjE)
    subgoal for hb0 hb eb sR cs sH g t sJ sE ensureEnd sF
      by (rule exI [of _ hb], rule exI [of _ eb], rule exI [of _ sH]) simp
    done
qed

subsection \<open>\<^verbatim>\<open>Next\<close>\<close>

text \<open>
  C8, as the code has it. Let a walk of a \<open>Next\<close> return, from a block of a CFG
  that holds its dead block. Then the expression has been walked into a fresh
  \<open>nextTemp\<close>, with continuation \<open>a\<close>; if \<open>a\<close> is live and the context is
  inside an iterator block, \<open>BlockReturn\<close> of the link and that temporary has been
  appended to \<open>a\<close>, bound to a second fresh \<open>nextTemp\<close>, by a plain
  \<^verbatim>\<open>emplace_back\<close>: its synthetic flag is not set; no other instruction list has
  changed; the walk ends with the \<^verbatim>\<open>unconditionalJump\<close> of \<open>a\<close> to the next scope,
  or to the dead block when there is none: if \<open>a\<close> is live its terminator is that
  jump (a jump from the dead block writes no terminator), and no other terminator has
  changed; \<open>NoNextScope\<close> has been enqueued at the node exactly when there is no
  next scope; and the dead block is returned.
\<close>

theorem walk_Next:
  assumes w: "walk E cctx (ast_Next l e) current s = Returned r s'"
    and cur: "current < length (basicBlocks s)" and dead: "deadBlock s < length (basicBlocks s)"
  shows "r = deadBlock s \<and>
    (\<exists>a s1. walk E (withTarget cctx (LocalVariable Names_nextTemp (temporaryCounter s + 1))) e
               current (snd (newTemporary Names_nextTemp s)) = Returned a s1 \<and>
       a < length (basicBlocks s1) \<and>
       (\<forall>x. exprs (basicBlocks s' ! x) =
          (if x = a \<and> a \<noteq> deadBlock s \<and> isInsideRubyBlock cctx
           then exprs (basicBlocks s1 ! a) @
                  [\<lparr>bind_var = LocalVariable Names_nextTemp (temporaryCounter s1 + 1),
                    bind_loc = l,
                    bind_value = BlockReturn (link cctx)
                                   (LocalVariable Names_nextTemp (temporaryCounter s + 1)),
                    isSynthetic = False\<rparr>]
           else exprs (basicBlocks s1 ! x))) \<and>
       (\<forall>x. bexit (basicBlocks s' ! x) =
          (if x = a \<and> a \<noteq> deadBlock s
           then \<lparr>cond = Some noVariable,
                 thenb = Some (case nextScope cctx of None \<Rightarrow> deadBlock s | Some b \<Rightarrow> b),
                 elseb = Some (case nextScope cctx of None \<Rightarrow> deadBlock s | Some b \<Rightarrow> b),
                 exit_loc = l\<rparr>
           else bexit (basicBlocks s1 ! x))) \<and>
       errorQueue s' =
         (case nextScope cctx of None \<Rightarrow> errorQueue s1 @ [(l, NoNextScope)]
          | Some b \<Rightarrow> errorQueue s1) \<and>
       unconditionalJump E a (case nextScope cctx of None \<Rightarrow> deadBlock s | Some b \<Rightarrow> b)
         ((case nextScope cctx of None \<Rightarrow> beginError l NoNextScope | Some b \<Rightarrow> (\<lambda>s. s))
            (if a \<noteq> deadBlock s \<and> isInsideRubyBlock cctx
             then emplace_back a (LocalVariable Names_nextTemp (temporaryCounter s1 + 1)) l
                    (BlockReturn (link cctx)
                       (LocalVariable Names_nextTemp (temporaryCounter s + 1)))
                    (snd (newTemporary Names_nextTemp s1))
             else s1)) l = Returned () s')"
proof -
  let ?t = "fst (newTemporary Names_nextTemp s)"
  let ?s0 = "snd (newTemporary Names_nextTemp s)"
  from w obtain a s1 s2 where
    w1: "walk E (withTarget cctx ?t) e current ?s0 = Returned a s1"
    and em: "(if a \<noteq> deadBlock s1 \<and> isInsideRubyBlock cctx then
              (let (dead, s) = newTemporary Names_nextTemp s1
               in andThen (ENFORCE E (link cctx \<noteq> None) ''cctx.link.get() != nullptr'' s) (\<lambda>_ s.
                  Returned () (emplace_back a dead l (BlockReturn (link cctx) ?t) s)))
            else Returned () s1) = Returned () s2"
    and j: "(case nextScope cctx of
           None \<Rightarrow>
             (let s = beginError l NoNextScope s2
              in andThen (unconditionalJump E a (deadBlock s) s l) (\<lambda>_ s.
                 Returned (deadBlock s) s))
         | Some scope \<Rightarrow>
             andThen (unconditionalJump E a scope s2 l) (\<lambda>_ s.
             Returned (deadBlock s) s)) = Returned r s'"
    by (auto simp: walk.simps [of _ _ "ast_Next l e"] returned_simps Let_def split_beta)
  have f: "length (basicBlocks ?s0) \<le> length (basicBlocks s1)" "deadBlock s1 = deadBlock s"
    "a < length (basicBlocks s1)"
    using walk_frame [OF w1] cur dead by simp_all
  have s2: "s2 = (if a \<noteq> deadBlock s \<and> isInsideRubyBlock cctx
                  then emplace_back a (LocalVariable Names_nextTemp (temporaryCounter s1 + 1)) l
                         (BlockReturn (link cctx) ?t) (snd (newTemporary Names_nextTemp s1))
                  else s1)"
    using em f(2) by (auto simp: returned_simps Let_def split_beta split: if_splits)
  show ?thesis
  proof (cases "nextScope cctx")
    case None
    with j obtain u where
      "unconditionalJump E a (deadBlock s2) (beginError l NoNextScope s2) l = Returned u s'"
      "r = deadBlock s'"
      by (auto simp: returned_simps Let_def)
    note uj = unconditionalJump_Returned [OF this(1)] this(2)
    have d2: "deadBlock s2 = deadBlock s" using f s2 by simp
    have "unconditionalJump E a (deadBlock s) (beginError l NoNextScope s2) l = Returned () s'"
      using \<open>unconditionalJump E a (deadBlock s2) (beginError l NoNextScope s2) l = Returned u s'\<close>
      by (simp add: d2)
    then have op: "unconditionalJump E a (deadBlock s)
         (beginError l NoNextScope
            (if a \<noteq> deadBlock s \<and> isInsideRubyBlock cctx
             then emplace_back a (LocalVariable Names_nextTemp (temporaryCounter s1 + 1)) l
                    (BlockReturn (link cctx)
                       (LocalVariable Names_nextTemp (temporaryCounter s + 1)))
                    (snd (newTemporary Names_nextTemp s1))
             else s1)) l = Returned () s'"
      unfolding s2 by (cases "a \<noteq> deadBlock s \<and> isInsideRubyBlock cctx") auto
    show ?thesis
      apply (rule conjI)
      using uj f s2 apply simp
      apply (rule exI [of _ a], rule exI [of _ s1])
      using w1 f None by (simp add: uj s2 op)
  next
    case (Some sc)
    with j obtain u where
      "unconditionalJump E a sc s2 l = Returned u s'" "r = deadBlock s'"
      by (auto simp: returned_simps Let_def)
    note uj = unconditionalJump_Returned [OF this(1)] this(2)
    have "unconditionalJump E a sc s2 l = Returned () s'"
      using \<open>unconditionalJump E a sc s2 l = Returned u s'\<close> by simp
    then have op: "unconditionalJump E a sc
            (if a \<noteq> deadBlock s \<and> isInsideRubyBlock cctx
             then emplace_back a (LocalVariable Names_nextTemp (temporaryCounter s1 + 1)) l
                    (BlockReturn (link cctx)
                       (LocalVariable Names_nextTemp (temporaryCounter s + 1)))
                    (snd (newTemporary Names_nextTemp s1))
             else s1) l = Returned () s'"
      unfolding s2 by (cases "a \<noteq> deadBlock s \<and> isInsideRubyBlock cctx") auto
    show ?thesis
      apply (rule conjI)
      using uj f s2 apply simp
      apply (rule exI [of _ a], rule exI [of _ s1])
      using w1 f Some by (simp add: uj s2 op)
  qed
qed

text \<open>
  The theorem at \<^verbatim>\<open>next 1\<close> outside every block, walked from the entry block of the
  initial CFG: the walk returns.
\<close>

theorem walk_Next_witness:
  "returns (walk exampleExternals exampleContext nextExample 0 initialState)
     (\<lambda>r s'. r = 1 \<and>
        bexit (basicBlocks s' ! 0) =
          \<lparr>cond = Some noVariable, thenb = Some 1, elseb = Some 1, exit_loc = Loc 9 15\<rparr>)"
proof -
  have "returns (walk exampleExternals exampleContext nextExample 0 initialState) (\<lambda>r s'. True)"
    by code_simp
  then obtain r s' where
    w: "walk exampleExternals exampleContext nextExample 0 initialState = Returned r s'"
    by (auto simp: returns_iff)
  have "0 < length (basicBlocks initialState)"
    "deadBlock initialState < length (basicBlocks initialState)"
    by (simp_all add: initialState_def)
  from walk_Next [OF w [unfolded nextExample_def] this]
  show ?thesis
    unfolding w returns_simps
    apply (elim exE conjE)
    subgoal for a s1
      by (simp add: initialState_def exampleContext_def walk_Literal_Returned
            newTemporary_def withTarget_def)
    done
qed

text \<open>
  C8 as stated fails at \<^verbatim>\<open>next 1\<close> inside an iterator block: the
  \<open>BlockReturn\<close> appended to the entry block does not have its synthetic flag set.
\<close>

theorem walk_Next_BlockReturn_not_synthetic:
  "returns (walk exampleExternals blockContext nextExample 0 initialState)
     (\<lambda>r s'. exprs (basicBlocks s' ! 0) =
        [\<lparr>bind_var = LocalVariable Names_nextTemp 1, bind_loc = Loc 14 15,
          bind_value = Literal (LiteralType_int 1), isSynthetic = False\<rparr>,
         \<lparr>bind_var = LocalVariable Names_nextTemp 2, bind_loc = Loc 9 15,
          bind_value = BlockReturn
            (Some \<lparr>link_fun = Name ''each'', argFlags = [], link_rubyBlockId = 1\<rparr>)
            (LocalVariable Names_nextTemp 1),
          isSynthetic = False\<rparr>])"
  by code_simp

subsection \<open>The rescue cases after the walk\<close>

lemma walkRescueCases_cases:
  "walkRescueCases E cctx l cases hb eb s = Returned (cases', hb') s' \<Longrightarrow> cases' = cases"
proof (induction cases arbitrary: hb s cases' hb' s')
  case Nil
  then show ?case by simp
next
  case (Cons rc rest)
  obtain cl exs var body where rc: "rc = RescueCaseNode cl exs var body" by (cases rc)
  show ?case
    using Cons.prems Cons.IH
    by (auto simp: rc Let_def split_beta returned_simps split: option.splits if_splits)
qed

lemma walkRescueCases_pushes_StandardError:
  "walkRescueCases E cctx l (RescueCaseNode cl [] var body # rest) hb eb s =
     (case walkRescueCases E cctx l
             (RescueCaseNode cl [MK_Constant (expr_loc var) Symbols_StandardError] var body # rest)
             hb eb s of
        Returned r s' \<Rightarrow> Returned (RescueCaseNode cl [] var body # tl (fst r), snd r) s'
      | Threw e s' \<Rightarrow> Threw e s'
      | Diverged \<Rightarrow> Diverged)"
  by (simp add: Let_def split_beta andThen_def split: option.splits outcome.splits)

text \<open>
  C9. The loop over the rescue cases hands back the cases it was given: when it
  returns, every case has the exceptions it had before, in length and in contents. A
  case that lists no exception class is walked as the same case with the one exception
  \<open>StandardError\<close>, a constant made at the location of the case's variable: the CFG,
  the handlers block and the error are those of that walk, and the case handed back is
  the case without it.
\<close>

theorem walkRescueCases_restores_cases:
  "(walkRescueCases E cctx l cases hb eb s = Returned (cases', hb') s' \<longrightarrow> cases' = cases)
   \<and> walkRescueCases E cctx l (RescueCaseNode cl [] var body # rest) hb eb s =
       (case walkRescueCases E cctx l
               (RescueCaseNode cl [MK_Constant (expr_loc var) Symbols_StandardError] var body
                  # rest)
               hb eb s of
          Returned r s' \<Rightarrow> Returned (RescueCaseNode cl [] var body # tl (fst r), snd r) s'
        | Threw e s' \<Rightarrow> Threw e s'
        | Diverged \<Rightarrow> Diverged)"
  using walkRescueCases_cases [of E cctx l cases hb eb s cases' hb' s']
    walkRescueCases_pushes_StandardError [of E cctx l cl var body rest hb eb s]
  by blast

text \<open>
  The theorem at \<^verbatim>\<open>rescue => e\<close>, a case with no exception class, with block 0 as
  the handlers block and block 2 as the ensure block: the loop returns, and hands back
  the case with no exception class.
\<close>

theorem walkRescueCases_restores_cases_witness:
  "returns (walkRescueCases exampleExternals exampleContext (Loc 0 40) [exampleRescueCase] 0 2
             (snd (freshBlock 0 0 initialState)))
     (\<lambda>r s'. fst r = [exampleRescueCase])"
proof -
  have "returns (walkRescueCases exampleExternals exampleContext (Loc 0 40) [exampleRescueCase]
                   0 2 (snd (freshBlock 0 0 initialState))) (\<lambda>r s'. True)"
    by code_simp
  then obtain r s' where
    w: "walkRescueCases exampleExternals exampleContext (Loc 0 40) [exampleRescueCase] 0 2
          (snd (freshBlock 0 0 initialState)) = Returned r s'"
    by (auto simp: returns_iff)
  from walkRescueCases_restores_cases [of exampleExternals exampleContext "Loc 0 40"
         "[exampleRescueCase]" 0 2 "snd (freshBlock 0 0 initialState)" "fst r" "snd r" s',
         THEN conjunct1]
  show ?thesis unfolding w using w by simp
qed


subsection \<open>\<^verbatim>\<open>ConstantLit\<close>\<close>





end
